(* ===== verification/Identra_Prelude.thy ===== *)
theory Identra_Prelude
  imports Main "HOL-Library.State_Monad" "HOL-Library.Monad_Syntax"
begin

text \<open>
  The shared vocabulary of the development: the two fact collections the component proofs draw on,
  the reading of a Go function that returns \<open>(T, error)\<close> as a sum, instants and durations as
  nanosecond counts, and a small predicate-transformer calculus over \<^typ>\<open>('s, 'a) state\<close>, the
  state monad in which every effectful operation of the service is written.
\<close>

named_theorems run_simps \<open>one-step evaluation of the effect primitives\<close>
named_theorems frame \<open>which components of the state an operation leaves alone\<close>

section \<open>Time\<close>

text \<open>
  A Go \<^verbatim>\<open>time.Time\<close> is the number of nanoseconds since January 1, year 1, UTC, so that the zero
  value is \<open>0\<close>; a \<^verbatim>\<open>time.Duration\<close> is a number of nanoseconds.
\<close>

type_synonym go_time = int
type_synonym go_duration = int

abbreviation millisecond :: go_duration where "millisecond \<equiv> 1000000"
abbreviation second :: go_duration where "second \<equiv> 1000000000"
abbreviation minute :: go_duration where "minute \<equiv> 60000000000"
abbreviation hour :: go_duration where "hour \<equiv> 3600000000000"

definition time_IsZero :: "go_time \<Rightarrow> bool" where
  "time_IsZero t \<longleftrightarrow> t = 0"

section \<open>Running stateful code\<close>

text \<open>
  \<open>wp m Q s\<close>: running \<open>m\<close> from \<open>s\<close> ends in a result and a state that satisfy \<open>Q\<close>. Every
  program here is total, so this is at once total correctness.
\<close>

definition wp :: "('s, 'a) state \<Rightarrow> ('a \<Rightarrow> 's \<Rightarrow> bool) \<Rightarrow> 's \<Rightarrow> bool" where
  "wp m Q s = (case run_state m s of (a, s') \<Rightarrow> Q a s')"

text \<open>\<open>keeps f m\<close>: no run of \<open>m\<close> changes the part of the state that \<open>f\<close> observes.\<close>

definition keeps :: "('s \<Rightarrow> 'b) \<Rightarrow> ('s, 'a) state \<Rightarrow> bool" where
  "keeps f m \<longleftrightarrow> (\<forall>s. f (snd (run_state m s)) = f s)"

text \<open>\<open>maintains I m\<close>: every run of \<open>m\<close> from a state with \<open>I\<close> ends in a state with \<open>I\<close>.\<close>

definition maintains :: "('s \<Rightarrow> bool) \<Rightarrow> ('s, 'a) state \<Rightarrow> bool" where
  "maintains I m \<longleftrightarrow> (\<forall>s. I s \<longrightarrow> I (snd (run_state m s)))"

lemma wp_bind: "wp (State_Monad.bind m f) Q s = wp m (\<lambda>a s'. wp (f a) Q s') s"
  by (simp add: wp_def split: prod.splits)

lemma wp_return: "wp (State_Monad.return a) Q s = Q a s"
  by (simp add: wp_def)

lemma wp_conseq:
  assumes "wp m Q s" and "\<And>a s'. Q a s' \<Longrightarrow> Q' a s'"
  shows "wp m Q' s"
  using assms by (auto simp: wp_def split: prod.splits)

lemma wp_run: "wp m Q s \<Longrightarrow> run_state m s = (a, s') \<Longrightarrow> Q a s'"
  by (simp add: wp_def)

lemma keepsD [dest]: "keeps f m \<Longrightarrow> run_state m s = (a, s') \<Longrightarrow> f s' = f s"
  unfolding keeps_def by (metis snd_conv)

lemma keepsI: "(\<And>s a s'. run_state m s = (a, s') \<Longrightarrow> f s' = f s) \<Longrightarrow> keeps f m"
  unfolding keeps_def by (metis prod.collapse)

lemma keeps_return [frame]: "keeps f (State_Monad.return a)"
  by (simp add: keeps_def)

lemma keeps_bind [frame]:
  "keeps f m \<Longrightarrow> (\<And>a. keeps f (g a)) \<Longrightarrow> keeps f (State_Monad.bind m g)"
  by (rule keepsI, simp split: prod.splits, metis keepsD)

lemma keeps_if [frame]: "keeps f m \<Longrightarrow> keeps f n \<Longrightarrow> keeps f (if b then m else n)"
  by simp

lemma keeps_case_sum [frame]:
  "(\<And>e. keeps f (g e)) \<Longrightarrow> (\<And>a. keeps f (h a)) \<Longrightarrow> keeps f (case x of Inl e \<Rightarrow> g e | Inr a \<Rightarrow> h a)"
  by (cases x) auto

lemma keeps_case_option [frame]:
  "keeps f g \<Longrightarrow> (\<And>a. keeps f (h a)) \<Longrightarrow> keeps f (case x of None \<Rightarrow> g | Some a \<Rightarrow> h a)"
  by (cases x) auto

lemma keeps_case_prod [frame]:
  "(\<And>a b. keeps f (g a b)) \<Longrightarrow> keeps f (case x of (a, b) \<Rightarrow> g a b)"
  by (cases x) auto

lemma keeps_Let [frame]: "(\<And>x. keeps f (g x)) \<Longrightarrow> keeps f (let x = t in g x)"
  by simp

lemma maintainsD: "maintains I m \<Longrightarrow> run_state m s = (a, s') \<Longrightarrow> I s \<Longrightarrow> I s'"
  unfolding maintains_def by (metis snd_conv)

lemma maintainsI: "(\<And>s a s'. I s \<Longrightarrow> run_state m s = (a, s') \<Longrightarrow> I s') \<Longrightarrow> maintains I m"
  unfolding maintains_def by (metis prod.collapse)

lemma maintains_keeps: "keeps f m \<Longrightarrow> maintains (\<lambda>s. P (f s)) m"
  by (simp add: keeps_def maintains_def)

lemma maintains_return [frame]: "maintains I (State_Monad.return a)"
  by (simp add: maintains_def)

lemma maintains_bind [frame]:
  "maintains I m \<Longrightarrow> (\<And>a. maintains I (g a)) \<Longrightarrow> maintains I (State_Monad.bind m g)"
  by (rule maintainsI) (auto split: prod.splits dest: maintainsD)

lemma maintains_if [frame]: "maintains I m \<Longrightarrow> maintains I n \<Longrightarrow> maintains I (if b then m else n)"
  by simp

lemma maintains_case_sum [frame]:
  "(\<And>e. maintains I (g e)) \<Longrightarrow> (\<And>a. maintains I (h a)) \<Longrightarrow>
   maintains I (case x of Inl e \<Rightarrow> g e | Inr a \<Rightarrow> h a)"
  by (cases x) auto

lemma maintains_case_option [frame]:
  "maintains I g \<Longrightarrow> (\<And>a. maintains I (h a)) \<Longrightarrow>
   maintains I (case x of None \<Rightarrow> g | Some a \<Rightarrow> h a)"
  by (cases x) auto

lemma maintains_case_prod [frame]:
  "(\<And>a b. maintains I (g a b)) \<Longrightarrow> maintains I (case x of (a, b) \<Rightarrow> g a b)"
  by (cases x) auto

lemma maintains_Let [frame]: "(\<And>x. maintains I (g x)) \<Longrightarrow> maintains I (let x = t in g x)"
  by simp

lemma run_Let [simp, run_simps]: "run_state (Let a f) w = run_state (f a) w"
  by simp

lemma bind_runE:
  assumes "run_state (State_Monad.bind m f) w = (b, w')"
  obtains a w1 where "run_state m w = (a, w1)" and "run_state (f a) w1 = (b, w')"
  using assms by (auto split: prod.splits)

text \<open>Running an operation once per list element, in order.\<close>

lemma traverse_run [simp]:
  "run_state (traverse_list f []) w = ([], w)"
  "fst (run_state (traverse_list f (x # xs)) w) =
     fst (run_state (f x) w) # fst (run_state (traverse_list f xs) (snd (run_state (f x) w)))"
  "snd (run_state (traverse_list f (x # xs)) w) =
     snd (run_state (traverse_list f xs) (snd (run_state (f x) w)))"
  by (simp_all split: prod.splits)

declare traverse_list.simps [simp del]

section \<open>Lists and maps\<close>

lemma distinct_map_update:
  assumes "distinct (map key xs)" and "\<And>x. key (f x) = key x"
  shows "distinct (map key (map f xs))"
  using assms by (simp add: comp_def)

lemma find_Some_iff_mem: "find P xs = Some x \<Longrightarrow> P x \<and> x \<in> set xs"
  by (induction xs) (auto split: if_splits)

lemma find_None_all: "find P xs = None \<longleftrightarrow> (\<forall>x \<in> set xs. \<not> P x)"
  by (induction xs) auto

lemma find_append:
  "find P (xs @ ys) = (case find P xs of None \<Rightarrow> find P ys | Some x \<Rightarrow> Some x)"
  by (induction xs) auto

lemma find_unique:
  assumes "distinct (map key xs)" and "x \<in> set xs"
  shows "find (\<lambda>y. key y = key x) xs = Some x"
  using assms by (induction xs) (auto simp: rev_image_eqI)

lemma find_unique_and:
  assumes "distinct (map key xs)" and "x \<in> set xs" and "P x"
  shows "find (\<lambda>y. key y = key x \<and> P y) xs = Some x"
  using assms by (induction xs) (auto simp: rev_image_eqI)

end
