(* ===== verification/Go_Strings.thy ===== *)
theory Go_Strings
  imports Identra_Prelude "HOL-Library.Sublist" "HOL-Library.Char_ord" "HOL-Library.List_Lexorder"
begin

text \<open>
  Go strings and the parts of \<^verbatim>\<open>strings\<close>, \<^verbatim>\<open>strconv\<close>, \<^verbatim>\<open>fmt\<close> and \<^verbatim>\<open>encoding/hex\<close> the
  program calls. A Go string is a sequence of bytes, here a list of \<^typ>\<open>char\<close> (eight bits each);
  \<open>length\<close> counts bytes as \<^verbatim>\<open>len\<close> does, and the order on strings (\<open>List_Lexorder\<close> over
  \<open>Char_ord\<close>) is the bytewise one of \<^verbatim>\<open>sort.Strings\<close>. White space is Unicode white space: the
  UTF-8 encodings of the code points for which \<^verbatim>\<open>unicode.IsSpace\<close> holds.
\<close>

type_synonym bytes = string

section \<open>White space\<close>

definition space_runes :: "string list" where
  "space_runes =
     [[CHR '' ''], [CHR 0x09], [CHR 0x0A], [CHR 0x0B], [CHR 0x0C], [CHR 0x0D],
      [CHR 0xC2, CHR 0x85], [CHR 0xC2, CHR 0xA0], [CHR 0xE1, CHR 0x9A, CHR 0x80],
      [CHR 0xE2, CHR 0x80, CHR 0x80], [CHR 0xE2, CHR 0x80, CHR 0x81],
      [CHR 0xE2, CHR 0x80, CHR 0x82], [CHR 0xE2, CHR 0x80, CHR 0x83],
      [CHR 0xE2, CHR 0x80, CHR 0x84], [CHR 0xE2, CHR 0x80, CHR 0x85],
      [CHR 0xE2, CHR 0x80, CHR 0x86], [CHR 0xE2, CHR 0x80, CHR 0x87],
      [CHR 0xE2, CHR 0x80, CHR 0x88], [CHR 0xE2, CHR 0x80, CHR 0x89],
      [CHR 0xE2, CHR 0x80, CHR 0x8A], [CHR 0xE2, CHR 0x80, CHR 0xA8],
      [CHR 0xE2, CHR 0x80, CHR 0xA9], [CHR 0xE2, CHR 0x80, CHR 0xAF],
      [CHR 0xE2, CHR 0x81, CHR 0x9F], [CHR 0xE3, CHR 0x80, CHR 0x80]]"

text \<open>The non-empty element of \<open>ts\<close> that \<open>s\<close> starts with, if any.\<close>

definition lead_token :: "string list \<Rightarrow> string \<Rightarrow> string option" where
  "lead_token ts s = find (\<lambda>t. t \<noteq> [] \<and> prefix t s) ts"

function strip_tokens :: "string list \<Rightarrow> string \<Rightarrow> string" where
  "strip_tokens ts s =
     (case lead_token ts s of None \<Rightarrow> s | Some t \<Rightarrow> strip_tokens ts (drop (length t) s))"
  by pat_completeness auto
termination
proof (relation "measure (\<lambda>(ts, s). length s)")
  show "wf (measure (\<lambda>(ts :: string list, s :: string). length s))" by simp
next
  fix ts s t assume "lead_token ts s = Some t"
  then have "t \<noteq> []" and "prefix t s"
    by (auto simp: lead_token_def dest: find_Some_iff_mem)
  then show "((ts, drop (length t) s), (ts, s)) \<in> measure (\<lambda>(ts, s). length s)"
    by (auto simp: prefix_def)
qed

declare strip_tokens.simps [simp del]

text \<open>\<^verbatim>\<open>strings.TrimSpace\<close>: white space is removed at both ends.\<close>

definition TrimSpace :: "string \<Rightarrow> string" where
  "TrimSpace s = rev (strip_tokens (map rev space_runes) (rev (strip_tokens space_runes s)))"

text \<open>\<^verbatim>\<open>strings.Fields\<close>: the maximal runs without white space.\<close>

function fields_from :: "string \<Rightarrow> string \<Rightarrow> string list" where
  "fields_from acc s =
     (case s of [] \<Rightarrow> (if acc = [] then [] else [rev acc])
      | c # cs \<Rightarrow>
         (case lead_token space_runes s of
            None \<Rightarrow> fields_from (c # acc) cs
          | Some t \<Rightarrow> (if acc = [] then [] else [rev acc]) @ fields_from [] (drop (length t) s)))"
  by pat_completeness auto
termination
proof (relation "measure (\<lambda>(acc, s). length s)")
  show "wf (measure (\<lambda>(acc :: string, s :: string). length s))" by simp
next
  fix acc s and c :: char and cs assume "s = c # cs" and "lead_token space_runes s = None"
  then show "((c # acc, cs), (acc, s)) \<in> measure (\<lambda>(acc, s). length s)" by simp
next
  fix acc s and c :: char and cs t assume "s = c # cs" and "lead_token space_runes s = Some t"
  then have "t \<noteq> []" and "prefix t s"
    by (auto simp: lead_token_def dest: find_Some_iff_mem)
  then show "(([], drop (length t) s), (acc, s)) \<in> measure (\<lambda>(acc, s). length s)"
    by (auto simp: prefix_def)
qed

declare fields_from.simps [simp del]

definition Fields :: "string \<Rightarrow> string list" where
  "Fields s = fields_from [] s"

section \<open>Case, substrings and splitting\<close>

definition is_ascii :: "string \<Rightarrow> bool" where
  "is_ascii s \<longleftrightarrow> list_all (\<lambda>c. of_char c < (128 :: nat)) s"

definition lower_char :: "char \<Rightarrow> char" where
  "lower_char c =
     (let n = of_char c :: nat in if 65 \<le> n \<and> n \<le> 90 then char_of (n + 32) else c)"

text \<open>
  \<^verbatim>\<open>strings.ToLower\<close> maps the bytes of an ASCII string; on any other string it maps code points
  with Go's Unicode table, which is the parameter \<open>uni\<close>.
\<close>

definition ToLower :: "(string \<Rightarrow> string) \<Rightarrow> string \<Rightarrow> string" where
  "ToLower uni s = (if is_ascii s then map lower_char s else uni s)"

text \<open>
  \<^verbatim>\<open>strings.EqualFold\<close> against a string whose letters fold within ASCII only (no k and no s,
  the two ASCII letters with a non-ASCII fold partner).
\<close>

definition EqualFold_ascii :: "string \<Rightarrow> string \<Rightarrow> bool" where
  "EqualFold_ascii s t \<longleftrightarrow> map lower_char s = map lower_char t"

definition Contains :: "string \<Rightarrow> string \<Rightarrow> bool" where
  "Contains s sub \<longleftrightarrow> sublist sub s"

definition HasPrefix :: "string \<Rightarrow> string \<Rightarrow> bool" where
  "HasPrefix s p \<longleftrightarrow> prefix p s"

definition HasSuffix :: "string \<Rightarrow> string \<Rightarrow> bool" where
  "HasSuffix s p \<longleftrightarrow> suffix p s"

definition TrimSuffix :: "string \<Rightarrow> string \<Rightarrow> string" where
  "TrimSuffix s p = (if suffix p s then take (length s - length p) s else s)"

text \<open>\<^verbatim>\<open>strings.Split\<close> with a one-byte separator; at least one part results.\<close>

fun split_from :: "char \<Rightarrow> string \<Rightarrow> string \<Rightarrow> string list" where
  "split_from sep acc [] = [rev acc]"
| "split_from sep acc (c # cs) =
     (if c = sep then rev acc # split_from sep [] cs else split_from sep (c # acc) cs)"

definition Split :: "string \<Rightarrow> char \<Rightarrow> string list" where
  "Split s sep = split_from sep [] s"

text \<open>\<^verbatim>\<open>strings.Cut\<close> with a one-byte separator: \<open>None\<close> when it does not occur.\<close>

fun Cut :: "string \<Rightarrow> char \<Rightarrow> (string \<times> string) option" where
  "Cut [] sep = None"
| "Cut (c # cs) sep =
     (if c = sep then Some ([], cs) else map_option (\<lambda>(a, b). (c # a, b)) (Cut cs sep))"

section \<open>Numbers\<close>

definition digit_char :: "nat \<Rightarrow> char" where
  "digit_char d = char_of (48 + d)"

definition digit_val :: "char \<Rightarrow> nat option" where
  "digit_val c = (let n = of_char c in if 48 \<le> n \<and> n \<le> 57 then Some (n - 48) else None)"

fun dec_digits :: "nat \<Rightarrow> string" where
  "dec_digits n = (if n < 10 then [digit_char n] else dec_digits (n div 10) @ [digit_char (n mod 10)])"

declare dec_digits.simps [simp del]

fun parse_digits :: "nat \<Rightarrow> string \<Rightarrow> nat option" where
  "parse_digits acc [] = Some acc"
| "parse_digits acc (c # cs) =
     (case digit_val c of None \<Rightarrow> None | Some d \<Rightarrow> parse_digits (10 * acc + d) cs)"

definition Itoa :: "int \<Rightarrow> string" where
  "Itoa n = (if n < 0 then CHR ''-'' # dec_digits (nat (- n)) else dec_digits (nat n))"

text \<open>\<^verbatim>\<open>strconv.Atoi\<close> where \<^verbatim>\<open>int\<close> has 64 bits; \<open>None\<close> is an error.\<close>

definition parse_nat :: "string \<Rightarrow> nat option" where
  "parse_nat s = (if s = [] then None else parse_digits 0 s)"

definition int64_range :: "int \<Rightarrow> bool" where
  "int64_range n \<longleftrightarrow> - (2 ^ 63) \<le> n \<and> n < 2 ^ 63"

definition parse_sign :: "string \<Rightarrow> int \<times> string" where
  "parse_sign s =
     (case s of [] \<Rightarrow> (1, s)
      | c # cs \<Rightarrow> if c = CHR ''-'' then (-1, cs) else if c = CHR ''+'' then (1, cs) else (1, s))"

definition Atoi :: "string \<Rightarrow> int option" where
  "Atoi s =
     (case parse_sign s of (sg, ds) \<Rightarrow>
        (case parse_nat ds of None \<Rightarrow> None
         | Some n \<Rightarrow> if int64_range (sg * int n) then Some (sg * int n) else None))"

text \<open>\<^verbatim>\<open>%06d\<close> of a non-negative number.\<close>

definition pad0 :: "nat \<Rightarrow> string \<Rightarrow> string" where
  "pad0 w s = replicate (w - length s) (CHR ''0'') @ s"

section \<open>Hexadecimal\<close>

definition hex_char :: "nat \<Rightarrow> char" where
  "hex_char d = (if d < 10 then char_of (48 + d) else char_of (87 + d))"

fun hex_EncodeToString :: "bytes \<Rightarrow> string" where
  "hex_EncodeToString [] = []"
| "hex_EncodeToString (b # bs) =
     hex_char (of_char b div 16) # hex_char (of_char b mod 16) # hex_EncodeToString bs"

text \<open>
  \<^verbatim>\<open>strconv.Quote\<close> of an ASCII string; on any other string it consults Go's table of printable
  code points, which is the parameter \<open>uni\<close>.
\<close>

definition quote_char :: "char \<Rightarrow> string" where
  "quote_char c =
     (let n = of_char c :: nat
      in if c = CHR 0x22 then [CHR 0x5C, CHR 0x22]
         else if c = CHR 0x5C then [CHR 0x5C, CHR 0x5C]
         else if 32 \<le> n \<and> n < 127 then [c]
         else if n = 7 then [CHR 0x5C, CHR ''a''] else if n = 8 then [CHR 0x5C, CHR ''b'']
         else if n = 9 then [CHR 0x5C, CHR ''t''] else if n = 10 then [CHR 0x5C, CHR ''n'']
         else if n = 11 then [CHR 0x5C, CHR ''v''] else if n = 12 then [CHR 0x5C, CHR ''f'']
         else if n = 13 then [CHR 0x5C, CHR ''r'']
         else [CHR 0x5C, CHR ''x'', hex_char (n div 16), hex_char (n mod 16)])"

definition Quote :: "(string \<Rightarrow> string) \<Rightarrow> string \<Rightarrow> string" where
  "Quote uni s = (if is_ascii s then [CHR 0x22] @ concat (map quote_char s) @ [CHR 0x22] else uni s)"

section \<open>Facts about white space\<close>

lemma lead_token_None_iff:
  "lead_token ts s = None \<longleftrightarrow> (\<forall>t \<in> set ts. t \<noteq> [] \<longrightarrow> \<not> prefix t s)"
  by (auto simp: lead_token_def find_None_all)

lemma lead_token_strip [simp]: "lead_token ts (strip_tokens ts s) = None"
proof (induction ts s rule: strip_tokens.induct)
  case (1 ts s)
  show ?case
  proof (cases "lead_token ts s")
    case None
    then show ?thesis by (subst strip_tokens.simps) simp
  next
    case (Some t)
    with "1.IH" show ?thesis by (subst strip_tokens.simps) simp
  qed
qed

lemma strip_tokens_id: "lead_token ts s = None \<Longrightarrow> strip_tokens ts s = s"
  by (subst strip_tokens.simps) simp

lemma strip_tokens_suffix: "suffix (strip_tokens ts s) s"
proof (induction ts s rule: strip_tokens.induct)
  case (1 ts s)
  show ?case
  proof (cases "lead_token ts s")
    case None
    then show ?thesis by (subst strip_tokens.simps) simp
  next
    case (Some t)
    with "1.IH" have "suffix (strip_tokens ts (drop (length t) s)) s"
      using suffix_drop suffix_order.trans by blast
    with Some show ?thesis by (subst strip_tokens.simps) simp
  qed
qed

lemma lead_token_prefix: "lead_token ts s = None \<Longrightarrow> prefix r s \<Longrightarrow> lead_token ts r = None"
  unfolding lead_token_None_iff using prefix_order.trans by blast

text \<open>Trimming leaves no white space at either end, so trimming again changes nothing.\<close>

lemma TrimSpace_no_lead: "lead_token space_runes (TrimSpace s) = None"
proof -
  have "prefix (TrimSpace s) (strip_tokens space_runes s)"
    unfolding TrimSpace_def
    using strip_tokens_suffix [of "map rev space_runes" "rev (strip_tokens space_runes s)"]
    by (metis rev_rev_ident suffix_to_prefix)
  then show ?thesis using lead_token_prefix lead_token_strip by blast
qed

lemma TrimSpace_no_trail: "lead_token (map rev space_runes) (rev (TrimSpace s)) = None"
  by (simp add: TrimSpace_def)

lemma TrimSpace_idem [simp]: "TrimSpace (TrimSpace s) = TrimSpace s"
  using TrimSpace_no_lead [of s] TrimSpace_no_trail [of s]
  by (simp add: TrimSpace_def [of "TrimSpace s"] strip_tokens_id)

lemma TrimSpace_Nil [simp]: "TrimSpace [] = []"
proof -
  have "lead_token ts [] = None" for ts
    by (auto simp: lead_token_None_iff)
  then show ?thesis by (simp add: TrimSpace_def strip_tokens_id)
qed

lemma TrimSpace_sublist: "sublist (TrimSpace s) s"
proof -
  have "prefix (TrimSpace s) (strip_tokens space_runes s)"
    unfolding TrimSpace_def
    using strip_tokens_suffix [of "map rev space_runes" "rev (strip_tokens space_runes s)"]
    by (metis rev_rev_ident suffix_to_prefix)
  then show ?thesis
    using strip_tokens_suffix [of space_runes s]
    by (meson prefix_imp_sublist sublist_order.order.trans suffix_imp_sublist)
qed

section \<open>Facts about numbers\<close>

lemma of_char_digit [simp]: "d < 10 \<Longrightarrow> of_char (digit_char d) = 48 + d"
  by (simp add: digit_char_def of_char_of)

lemma digit_val_char [simp]: "d < 10 \<Longrightarrow> digit_val (digit_char d) = Some d"
  by (simp add: digit_val_def Let_def)

lemma parse_digits_append:
  "parse_digits acc (xs @ ys) =
     (case parse_digits acc xs of None \<Rightarrow> None | Some n \<Rightarrow> parse_digits n ys)"
  by (induction acc xs rule: parse_digits.induct) (auto split: option.splits)

lemma dec_digits_nonempty [simp]: "dec_digits n \<noteq> []"
  by (subst dec_digits.simps) simp

lemma parse_dec_digits: "parse_digits 0 (dec_digits n) = Some n"
proof (induction n rule: dec_digits.induct)
  case (1 n)
  then show ?case
    by (subst dec_digits.simps) (auto simp: parse_digits_append)
qed

lemma parse_nat_dec_digits [simp]: "parse_nat (dec_digits n) = Some n"
  by (simp add: parse_nat_def parse_dec_digits)

lemma dec_digits_all: "c \<in> set (dec_digits n) \<Longrightarrow> \<exists>d < 10. c = digit_char d"
proof (induction n rule: dec_digits.induct)
  case (1 n)
  show ?case
  proof (cases "n < 10")
    case True
    with "1.prems" show ?thesis by (subst (asm) dec_digits.simps) auto
  next
    case False
    with "1.prems" have "c \<in> set (dec_digits (n div 10)) \<or> c = digit_char (n mod 10)"
      by (subst (asm) dec_digits.simps) auto
    moreover have "n mod 10 < 10" by simp
    ultimately show ?thesis using "1.IH" False by blast
  qed
qed

lemma digit_not_sign: "d < 10 \<Longrightarrow> digit_char d \<noteq> CHR ''-'' \<and> digit_char d \<noteq> CHR ''+''"
  using of_char_digit [of d] by (auto dest: arg_cong [where f = "of_char :: char \<Rightarrow> nat"])

lemma parse_sign_dec_digits: "parse_sign (dec_digits n) = (1, dec_digits n)"
proof (cases "dec_digits n")
  case (Cons c cs)
  then obtain d where "d < 10" "c = digit_char d"
    using dec_digits_all [of c n] by auto
  with Cons digit_not_sign [of d] show ?thesis by (simp add: parse_sign_def)
qed simp

text \<open>Printing a 64-bit number and parsing the text gives the number back.\<close>

lemma Atoi_Itoa: "int64_range n \<Longrightarrow> Atoi (Itoa n) = Some n"
  by (auto simp: Atoi_def Itoa_def parse_sign_dec_digits, simp add: parse_sign_def)

lemma Itoa_nonempty [simp]: "Itoa n \<noteq> []"
  by (simp add: Itoa_def)

lemma Atoi_range: "Atoi s = Some n \<Longrightarrow> int64_range n"
  by (auto simp: Atoi_def split: prod.splits option.splits if_splits)

text \<open>A decimal numeral has no white space at its ends.\<close>

lemma no_space_digit:
  assumes "t \<in> set space_runes" and "c \<in> set t" and "d < 10"
  shows "c \<noteq> digit_char d"
proof -
  have "\<forall>t \<in> set space_runes. \<forall>c \<in> set t. of_char c < (48 :: nat) \<or> 57 < (of_char c :: nat)"
    by (simp add: space_runes_def)
  with assms have "of_char c < (48 :: nat) \<or> 57 < (of_char c :: nat)" by blast
  with assms(3) of_char_digit [of d] show ?thesis by auto
qed

lemma TrimSpace_digits:
  assumes "\<And>c. c \<in> set s \<Longrightarrow> \<exists>d < 10. c = digit_char d"
  shows "TrimSpace s = s"
proof -
  have no: "lead_token ts r = None"
    if "set r \<subseteq> set s" and "\<And>t. t \<in> set ts \<Longrightarrow> \<exists>u \<in> set space_runes. set t = set u" for ts r
    unfolding lead_token_None_iff
  proof (intro ballI impI notI)
    fix t assume t: "t \<in> set ts" "t \<noteq> []" "prefix t r"
    obtain c where c: "c \<in> set t" using t(2) by (meson hd_in_set)
    with t that(1) have "c \<in> set s" using set_mono_prefix by blast
    with assms obtain d where "d < 10" "c = digit_char d" by blast
    with c t(1) that(2) no_space_digit show False by blast
  qed
  have "lead_token space_runes s = None" by (rule no) auto
  moreover have "lead_token (map rev space_runes) (rev s) = None" by (rule no) auto
  ultimately show ?thesis by (simp add: TrimSpace_def strip_tokens_id)
qed

lemma TrimSpace_Itoa_nat: "0 \<le> n \<Longrightarrow> TrimSpace (Itoa n) = Itoa n"
  using dec_digits_all by (simp add: Itoa_def TrimSpace_digits)

section \<open>Splitting\<close>

lemma split_from_append:
  "sep \<notin> set a \<Longrightarrow> split_from sep acc (a @ sep # r) = (rev acc @ a) # split_from sep [] r"
  by (induction a arbitrary: acc) auto

lemma split_from_end: "sep \<notin> set a \<Longrightarrow> split_from sep acc a = [rev acc @ a]"
  by (induction a arbitrary: acc) auto

lemma Split_Cons: "sep \<notin> set a \<Longrightarrow> Split (a @ sep # r) sep = a # Split r sep"
  and Split_single: "sep \<notin> set a \<Longrightarrow> Split a sep = [a]"
  by (simp_all add: Split_def split_from_append split_from_end)

end
