(* ===== verification/Go_Encoding.thy ===== *)
theory Go_Encoding
  imports Go_Strings
begin

text \<open>
  The byte encodings of \<^verbatim>\<open>encoding/base64\<close> the program uses (the unpadded standard and URL
  alphabets) and the big-endian bytes of a big integer, with the fact that decoding undoes encoding.
\<close>

section \<open>Unpadded base64\<close>

definition b64_std :: string where
  "b64_std = ''ABCDEFGHIJKLMNOPQRSTUVWXYZabcdefghijklmnopqrstuvwxyz0123456789+/''"

definition b64_url :: string where
  "b64_url = ''ABCDEFGHIJKLMNOPQRSTUVWXYZabcdefghijklmnopqrstuvwxyz0123456789-_''"

text \<open>\<^verbatim>\<open>RawStdEncoding.EncodeToString\<close> and \<^verbatim>\<open>RawURLEncoding.EncodeToString\<close>, by alphabet.\<close>

fun b64_encode :: "string \<Rightarrow> bytes \<Rightarrow> string" where
  "b64_encode al [] = []"
| "b64_encode al [a] = [al ! (of_char a div 4), al ! (of_char a mod 4 * 16)]"
| "b64_encode al [a, b] =
     [al ! (of_char a div 4), al ! (of_char a mod 4 * 16 + of_char b div 16),
      al ! (of_char b mod 16 * 4)]"
| "b64_encode al (a # b # c # r) =
     [al ! (of_char a div 4), al ! (of_char a mod 4 * 16 + of_char b div 16),
      al ! (of_char b mod 16 * 4 + of_char c div 64), al ! (of_char c mod 64)]
     @ b64_encode al r"

fun b64_index :: "string \<Rightarrow> char \<Rightarrow> nat option" where
  "b64_index [] c = None"
| "b64_index (x # xs) c = (if x = c then Some 0 else map_option Suc (b64_index xs c))"

fun b64_groups :: "nat list \<Rightarrow> bytes option" where
  "b64_groups [] = Some []"
| "b64_groups [x] = None"
| "b64_groups [x, y] = Some [char_of (x * 4 + y div 16)]"
| "b64_groups [x, y, z] = Some [char_of (x * 4 + y div 16), char_of (y mod 16 * 16 + z div 4)]"
| "b64_groups (x # y # z # w # r) =
     map_option (\<lambda>bs. [char_of (x * 4 + y div 16), char_of (y mod 16 * 16 + z div 4),
                       char_of (z mod 4 * 64 + w)] @ bs) (b64_groups r)"

text \<open>
  \<^verbatim>\<open>RawStdEncoding.DecodeString\<close>: carriage returns and newlines are skipped, any other byte
  outside the alphabet is an error (\<open>None\<close>), and so is a last group of one character.
\<close>

definition b64_decode :: "string \<Rightarrow> string \<Rightarrow> bytes option" where
  "b64_decode al s =
     (let cs = filter (\<lambda>c. c \<noteq> CHR 0x0A \<and> c \<noteq> CHR 0x0D) s;
          vs = map (b64_index al) cs
      in if None \<in> set vs then None else b64_groups (map the vs))"

section \<open>Big integers\<close>

text \<open>\<^verbatim>\<open>(*big.Int).Bytes\<close> of a non-negative integer: big-endian, no leading zero byte.\<close>

fun big_Bytes :: "nat \<Rightarrow> bytes" where
  "big_Bytes n = (if n = 0 then [] else big_Bytes (n div 256) @ [char_of (n mod 256)])"

declare big_Bytes.simps [simp del]

fun big_SetBytes :: "nat \<Rightarrow> bytes \<Rightarrow> nat" where
  "big_SetBytes acc [] = acc"
| "big_SetBytes acc (b # bs) = big_SetBytes (256 * acc + of_char b) bs"

section \<open>Decoding undoes encoding\<close>

definition b64_alphabet :: "string \<Rightarrow> bool" where
  "b64_alphabet al \<longleftrightarrow>
     length al = 64 \<and> distinct al \<and> CHR 0x0A \<notin> set al \<and> CHR 0x0D \<notin> set al"

lemma b64_std_alphabet: "b64_alphabet b64_std"
  by (simp add: b64_alphabet_def b64_std_def)

lemma b64_url_alphabet: "b64_alphabet b64_url"
  by (simp add: b64_alphabet_def b64_url_def)

lemma b64_index_nth: "distinct al \<Longrightarrow> i < length al \<Longrightarrow> b64_index al (al ! i) = Some i"
proof (induction al arbitrary: i)
  case (Cons x xs)
  then show ?case by (cases i) auto
qed simp

lemma of_char_lt [simp]: "(of_char c :: nat) < 256"
  by (metis of_char_mod_256 mod_less_divisor zero_less_numeral)

text \<open>The values of the encoded characters, as six-bit numbers.\<close>

fun b64_sextets :: "bytes \<Rightarrow> nat list" where
  "b64_sextets [] = []"
| "b64_sextets [a] = [of_char a div 4, of_char a mod 4 * 16]"
| "b64_sextets [a, b] =
     [of_char a div 4, of_char a mod 4 * 16 + of_char b div 16, of_char b mod 16 * 4]"
| "b64_sextets (a # b # c # r) =
     [of_char a div 4, of_char a mod 4 * 16 + of_char b div 16,
      of_char b mod 16 * 4 + of_char c div 64, of_char c mod 64] @ b64_sextets r"

lemma b64_encode_sextets: "b64_encode al bs = map (\<lambda>v. al ! v) (b64_sextets bs)"
  by (induction bs rule: b64_sextets.induct) auto

lemma sextet_bound:
  assumes "a < 256" and "b < 256"
  shows "a div 4 < (64 :: nat)" and "a mod 4 * 16 + b div 16 < (64 :: nat)"
    and "a mod 16 * 4 + b div 64 < (64 :: nat)" and "a mod 4 * 16 < (64 :: nat)"
    and "a mod 16 * 4 < (64 :: nat)"
proof -
  show "a div 4 < 64" using assms(1) by simp
  have m4: "a mod 4 \<le> 3" and m16: "a mod 16 \<le> 15"
    using mod_less_divisor [of 4 a] mod_less_divisor [of 16 a] by linarith+
  have "b div 16 \<le> 15" "b div 64 \<le> 3" using assms(2) by simp_all
  with m4 m16 show "a mod 4 * 16 + b div 16 < 64" "a mod 16 * 4 + b div 64 < 64"
    "a mod 4 * 16 < 64" "a mod 16 * 4 < 64"
    by linarith+
qed

lemma of_char_div4 [simp]: "(of_char c :: nat) div 4 < 64"
  using sextet_bound(1) [of "of_char c" 0] by simp

lemma b64_sextets_bound: "v \<in> set (b64_sextets bs) \<Longrightarrow> v < 64"
  by (induction bs rule: b64_sextets.induct) (auto simp: sextet_bound)

lemma regroup1: "a div 4 * 4 + a mod 4 * 16 div 16 = (a :: nat)"
  by simp

lemma regroup2: "b < 256 \<Longrightarrow> a div 4 * 4 + (a mod 4 * 16 + b div 16) div 16 = (a :: nat)"
proof -
  assume "b < 256"
  then have "b div 16 < 16" by simp
  then have "(a mod 4 * 16 + b div 16) div 16 = a mod 4" by simp
  then show ?thesis by simp
qed

lemma regroup3: "(a mod 4 * 16 + b div 16) mod 16 * 16 + (b mod 16 * 4 + k) div 4 = b"
  if "b < 256" "k < 4" for a b k :: nat
proof -
  have "(a mod 4 * 16 + b div 16) mod 16 = b div 16" using that(1) by simp
  moreover have "(b mod 16 * 4 + k) div 4 = b mod 16" using that(2) by simp
  ultimately show ?thesis by simp
qed

lemma regroup4: "(b mod 16 * 4 + c div 64) mod 4 * 64 + c mod 64 = c"
  if "c < 256" for b c :: nat
proof -
  have "(b mod 16 * 4 + c div 64) mod 4 = c div 64" using that by simp
  then show ?thesis by simp
qed

lemma b64_groups_sextets: "b64_groups (b64_sextets bs) = Some bs"
proof (induction bs rule: b64_sextets.induct)
  case (3 a b)
  show ?case
    using regroup2 [of "of_char b" "of_char a"] regroup3 [of "of_char b" 0 "of_char a"] by simp
next
  case (4 a b c r)
  have "(of_char c :: nat) div 64 < 4"
    using of_char_lt [of c] by linarith
  then show ?case
    using 4 regroup2 [of "of_char b" "of_char a"]
      regroup3 [of "of_char b" "of_char c div 64" "of_char a"] regroup4 [of "of_char c" "of_char b"]
    by simp
qed (simp_all add: regroup1)

theorem b64_decode_encode:
  assumes "b64_alphabet al"
  shows "b64_decode al (b64_encode al bs) = Some bs"
proof -
  have al: "length al = 64" "distinct al" "CHR 0x0A \<notin> set al" "CHR 0x0D \<notin> set al"
    using assms by (auto simp: b64_alphabet_def)
  let ?vs = "b64_sextets bs"
  have bound: "v < 64" if "v \<in> set ?vs" for v
    using that by (rule b64_sextets_bound)
  have mem: "al ! v \<in> set al" if "v \<in> set ?vs" for v
    using bound [OF that] al(1) by simp
  have "filter (\<lambda>c. c \<noteq> CHR 0x0A \<and> c \<noteq> CHR 0x0D) (b64_encode al bs) = b64_encode al bs"
    unfolding b64_encode_sextets filter_id_conv using mem al(3,4) by (metis (no_types, lifting) imageE image_set)
  moreover have "map (b64_index al) (b64_encode al bs) = map Some ?vs"
    unfolding b64_encode_sextets using bound al(1,2) by (simp add: b64_index_nth)
  moreover have "map the (map Some ?vs) = ?vs" by (simp add: comp_def)
  ultimately show ?thesis
    by (simp only: b64_decode_def Let_def) (simp add: b64_groups_sextets)
qed

text \<open>Every character of an encoding is a character of the alphabet.\<close>

lemma b64_encode_chars:
  assumes "length al = 64" and "c \<in> set (b64_encode al bs)"
  shows "c \<in> set al"
  using assms b64_sextets_bound unfolding b64_encode_sextets by auto

lemma big_SetBytes_append: "big_SetBytes acc (xs @ ys) = big_SetBytes (big_SetBytes acc xs) ys"
  by (induction acc xs rule: big_SetBytes.induct) auto

lemma big_SetBytes_Bytes: "big_SetBytes 0 (big_Bytes n) = n"
proof (induction n rule: big_Bytes.induct)
  case (1 n)
  then show ?case
    by (subst big_Bytes.simps) (auto simp: big_SetBytes_append of_char_of)
qed

lemma big_Bytes_inj: "big_Bytes m = big_Bytes n \<Longrightarrow> m = n"
  by (metis big_SetBytes_Bytes)

end
