(* ===== verification/Key_Manager.thy ===== *)
theory Key_Manager
  imports Go_Encoding "HOL-Library.AList" "HOL-Library.Word" "HOL-Library.Multiset"
begin

text \<open>
  The signing-key ring of \<^verbatim>\<open>internal/security/jwks.go\<close>: the manager's state, one definition per
  method, and the ring as a state machine over the methods that change it. The lock only makes each
  method atomic, so a method is one step. The ring is an association list whose order stands for
  Go's arbitrary map iteration order; \<open>None\<close> is the nil map.

  SHA-256, PEM and X.509 are parameters (\<open>sha\<close>, \<open>X\<close>), and a freshly generated RSA key is an
  argument: \<open>None\<close> when \<^verbatim>\<open>rsa.GenerateKey\<close> fails.
\<close>

section \<open>Keys\<close>

record rsa_public =
  rsa_N :: nat
  rsa_E :: int

record rsa_private =
  rsa_PublicKey :: rsa_public
  rsa_D :: nat

datatype KeyState = KeyStateActive | KeyStatePassive | KeyStateRetired

fun KeyState_string :: "KeyState \<Rightarrow> string" where
  "KeyState_string KeyStateActive = ''ACTIVE''"
| "KeyState_string KeyStatePassive = ''PASSIVE''"
| "KeyState_string KeyStateRetired = ''RETIRED''"

record KeyEntry =
  ke_privateKey :: rsa_private
  ke_publicKey :: rsa_public
  ke_keyID :: string
  ke_state :: KeyState

record KeyManager =
  km_privateKey :: "rsa_private option"
  km_publicKey :: "rsa_public option"
  km_keyID :: string
  km_keys :: "(string \<times> KeyEntry) list option"

text \<open>The zero value \<^verbatim>\<open>&KeyManager{}\<close>, and the value \<^verbatim>\<open>GetKeyManager\<close> installs once.\<close>

definition KeyManager_zero :: KeyManager where
  "KeyManager_zero = \<lparr>km_privateKey = None, km_publicKey = None, km_keyID = '''', km_keys = None\<rparr>"

definition GetKeyManager :: "KeyManager option \<Rightarrow> KeyManager" where
  "GetKeyManager global =
     (case global of Some km \<Rightarrow> km | None \<Rightarrow> KeyManager_zero\<lparr>km_keys := Some []\<rparr>)"

record x509_lib =
  pem_Decode :: "string \<Rightarrow> (string \<times> bytes) option"
  pem_EncodeToMemory :: "string \<Rightarrow> bytes \<Rightarrow> string"
  ParsePKCS1PrivateKey :: "bytes \<Rightarrow> string + rsa_private"
  ParsePKCS8PrivateKey :: "bytes \<Rightarrow> string + rsa_private option"
  MarshalPKCS1PrivateKey :: "rsa_private \<Rightarrow> bytes"
  MarshalPKIXPublicKey :: "rsa_public \<Rightarrow> string + bytes"

section \<open>The methods\<close>

definition ring :: "KeyManager \<Rightarrow> (string \<times> KeyEntry) list" where
  "ring km = (case km_keys km of None \<Rightarrow> [] | Some r \<Rightarrow> r)"

definition generateKeyID :: "(bytes \<Rightarrow> bytes) \<Rightarrow> rsa_public option \<Rightarrow> string" where
  "generateKeyID sha publicKey =
     (case publicKey of None \<Rightarrow> ''''
      | Some pk \<Rightarrow> b64_encode b64_url (take 8 (sha (big_Bytes (rsa_N pk)))))"

definition make_keys :: "KeyManager \<Rightarrow> KeyManager" where
  "make_keys km = (if km_keys km = None then km\<lparr>km_keys := Some []\<rparr> else km)"

definition demote_entry :: "KeyEntry \<Rightarrow> KeyEntry" where
  "demote_entry e = (if ke_state e = KeyStateActive then e\<lparr>ke_state := KeyStatePassive\<rparr> else e)"

definition demote_all :: "(string \<times> KeyEntry) list \<Rightarrow> (string \<times> KeyEntry) list" where
  "demote_all r = map (\<lambda>(k, e). (k, demote_entry e)) r"

definition new_entry :: "(bytes \<Rightarrow> bytes) \<Rightarrow> rsa_private \<Rightarrow> KeyState \<Rightarrow> KeyEntry" where
  "new_entry sha priv st =
     \<lparr>ke_privateKey = priv, ke_publicKey = rsa_PublicKey priv,
      ke_keyID = generateKeyID sha (Some (rsa_PublicKey priv)), ke_state = st\<rparr>"

text \<open>The common tail of \<^verbatim>\<open>InitializeFromPEM\<close> and \<^verbatim>\<open>GenerateKeyPair\<close>.\<close>

definition install_active :: "(bytes \<Rightarrow> bytes) \<Rightarrow> rsa_private \<Rightarrow> KeyManager \<Rightarrow> KeyManager" where
  "install_active sha priv km =
     (let pub = rsa_PublicKey priv; kid = generateKeyID sha (Some pub)
      in km\<lparr>km_keys := Some (AList.update kid (new_entry sha priv KeyStateActive)
                              (demote_all (ring km))),
            km_privateKey := Some priv, km_publicKey := Some pub, km_keyID := kid\<rparr>)"

definition parse_private_key :: "x509_lib \<Rightarrow> string \<Rightarrow> string + rsa_private" where
  "parse_private_key X privateKeyPEM =
     (case pem_Decode X privateKeyPEM of
        None \<Rightarrow> Inl ''failed to decode PEM block''
      | Some (typ, block) \<Rightarrow>
          if typ = ''RSA PRIVATE KEY'' then
            (case ParsePKCS1PrivateKey X block of
               Inl e \<Rightarrow> Inl (''failed to parse private key: '' @ e)
             | Inr priv \<Rightarrow> Inr priv)
          else if typ = ''PRIVATE KEY'' then
            (case ParsePKCS8PrivateKey X block of
               Inl e \<Rightarrow> Inl (''failed to parse PKCS8 private key: '' @ e)
             | Inr None \<Rightarrow> Inl ''private key is not RSA''
             | Inr (Some priv) \<Rightarrow> Inr priv)
          else Inl (''unsupported PEM block type: '' @ typ))"

definition InitializeFromPEM ::
  "(bytes \<Rightarrow> bytes) \<Rightarrow> x509_lib \<Rightarrow> string \<Rightarrow> KeyManager \<Rightarrow> (string + unit) \<times> KeyManager" where
  "InitializeFromPEM sha X privateKeyPEM km0 =
     (let km = make_keys km0
      in case parse_private_key X privateKeyPEM of
           Inl e \<Rightarrow> (Inl e, km)
         | Inr priv \<Rightarrow> (Inr (), install_active sha priv km))"

definition GenerateKeyPair ::
  "(bytes \<Rightarrow> bytes) \<Rightarrow> rsa_private option \<Rightarrow> KeyManager \<Rightarrow> (string + unit) \<times> KeyManager" where
  "GenerateKeyPair sha gen km0 =
     (let km = make_keys km0
      in case gen of
           None \<Rightarrow> (Inl ''failed to generate RSA key pair'', km)
         | Some priv \<Rightarrow> (Inr (), install_active sha priv km))"

definition AddKeyPassive ::
  "(bytes \<Rightarrow> bytes) \<Rightarrow> rsa_private option \<Rightarrow> KeyManager \<Rightarrow> (string + string) \<times> KeyManager" where
  "AddKeyPassive sha gen km0 =
     (let km = make_keys km0
      in case gen of
           None \<Rightarrow> (Inl ''failed to generate RSA key pair'', km)
         | Some priv \<Rightarrow>
             (let kid = generateKeyID sha (Some (rsa_PublicKey priv))
              in (Inr kid,
                  km\<lparr>km_keys := Some (AList.update kid (new_entry sha priv KeyStatePassive) (ring km))\<rparr>)))"

definition PromoteKey :: "string \<Rightarrow> KeyManager \<Rightarrow> (string + unit) \<times> KeyManager" where
  "PromoteKey keyID km =
     (case map_of (ring km) keyID of
        None \<Rightarrow> (Inl (''key not found: '' @ keyID), km)
      | Some entry \<Rightarrow>
          if ke_state entry \<noteq> KeyStatePassive then
            (Inl (''key '' @ keyID @ '' is not in PASSIVE state (current: '' @
                  KeyState_string (ke_state entry) @ '')''), km)
          else
            (Inr (),
             km\<lparr>km_keys := Some (AList.update keyID (entry\<lparr>ke_state := KeyStateActive\<rparr>)
                                  (demote_all (ring km))),
                km_privateKey := Some (ke_privateKey entry),
                km_publicKey := Some (ke_publicKey entry),
                km_keyID := ke_keyID entry\<rparr>))"

definition DemoteKey :: "string \<Rightarrow> KeyManager \<Rightarrow> (string + unit) \<times> KeyManager" where
  "DemoteKey keyID km =
     (case map_of (ring km) keyID of
        None \<Rightarrow> (Inl (''key not found: '' @ keyID), km)
      | Some entry \<Rightarrow>
          if ke_state entry \<noteq> KeyStateActive then
            (Inl (''key '' @ keyID @ '' is not in ACTIVE state (current: '' @
                  KeyState_string (ke_state entry) @ '')''), km)
          else
            (let km1 = km\<lparr>km_keys := Some (AList.update keyID (entry\<lparr>ke_state := KeyStatePassive\<rparr>)
                                            (ring km))\<rparr>
             in (Inr (),
                 if km_keyID km1 = keyID
                 then km1\<lparr>km_privateKey := None, km_publicKey := None, km_keyID := ''''\<rparr>
                 else km1)))"

definition RetireKey :: "string \<Rightarrow> KeyManager \<Rightarrow> (string + unit) \<times> KeyManager" where
  "RetireKey keyID km =
     (case map_of (ring km) keyID of
        None \<Rightarrow> (Inl (''key not found: '' @ keyID), km)
      | Some entry \<Rightarrow>
          if ke_state entry = KeyStateActive then
            (Inl (''cannot retire ACTIVE key '' @ keyID @ ''; demote it first''), km)
          else (Inr (), km\<lparr>km_keys := Some (AList.delete keyID (ring km))\<rparr>))"

definition GetPrivateKey :: "KeyManager \<Rightarrow> rsa_private option" where
  "GetPrivateKey km = km_privateKey km"

definition GetPublicKey :: "KeyManager \<Rightarrow> rsa_public option" where
  "GetPublicKey km = km_publicKey km"

definition GetKeyID :: "KeyManager \<Rightarrow> string" where
  "GetKeyID km = km_keyID km"

definition IsInitialized :: "KeyManager \<Rightarrow> bool" where
  "IsInitialized km \<longleftrightarrow> km_privateKey km \<noteq> None"

record SigningKey =
  sk_KeyId :: string
  sk_Algorithm :: string
  sk_Modulus :: bytes
  sk_Exponent :: "32 word"

definition signing_key :: "KeyEntry \<Rightarrow> SigningKey" where
  "signing_key e =
     \<lparr>sk_KeyId = ke_keyID e, sk_Algorithm = ''RS256'',
      sk_Modulus = big_Bytes (rsa_N (ke_publicKey e)),
      sk_Exponent = word_of_int (rsa_E (ke_publicKey e))\<rparr>"

definition published :: "KeyEntry \<Rightarrow> bool" where
  "published e \<longleftrightarrow> ke_state e = KeyStateActive \<or> ke_state e = KeyStatePassive"

definition ListSigningKeys :: "KeyManager \<Rightarrow> SigningKey list" where
  "ListSigningKeys km =
     (let keyIDs = map fst (filter (\<lambda>(k, e). published e) (ring km))
      in map (\<lambda>keyID. signing_key (the (map_of (ring km) keyID))) (sort keyIDs))"

record KeyInfo =
  ki_KeyID :: string
  ki_State :: KeyState

definition ListKeys :: "KeyManager \<Rightarrow> KeyInfo list" where
  "ListKeys km = map (\<lambda>(k, e). \<lparr>ki_KeyID = ke_keyID e, ki_State = ke_state e\<rparr>) (ring km)"

definition ExportPrivateKeyPEM :: "x509_lib \<Rightarrow> KeyManager \<Rightarrow> string + string" where
  "ExportPrivateKeyPEM X km =
     (case km_privateKey km of
        None \<Rightarrow> Inl ''no private key available''
      | Some priv \<Rightarrow> Inr (pem_EncodeToMemory X ''RSA PRIVATE KEY'' (MarshalPKCS1PrivateKey X priv)))"

definition ExportPublicKeyPEM :: "x509_lib \<Rightarrow> KeyManager \<Rightarrow> string + string" where
  "ExportPublicKeyPEM X km =
     (case km_publicKey km of
        None \<Rightarrow> Inl ''no public key available''
      | Some pub \<Rightarrow>
          (case MarshalPKIXPublicKey X pub of
             Inl e \<Rightarrow> Inl (''failed to marshal public key: '' @ e)
           | Inr bs \<Rightarrow> Inr (pem_EncodeToMemory X ''PUBLIC KEY'' bs)))"

section \<open>The ring as a state machine\<close>

datatype km_event =
    EvInitialize string
  | EvGenerate "rsa_private option"
  | EvAddPassive "rsa_private option"
  | EvPromote string
  | EvDemote string
  | EvRetire string

fun km_apply :: "(bytes \<Rightarrow> bytes) \<Rightarrow> x509_lib \<Rightarrow> km_event \<Rightarrow> KeyManager \<Rightarrow> KeyManager" where
  "km_apply sha X (EvInitialize p) km = snd (InitializeFromPEM sha X p km)"
| "km_apply sha X (EvGenerate g) km = snd (GenerateKeyPair sha g km)"
| "km_apply sha X (EvAddPassive g) km = snd (AddKeyPassive sha g km)"
| "km_apply sha X (EvPromote k) km = snd (PromoteKey k km)"
| "km_apply sha X (EvDemote k) km = snd (DemoteKey k km)"
| "km_apply sha X (EvRetire k) km = snd (RetireKey k km)"

text \<open>
  \<open>clash\<close>: the event adds a passive key whose identifier is the one of a key already in the ring.
\<close>

fun clash :: "(bytes \<Rightarrow> bytes) \<Rightarrow> km_event \<Rightarrow> KeyManager \<Rightarrow> bool" where
  "clash sha (EvAddPassive (Some priv)) km =
     (map_of (ring km) (generateKeyID sha (Some (rsa_PublicKey priv))) \<noteq> None)"
| "clash sha _ km = False"

inductive km_step :: "(bytes \<Rightarrow> bytes) \<Rightarrow> x509_lib \<Rightarrow> KeyManager \<Rightarrow> KeyManager \<Rightarrow> bool"
  for sha X where
  km_step: "\<not> clash sha ev km \<Longrightarrow> km_step sha X km (km_apply sha X ev km)"

inductive km_reachable :: "(bytes \<Rightarrow> bytes) \<Rightarrow> x509_lib \<Rightarrow> KeyManager \<Rightarrow> bool"
  for sha X where
  zero: "km_reachable sha X KeyManager_zero"
| step: "km_reachable sha X km \<Longrightarrow> km_step sha X km km' \<Longrightarrow> km_reachable sha X km'"

inductive_cases km_stepE: "km_step sha X km km'"

definition active_ids :: "KeyManager \<Rightarrow> string set" where
  "active_ids km = {k. \<exists>e. map_of (ring km) k = Some e \<and> ke_state e = KeyStateActive}"

text \<open>
  An entry is filed under its own identifier, which its public key determines; its state is one of
  the two live ones.
\<close>

definition entry_ok :: "(bytes \<Rightarrow> bytes) \<Rightarrow> string \<Rightarrow> KeyEntry \<Rightarrow> bool" where
  "entry_ok sha k e \<longleftrightarrow>
     ke_keyID e = k \<and> k = generateKeyID sha (Some (ke_publicKey e)) \<and>
     ke_publicKey e = rsa_PublicKey (ke_privateKey e) \<and> ke_state e \<noteq> KeyStateRetired"

text \<open>What holds of the ring itself, whatever keys are generated.\<close>

definition ring_ok :: "(bytes \<Rightarrow> bytes) \<Rightarrow> KeyManager \<Rightarrow> bool" where
  "ring_ok sha km \<longleftrightarrow>
     distinct (map fst (ring km)) \<and>
     (\<forall>k e. map_of (ring km) k = Some e \<longrightarrow> entry_ok sha k e) \<and>
     (\<forall>k k'. k \<in> active_ids km \<longrightarrow> k' \<in> active_ids km \<longrightarrow> k = k')"

text \<open>The legacy single-key fields describe the active key, and are cleared when there is none.\<close>

definition signer_ok :: "KeyManager \<Rightarrow> bool" where
  "signer_ok km \<longleftrightarrow>
     (case km_privateKey km of
        None \<Rightarrow> km_publicKey km = None \<and> km_keyID km = '''' \<and> active_ids km = {}
      | Some priv \<Rightarrow>
          (\<exists>e. map_of (ring km) (km_keyID km) = Some e \<and> ke_state e = KeyStateActive \<and>
               ke_privateKey e = priv \<and> km_publicKey km = Some (ke_publicKey e)))"

section \<open>Lemmas\<close>

declare map_of_eq_Some_iff [simp del] Some_eq_map_of_iff [simp del]

lemma ring_make_keys [simp]: "ring (make_keys km) = ring km"
  by (simp add: ring_def make_keys_def)

lemma make_keys_fields [simp]:
  "km_privateKey (make_keys km) = km_privateKey km"
  "km_publicKey (make_keys km) = km_publicKey km"
  "km_keyID (make_keys km) = km_keyID km"
  by (simp_all add: make_keys_def)

lemma ring_set [simp]: "ring (km\<lparr>km_keys := Some r\<rparr>) = r"
  by (simp add: ring_def)

lemma ring_legacy [simp]:
  "ring (km\<lparr>km_privateKey := a\<rparr>) = ring km" "ring (km\<lparr>km_publicKey := b\<rparr>) = ring km"
  "ring (km\<lparr>km_keyID := c\<rparr>) = ring km"
  by (simp_all add: ring_def)

lemma map_of_demote_all: "map_of (demote_all r) k = map_option demote_entry (map_of r k)"
  unfolding demote_all_def by (induction r) auto

lemma fst_demote_all [simp]: "map fst (demote_all r) = map fst r"
  by (simp add: demote_all_def comp_def split_beta)

lemma demote_entry_fields [simp]:
  "ke_keyID (demote_entry e) = ke_keyID e" "ke_publicKey (demote_entry e) = ke_publicKey e"
  "ke_privateKey (demote_entry e) = ke_privateKey e"
  "ke_state (demote_entry e) = (if ke_state e = KeyStateActive then KeyStatePassive else ke_state e)"
  by (simp_all add: demote_entry_def)

lemma new_entry_fields [simp]:
  "ke_privateKey (new_entry sha p st) = p" "ke_publicKey (new_entry sha p st) = rsa_PublicKey p"
  "ke_keyID (new_entry sha p st) = generateKeyID sha (Some (rsa_PublicKey p))"
  "ke_state (new_entry sha p st) = st"
  by (simp_all add: new_entry_def)

lemmas ring_lookup = map_of_demote_all AList.update_conv' AList.delete_conv'

lemma entry_ok_demote: "entry_ok sha k e \<Longrightarrow> entry_ok sha k (demote_entry e)"
  by (auto simp: entry_ok_def)

lemma entry_ok_state:
  "entry_ok sha k e \<Longrightarrow> st \<noteq> KeyStateRetired \<Longrightarrow> entry_ok sha k (e\<lparr>ke_state := st\<rparr>)"
  by (auto simp: entry_ok_def)

lemma entry_ok_new:
  "st \<noteq> KeyStateRetired \<Longrightarrow>
   entry_ok sha (generateKeyID sha (Some (rsa_PublicKey p))) (new_entry sha p st)"
  by (simp add: entry_ok_def)

lemmas entry_oks = entry_ok_demote entry_ok_state entry_ok_new

lemma ring_okD:
  assumes "ring_ok sha km"
  shows "distinct (map fst (ring km))"
    and "map_of (ring km) k = Some e \<Longrightarrow> entry_ok sha k e"
    and "k \<in> active_ids km \<Longrightarrow> k' \<in> active_ids km \<Longrightarrow> k = k'"
  using assms by (auto simp: ring_ok_def)

lemma ring_ok_make_keys: "ring_ok sha (make_keys km) = ring_ok sha km"
  by (simp add: ring_ok_def active_ids_def)

lemma signer_ok_make_keys: "signer_ok (make_keys km) = signer_ok km"
  by (simp add: signer_ok_def active_ids_def split: option.splits)

lemma ring_ok_legacy:
  "ring km' = ring km \<Longrightarrow> ring_ok sha km' = ring_ok sha km"
  by (simp add: ring_ok_def active_ids_def)

lemma ring_ok_install: "ring_ok sha km \<Longrightarrow> ring_ok sha (install_active sha priv km)"
  unfolding ring_ok_def install_active_def
  by (auto simp: Let_def active_ids_def ring_lookup distinct_update entry_oks split: if_splits)

lemma ring_ok_promote:
  assumes "ring_ok sha km"
  shows "ring_ok sha (snd (PromoteKey k km))"
proof (cases "map_of (ring km) k")
  case (Some e)
  with assms show ?thesis
    unfolding ring_ok_def PromoteKey_def
    by (auto simp: active_ids_def ring_lookup distinct_update entry_oks split: if_splits)
qed (use assms in \<open>simp add: PromoteKey_def\<close>)

lemma ring_ok_demote:
  assumes "ring_ok sha km"
  shows "ring_ok sha (snd (DemoteKey k km))"
proof (cases "map_of (ring km) k")
  case (Some e)
  with assms show ?thesis
    unfolding ring_ok_def DemoteKey_def
    by (auto simp: Let_def active_ids_def ring_lookup distinct_update entry_oks split: if_splits)
qed (use assms in \<open>simp add: DemoteKey_def\<close>)

lemma ring_ok_retire:
  assumes "ring_ok sha km"
  shows "ring_ok sha (snd (RetireKey k km))"
proof (cases "map_of (ring km) k")
  case (Some e)
  with assms show ?thesis
    unfolding ring_ok_def RetireKey_def
    by (auto simp: active_ids_def ring_lookup distinct_delete split: if_splits)
qed (use assms in \<open>simp add: RetireKey_def\<close>)

lemma ring_ok_add:
  assumes "ring_ok sha km"
  shows "ring_ok sha (snd (AddKeyPassive sha g km))"
proof (cases g)
  case None
  with assms show ?thesis by (simp add: AddKeyPassive_def ring_ok_make_keys)
next
  case (Some priv)
  with assms show ?thesis
    unfolding ring_ok_def AddKeyPassive_def
    by (auto simp: Let_def active_ids_def ring_lookup distinct_update entry_oks split: if_splits)
qed

lemma ring_ok_apply: "ring_ok sha km \<Longrightarrow> ring_ok sha (km_apply sha X ev km)"
  by (cases ev)
    (auto simp: Let_def InitializeFromPEM_def GenerateKeyPair_def ring_ok_make_keys ring_ok_install
      ring_ok_promote ring_ok_demote ring_ok_retire ring_ok_add split: sum.splits option.splits)

lemma signer_ok_install: "signer_ok (install_active sha priv km)"
  by (simp add: signer_ok_def install_active_def Let_def ring_lookup)

lemma signer_ok_add:
  assumes "signer_ok km" and "\<not> clash sha (EvAddPassive g) km"
  shows "signer_ok (snd (AddKeyPassive sha g km))"
proof (cases g)
  case None
  with assms show ?thesis by (simp add: AddKeyPassive_def Let_def signer_ok_make_keys)
next
  case (Some priv)
  with assms show ?thesis
    by (auto simp: signer_ok_def AddKeyPassive_def Let_def active_ids_def ring_lookup
        split: option.splits)
qed

lemma signer_ok_promote:
  assumes "signer_ok km" and "ring_ok sha km"
  shows "signer_ok (snd (PromoteKey k km))"
proof (cases "map_of (ring km) k")
  case (Some e)
  with assms(2) have "ke_keyID e = k"
    by (auto dest: ring_okD(2) simp: entry_ok_def)
  with Some show ?thesis
  proof (cases "ke_state e = KeyStatePassive")
    case True
    with Some \<open>ke_keyID e = k\<close> show ?thesis
      by (simp add: PromoteKey_def signer_ok_def ring_lookup)
  qed (use assms in \<open>simp add: PromoteKey_def\<close>)
qed (use assms in \<open>simp add: PromoteKey_def\<close>)

lemma signer_active:
  assumes "signer_ok km" and "ring_ok sha km" and "k \<in> active_ids km"
  shows "km_keyID km = k" and "km_privateKey km \<noteq> None"
proof -
  from assms(1,3) obtain priv where p: "km_privateKey km = Some priv"
    by (auto simp: signer_ok_def split: option.splits)
  with assms(1) have "km_keyID km \<in> active_ids km"
    by (auto simp: signer_ok_def active_ids_def)
  with assms(2,3) ring_okD(3) show "km_keyID km = k" by blast
  from p show "km_privateKey km \<noteq> None" by simp
qed

lemma signer_ok_demote:
  assumes "signer_ok km" and "ring_ok sha km"
  shows "signer_ok (snd (DemoteKey k km))"
proof (cases "map_of (ring km) k")
  case (Some e)
  show ?thesis
  proof (cases "ke_state e = KeyStateActive")
    case True
    with Some have k: "k \<in> active_ids km" by (simp add: active_ids_def)
    with assms have "km_keyID km = k" by (rule signer_active(1))
    moreover have "active_ids (km\<lparr>km_keys := Some (AList.update k (e\<lparr>ke_state := KeyStatePassive\<rparr>)
        (ring km))\<rparr>) = {}"
      using k ring_okD(3) [OF assms(2)] by (auto simp: active_ids_def ring_lookup split: if_splits)
    ultimately show ?thesis
      using Some True by (simp add: DemoteKey_def Let_def signer_ok_def active_ids_def)
  qed (use assms Some in \<open>simp add: DemoteKey_def\<close>)
qed (use assms in \<open>simp add: DemoteKey_def\<close>)

lemma signer_ok_retire:
  assumes "signer_ok km"
  shows "signer_ok (snd (RetireKey k km))"
proof (cases "map_of (ring km) k")
  case (Some e)
  with assms show ?thesis
    by (auto simp: RetireKey_def signer_ok_def active_ids_def ring_lookup split: option.splits)
qed (use assms in \<open>simp add: RetireKey_def\<close>)

lemma signer_ok_apply:
  assumes "signer_ok km" and "ring_ok sha km" and "\<not> clash sha ev km"
  shows "signer_ok (km_apply sha X ev km)"
proof (cases ev)
  case (EvInitialize p)
  with assms show ?thesis
    by (auto simp: InitializeFromPEM_def Let_def signer_ok_make_keys signer_ok_install
        split: sum.splits)
next
  case (EvGenerate g)
  with assms show ?thesis
    by (auto simp: GenerateKeyPair_def Let_def signer_ok_make_keys signer_ok_install
        split: option.splits)
next
  case (EvAddPassive g)
  with assms show ?thesis by (simp add: signer_ok_add)
qed (use assms in \<open>simp_all add: signer_ok_promote signer_ok_demote signer_ok_retire\<close>)

lemma km_zero_ok: "ring_ok sha KeyManager_zero \<and> signer_ok KeyManager_zero"
  by (simp add: ring_ok_def signer_ok_def active_ids_def KeyManager_zero_def ring_def)

lemma km_reachable_ok: "km_reachable sha X km \<Longrightarrow> ring_ok sha km \<and> signer_ok km"
proof (induction rule: km_reachable.induct)
  case zero
  show ?case by (rule km_zero_ok)
next
  case (step km km')
  from step.hyps(2) obtain ev where "\<not> clash sha ev km" "km' = km_apply sha X ev km"
    by (auto elim: km_stepE)
  with step.IH show ?case by (simp add: ring_ok_apply signer_ok_apply)
qed

lemma published_ring: "ring_ok sha km \<Longrightarrow> filter (\<lambda>(k, e). published e) (ring km) = ring km"
proof -
  assume ok: "ring_ok sha km"
  have "published e" if "(k, e) \<in> set (ring km)" for k e
  proof -
    from that ring_okD(1) [OF ok] have "map_of (ring km) k = Some e" by (simp add: map_of_is_SomeI)
    with ok have "ke_state e \<noteq> KeyStateRetired" by (auto dest: ring_okD(2) simp: entry_ok_def)
    then show ?thesis by (cases "ke_state e") (auto simp: published_def)
  qed
  then show ?thesis by (auto simp: filter_id_conv)
qed

lemma ListSigningKeys_ring:
  "ring_ok sha km \<Longrightarrow>
   ListSigningKeys km = map (\<lambda>k. signing_key (the (map_of (ring km) k))) (sort (map fst (ring km)))"
  by (simp add: ListSigningKeys_def Let_def published_ring)

lemma ListSigningKeys_ids:
  assumes "ring_ok sha km"
  shows "map sk_KeyId (ListSigningKeys km) = sort (map fst (ring km))"
proof -
  have "sk_KeyId (signing_key (the (map_of (ring km) k))) = k" if "k \<in> set (map fst (ring km))" for k
  proof -
    from that obtain e where "map_of (ring km) k = Some e"
      by (metis list.set_map map_of_eq_None_iff not_Some_eq)
    with assms show ?thesis
      by (auto dest!: ring_okD(2) [rotated] simp: entry_ok_def signing_key_def)
  qed
  then show ?thesis
    unfolding ListSigningKeys_ring [OF assms] by (auto intro!: map_idI simp: comp_def)
qed

lemma ring_ok_distinct_perm:
  assumes "ring_ok sha km" and "mset (ring km') = mset (ring km)"
  shows "map_of (ring km') = map_of (ring km)"
proof -
  have "mset (map fst (ring km')) = mset (map fst (ring km))"
    by (metis assms(2) mset_map)
  with ring_okD(1) [OF assms(1)] have d: "distinct (map fst (ring km'))"
    by (metis mset_eq_imp_distinct_iff)
  have "set (ring km') = set (ring km)" using assms(2) by (rule mset_eq_setD)
  with d ring_okD(1) [OF assms(1)] show ?thesis
    by (metis map_of_inject_set)
qed

section \<open>What the key ring guarantees\<close>

text \<open>
  (C3) In every state the key manager can reach by its own methods (as long as no freshly generated
  passive key has the identifier of a key already in the ring) at most one key is ACTIVE, every
  entry is filed under the identifier computed from its own public key and none is RETIRED, and the
  key the manager hands out for signing is exactly the ACTIVE one: when there is none, it hands out
  no key at all.
\<close>

theorem key_ring_safe:
  assumes "km_reachable sha X km"
  shows "(\<forall>k k'. k \<in> active_ids km \<longrightarrow> k' \<in> active_ids km \<longrightarrow> k = k') \<and>
         (\<forall>k e. map_of (ring km) k = Some e \<longrightarrow> entry_ok sha k e) \<and>
         (GetPrivateKey km = None \<longrightarrow>
            GetPublicKey km = None \<and> GetKeyID km = '''' \<and> active_ids km = {}) \<and>
         (\<forall>priv. GetPrivateKey km = Some priv \<longrightarrow>
            GetPublicKey km = Some (rsa_PublicKey priv) \<and> active_ids km = {GetKeyID km} \<and>
            GetKeyID km = generateKeyID sha (Some (rsa_PublicKey priv)))"
proof -
  from km_reachable_ok [OF assms] have ring: "ring_ok sha km" and sig: "signer_ok km" by auto
  have some: "GetPublicKey km = Some (rsa_PublicKey priv) \<and> active_ids km = {GetKeyID km} \<and>
      GetKeyID km = generateKeyID sha (Some (rsa_PublicKey priv))"
    if p: "GetPrivateKey km = Some priv" for priv
  proof -
    from p sig obtain e where e: "map_of (ring km) (km_keyID km) = Some e"
      "ke_state e = KeyStateActive" "ke_privateKey e = priv" "km_publicKey km = Some (ke_publicKey e)"
      by (auto simp: signer_ok_def GetPrivateKey_def)
    then have "GetKeyID km \<in> active_ids km" by (auto simp: active_ids_def GetKeyID_def)
    with ring_okD(3) [OF ring] have "active_ids km = {GetKeyID km}" by auto
    with e ring_okD(2) [OF ring e(1)] show ?thesis
      by (auto simp: entry_ok_def GetPublicKey_def GetKeyID_def)
  qed
  moreover have "GetPrivateKey km = None \<longrightarrow>
      GetPublicKey km = None \<and> GetKeyID km = '''' \<and> active_ids km = {}"
    using sig by (auto simp: signer_ok_def GetPrivateKey_def GetPublicKey_def GetKeyID_def)
  ultimately show ?thesis
    using ring_okD(2,3) [OF ring] by blast
qed

text \<open>
  (C17) Rotation is seamless: promoting a PASSIVE key makes it the one and only signing key, and the
  set of published verification keys is the same before and after, so tokens signed by the demoted
  key can still be verified.
\<close>

theorem promote_seamless:
  assumes "ring_ok sha km" and "PromoteKey k km = (Inr (), km')"
  shows "active_ids km' = {k} \<and> GetKeyID km' = k \<and>
         GetPrivateKey km' = map_option ke_privateKey (map_of (ring km) k) \<and>
         ListSigningKeys km' = ListSigningKeys km"
proof -
  from assms(2) obtain e where e: "map_of (ring km) k = Some e"
    and km': "km' = km\<lparr>km_keys := Some (AList.update k (e\<lparr>ke_state := KeyStateActive\<rparr>) (demote_all (ring km))),
        km_privateKey := Some (ke_privateKey e), km_publicKey := Some (ke_publicKey e),
        km_keyID := ke_keyID e\<rparr>"
    by (auto simp: PromoteKey_def split: option.splits if_splits)
  have ok': "ring_ok sha km'" using ring_ok_promote [OF assms(1), of k] assms(2) by simp
  have "ke_keyID e = k" using ring_okD(2) [OF assms(1) e(1)] by (simp add: entry_ok_def)
  moreover have "active_ids km' = {k}"
    using e by (auto simp: km' active_ids_def ring_lookup split: if_splits)
  moreover have "k \<in> set (map fst (demote_all (ring km)))"
    using e(1) by (metis fst_demote_all list.set_map map_of_eq_None_iff option.distinct(1))
  then have "map fst (ring km') = map fst (ring km)"
    by (simp add: km' update_keys del: set_map)
  moreover have "signing_key (the (map_of (ring km') i)) = signing_key (the (map_of (ring km) i))"
    if "i \<in> set (map fst (ring km))" for i
  proof -
    from that obtain f where "map_of (ring km) i = Some f"
      by (metis list.set_map map_of_eq_None_iff not_Some_eq)
    with e(1) show ?thesis by (auto simp: km' ring_lookup signing_key_def)
  qed
  ultimately show ?thesis
    using e(1) ListSigningKeys_ring [OF assms(1)] ListSigningKeys_ring [OF ok']
    by (simp add: km' GetKeyID_def GetPrivateKey_def)
qed


section \<open>A ring with two keys\<close>

definition sample_x509 :: x509_lib where
  "sample_x509 =
     \<lparr>pem_Decode = (\<lambda>s. None), pem_EncodeToMemory = (\<lambda>ty b. ty @ b),
      ParsePKCS1PrivateKey = (\<lambda>b. Inl ''bad''), ParsePKCS8PrivateKey = (\<lambda>b. Inl ''bad''),
      MarshalPKCS1PrivateKey = (\<lambda>k. []), MarshalPKIXPublicKey = (\<lambda>k. Inr [])\<rparr>"

definition key_a :: rsa_private where
  "key_a = \<lparr>rsa_PublicKey = \<lparr>rsa_N = 3233, rsa_E = 17\<rparr>, rsa_D = 413\<rparr>"

definition key_b :: rsa_private where
  "key_b = \<lparr>rsa_PublicKey = \<lparr>rsa_N = 4087, rsa_E = 17\<rparr>, rsa_D = 233\<rparr>"

definition two_keys :: KeyManager where
  "two_keys = snd (AddKeyPassive id (Some key_b) (snd (GenerateKeyPair id (Some key_a) KeyManager_zero)))"

lemma key_ids:
  "generateKeyID id (Some (rsa_PublicKey key_a)) = ''DKE''"
  "generateKeyID id (Some (rsa_PublicKey key_b)) = ''D_c''"
  by code_simp+

lemma two_keys_ring: "ring two_keys = [(''DKE'', new_entry id key_a KeyStateActive), (''D_c'', new_entry id key_b KeyStatePassive)]"
  unfolding two_keys_def AddKeyPassive_def GenerateKeyPair_def install_active_def Let_def
  by (simp add: key_ids) (simp add: KeyManager_zero_def ring_def demote_all_def make_keys_def)

lemma two_keys_reachable: "km_reachable id sample_x509 two_keys"
proof -
  have "km_step id sample_x509 KeyManager_zero (snd (GenerateKeyPair id (Some key_a) KeyManager_zero))"
    using km_step [of id "EvGenerate (Some key_a)"] by simp
  moreover have "km_step id sample_x509 (snd (GenerateKeyPair id (Some key_a) KeyManager_zero)) two_keys"
    using km_step [of id "EvAddPassive (Some key_b)" "snd (GenerateKeyPair id (Some key_a) KeyManager_zero)"]
    by (simp add: two_keys_def key_ids GenerateKeyPair_def install_active_def Let_def)
       (simp add: KeyManager_zero_def ring_def demote_all_def)
  ultimately show ?thesis
    using km_reachable.zero km_reachable.step by blast
qed

lemma two_keys_ok: "ring_ok id two_keys"
  using km_reachable_ok [OF two_keys_reachable] by simp

lemma two_keys_private: "GetPrivateKey two_keys = Some key_a"
  by (simp add: GetPrivateKey_def two_keys_def AddKeyPassive_def GenerateKeyPair_def install_active_def Let_def)

theorem key_ring_safe_witness:
  "GetPublicKey two_keys = Some (rsa_PublicKey key_a) \<and> active_ids two_keys = {GetKeyID two_keys}"
  using key_ring_safe [OF two_keys_reachable] two_keys_private by simp

theorem promote_seamless_witness:
  "active_ids (snd (PromoteKey ''D_c'' two_keys)) = {''D_c''} \<and>
   GetPrivateKey (snd (PromoteKey ''D_c'' two_keys)) = Some key_b"
proof -
  have "PromoteKey ''D_c'' two_keys = (Inr (), snd (PromoteKey ''D_c'' two_keys))"
    by (simp add: PromoteKey_def two_keys_ring)
  from promote_seamless [OF two_keys_ok this] show ?thesis by (simp add: two_keys_ring)
qed


end
