(* ===== verification/Token_Types.thy ===== *)
theory Token_Types
  imports Key_Manager
begin

text \<open>
  The data of \<^verbatim>\<open>internal/security/tokens.go\<close>: token claims, the token configuration, and the
  interface of the JWT library (a third-party package) as a record of functions.
\<close>

datatype jwt_method = SigningMethodRSA string | OtherSigningMethod string

abbreviation AccessTokenType :: string where "AccessTokenType \<equiv> ''access''"
abbreviation RefreshTokenType :: string where "RefreshTokenType \<equiv> ''refresh''"
abbreviation ServiceTokenType :: string where "ServiceTokenType \<equiv> ''service''"

record StandardClaims =
  rc_Issuer :: string
  rc_Subject :: string
  rc_ExpiresAt :: "go_time option"
  rc_IssuedAt :: "go_time option"
  rc_NotBefore :: "go_time option"
  rc_ID :: string
  cl_UserID :: string
  cl_TokenType :: string
  cl_TokenID :: string
  cl_ServiceAccountID :: string
  cl_Scopes :: "string list"

record TokenConfig =
  tc_PrivateKey :: "rsa_private option"
  tc_PublicKey :: "rsa_public option"
  tc_KeyID :: string
  tc_Issuer :: string
  tc_AccessTokenExpiration :: go_duration
  tc_RefreshTokenExpiration :: go_duration
  tc_ServiceTokenExpiration :: go_duration

record Token =
  tok_Value :: string
  tok_ExpiresAt :: go_time

record TokenPair =
  tp_AccessToken :: Token
  tp_RefreshToken :: Token

text \<open>
  \<^verbatim>\<open>jwt.NewNumericDate\<close>, \<^verbatim>\<open>SignedString\<close> (with the signing method's name and the
  \<^verbatim>\<open>kid\<close> header) and \<^verbatim>\<open>jwt.ParseWithClaims\<close>: the parser is given the token text, the key
  function and the current time, and returns the claims and \<^verbatim>\<open>token.Valid\<close>, or an error.
\<close>

record jwt_lib =
  jwt_NewNumericDate :: "go_time \<Rightarrow> go_time"
  jwt_SignedString :: "string \<Rightarrow> string \<Rightarrow> StandardClaims \<Rightarrow> rsa_private option \<Rightarrow> string option"
  jwt_ParseWithClaims ::
    "string \<Rightarrow> (jwt_method \<Rightarrow> string + rsa_public option) \<Rightarrow> go_time \<Rightarrow> (StandardClaims \<times> bool) option"

end
