(* ===== verification/Redis_Api.thy ===== *)
theory Redis_Api
  imports Go_Strings
begin

text \<open>
  The Redis commands the cache stores issue, as a record of functions over the server's state
  \<open>'r\<close> (Redis is a service outside the repository), and what the stores rely on of them: the
  documented behaviour of GET, SET with a time to live, DEL, INCR, EXPIRE and EXISTS. An expiry is
  kept at a resolution of one millisecond, so what a key holds within the last millisecond of its
  life is left open. Instants are those of one clock shared by the process and the server.
\<close>

record 'r redis_ops =
  rd_get :: "go_time \<Rightarrow> string \<Rightarrow> 'r \<Rightarrow> string option"
  rd_set :: "go_time \<Rightarrow> string \<Rightarrow> string \<Rightarrow> go_duration \<Rightarrow> 'r \<Rightarrow> 'r"
  rd_del :: "go_time \<Rightarrow> string \<Rightarrow> 'r \<Rightarrow> 'r"
  rd_incr :: "go_time \<Rightarrow> string \<Rightarrow> 'r \<Rightarrow> (string + int) \<times> 'r"
  rd_expire :: "go_time \<Rightarrow> string \<Rightarrow> int \<Rightarrow> 'r \<Rightarrow> 'r"
  rd_exists :: "go_time \<Rightarrow> string \<Rightarrow> 'r \<Rightarrow> int"

definition redis_set_law :: "'r redis_ops \<Rightarrow> bool" where
  "redis_set_law R \<longleftrightarrow>
     (\<forall>t t' k k' v ttl r. t \<le> t' \<longrightarrow>
        (k' \<noteq> k \<longrightarrow> rd_get R t' k' (rd_set R t k v ttl r) = rd_get R t' k' r) \<and>
        rd_get R t' k (rd_set R t k v ttl r) \<in> {None, Some v} \<and>
        (t' + millisecond \<le> t + ttl \<longrightarrow> rd_get R t' k (rd_set R t k v ttl r) = Some v) \<and>
        (0 < ttl \<longrightarrow> t + ttl + millisecond \<le> t' \<longrightarrow> rd_get R t' k (rd_set R t k v ttl r) = None))"

definition redis_del_law :: "'r redis_ops \<Rightarrow> bool" where
  "redis_del_law R \<longleftrightarrow>
     (\<forall>t t' k k' r. t \<le> t' \<longrightarrow>
        rd_get R t' k' (rd_del R t k r) = (if k' = k then None else rd_get R t' k' r))"

text \<open>
  INCR starts a missing key at 1 without expiry; an existing decimal value is incremented and its
  expiry is kept.
\<close>

definition redis_incr_law :: "'r redis_ops \<Rightarrow> bool" where
  "redis_incr_law R \<longleftrightarrow>
     (\<forall>t t' k k' r. t \<le> t' \<longrightarrow>
        (k' \<noteq> k \<longrightarrow> rd_get R t' k' (snd (rd_incr R t k r)) = rd_get R t' k' r) \<and>
        (rd_get R t k r = None \<longrightarrow>
           fst (rd_incr R t k r) = Inr 1 \<and> rd_get R t' k (snd (rd_incr R t k r)) = Some (Itoa 1)) \<and>
        (\<forall>n. rd_get R t k r = Some (Itoa n) \<longrightarrow> 0 \<le> n \<longrightarrow> int64_range (n + 1) \<longrightarrow>
           fst (rd_incr R t k r) = Inr (n + 1) \<and>
           rd_get R t' k (snd (rd_incr R t k r)) =
             (if rd_get R t' k r = None then None else Some (Itoa (n + 1)))))"

definition redis_expire_law :: "'r redis_ops \<Rightarrow> bool" where
  "redis_expire_law R \<longleftrightarrow>
     (\<forall>t t' k k' secs r. t \<le> t' \<longrightarrow>
        (k' \<noteq> k \<longrightarrow> rd_get R t' k' (rd_expire R t k secs r) = rd_get R t' k' r) \<and>
        rd_get R t' k (rd_expire R t k secs r) \<in> {None, rd_get R t k r} \<and>
        (t' + millisecond \<le> t + secs * second \<longrightarrow>
           rd_get R t' k (rd_expire R t k secs r) = rd_get R t k r) \<and>
        (t + secs * second + millisecond \<le> t' \<longrightarrow> rd_get R t' k (rd_expire R t k secs r) = None))"

definition redis_laws :: "'r redis_ops \<Rightarrow> bool" where
  "redis_laws R \<longleftrightarrow>
     redis_set_law R \<and> redis_del_law R \<and> redis_incr_law R \<and> redis_expire_law R \<and>
     (\<forall>t t' k r. t \<le> t' \<longrightarrow> rd_get R t k r = None \<longrightarrow> rd_get R t' k r = None) \<and>
     (\<forall>t k r. rd_exists R t k r = (if rd_get R t k r = None then 0 else 1))"

section \<open>The laws as rewrite rules\<close>

lemma redis_get_set_other:
  "redis_laws R \<Longrightarrow> t \<le> t' \<Longrightarrow> k' \<noteq> k \<Longrightarrow>
   rd_get R t' k' (rd_set R t k v ttl r) = rd_get R t' k' r"
  by (simp add: redis_laws_def redis_set_law_def)

lemma redis_get_set:
  "redis_laws R \<Longrightarrow> t \<le> t' \<Longrightarrow> t' + millisecond \<le> t + ttl \<Longrightarrow>
   rd_get R t' k (rd_set R t k v ttl r) = Some v"
  by (simp add: redis_laws_def redis_set_law_def)

lemma redis_get_set_expired:
  "redis_laws R \<Longrightarrow> 0 < ttl \<Longrightarrow> t + ttl + millisecond \<le> t' \<Longrightarrow>
   rd_get R t' k (rd_set R t k v ttl r) = None"
  unfolding redis_laws_def redis_set_law_def by (elim conjE, erule allE [of _ t], erule allE [of _ t']) simp

lemma redis_get_set_value:
  "redis_laws R \<Longrightarrow> t \<le> t' \<Longrightarrow> rd_get R t' k (rd_set R t k v ttl r) \<in> {None, Some v}"
  unfolding redis_laws_def redis_set_law_def by blast

lemma redis_get_del:
  "redis_laws R \<Longrightarrow> t \<le> t' \<Longrightarrow>
   rd_get R t' k' (rd_del R t k r) = (if k' = k then None else rd_get R t' k' r)"
  by (simp add: redis_laws_def redis_del_law_def)

lemma redis_incr_fresh:
  "redis_laws R \<Longrightarrow> t \<le> t' \<Longrightarrow> rd_get R t k r = None \<Longrightarrow>
   fst (rd_incr R t k r) = Inr 1 \<and> rd_get R t' k (snd (rd_incr R t k r)) = Some (Itoa 1)"
  by (simp add: redis_laws_def redis_incr_law_def)

lemma redis_incr_next:
  "redis_laws R \<Longrightarrow> t \<le> t' \<Longrightarrow> rd_get R t k r = Some (Itoa n) \<Longrightarrow> 0 \<le> n \<Longrightarrow>
   int64_range (n + 1) \<Longrightarrow>
   fst (rd_incr R t k r) = Inr (n + 1) \<and>
   rd_get R t' k (snd (rd_incr R t k r)) =
     (if rd_get R t' k r = None then None else Some (Itoa (n + 1)))"
  unfolding redis_laws_def redis_incr_law_def by blast

lemma redis_get_incr_other:
  "redis_laws R \<Longrightarrow> t \<le> t' \<Longrightarrow> k' \<noteq> k \<Longrightarrow>
   rd_get R t' k' (snd (rd_incr R t k r)) = rd_get R t' k' r"
  by (simp add: redis_laws_def redis_incr_law_def)

lemma redis_get_expire_other:
  "redis_laws R \<Longrightarrow> t \<le> t' \<Longrightarrow> k' \<noteq> k \<Longrightarrow>
   rd_get R t' k' (rd_expire R t k secs r) = rd_get R t' k' r"
  by (simp add: redis_laws_def redis_expire_law_def)

lemma redis_get_expire:
  "redis_laws R \<Longrightarrow> t \<le> t' \<Longrightarrow> t' + millisecond \<le> t + secs * second \<Longrightarrow>
   rd_get R t' k (rd_expire R t k secs r) = rd_get R t k r"
  by (simp add: redis_laws_def redis_expire_law_def)

lemma redis_get_expire_value:
  "redis_laws R \<Longrightarrow> t \<le> t' \<Longrightarrow> rd_get R t' k (rd_expire R t k secs r) \<in> {None, rd_get R t k r}"
  unfolding redis_laws_def redis_expire_law_def by blast

lemma redis_get_expired:
  "redis_laws R \<Longrightarrow> t \<le> t' \<Longrightarrow> t + secs * second + millisecond \<le> t' \<Longrightarrow>
   rd_get R t' k (rd_expire R t k secs r) = None"
  by (simp add: redis_laws_def redis_expire_law_def)

lemma redis_missing_later:
  "redis_laws R \<Longrightarrow> rd_get R t k r = None \<Longrightarrow> t \<le> t' \<Longrightarrow> rd_get R t' k r = None"
  by (simp add: redis_laws_def)

lemma redis_exists_get:
  "redis_laws R \<Longrightarrow> rd_exists R t k r = (if rd_get R t k r = None then 0 else 1)"
  by (simp add: redis_laws_def)

section \<open>A server that satisfies the laws\<close>

text \<open>
  A key space with expiry instants, used by the witnesses to show that the laws can hold.
\<close>

type_synonym mem_redis_state = "string \<Rightarrow> (string \<times> go_time option) option"

definition mem_get :: "go_time \<Rightarrow> string \<Rightarrow> mem_redis_state \<Rightarrow> string option" where
  "mem_get t k r =
     (case r k of None \<Rightarrow> None
      | Some (v, None) \<Rightarrow> Some v
      | Some (v, Some e) \<Rightarrow> if t < e then Some v else None)"

definition mem_incr ::
  "go_time \<Rightarrow> string \<Rightarrow> mem_redis_state \<Rightarrow> (string + int) \<times> mem_redis_state" where
  "mem_incr t k r =
     (case mem_get t k r of
        None \<Rightarrow> (Inr 1, r(k \<mapsto> (Itoa 1, None)))
      | Some v \<Rightarrow>
          (case Atoi v of
             None \<Rightarrow> (Inl ''ERR value is not an integer or out of range'', r)
           | Some n \<Rightarrow>
               if int64_range (n + 1)
               then (Inr (n + 1), r(k \<mapsto> (Itoa (n + 1), snd (the (r k)))))
               else (Inl ''ERR increment or decrement would overflow'', r)))"

definition mem_expire :: "go_time \<Rightarrow> string \<Rightarrow> int \<Rightarrow> mem_redis_state \<Rightarrow> mem_redis_state" where
  "mem_expire t k secs r =
     (case mem_get t k r of
        None \<Rightarrow> r(k := None)
      | Some v \<Rightarrow> r(k \<mapsto> (v, Some (t + secs * second))))"

definition mem_redis :: "mem_redis_state redis_ops" where
  "mem_redis =
     \<lparr>rd_get = mem_get,
      rd_set = (\<lambda>t k v ttl r. r(k \<mapsto> (v, Some (t + ttl)))),
      rd_del = (\<lambda>t k r. r(k := None)),
      rd_incr = mem_incr,
      rd_expire = mem_expire,
      rd_exists = (\<lambda>t k r. if mem_get t k r = None then 0 else 1)\<rparr>"

lemma mem_redis_sel [simp]:
  "rd_get mem_redis = mem_get" "rd_incr mem_redis = mem_incr" "rd_expire mem_redis = mem_expire"
  "rd_set mem_redis t k v ttl r = r(k \<mapsto> (v, Some (t + ttl)))"
  "rd_del mem_redis t k r = r(k := None)"
  "rd_exists mem_redis t k r = (if mem_get t k r = None then 0 else 1)"
  by (simp_all add: mem_redis_def)

lemma mem_get_upd:
  "mem_get t k (r(k' := x)) = (if k = k' then mem_get t k (\<lambda>_. x) else mem_get t k r)"
  by (simp add: mem_get_def)

lemma mem_get_const [simp]:
  "mem_get t k (\<lambda>_. None) = None"
  "mem_get t k (\<lambda>_. Some (v, None)) = Some v"
  "mem_get t k (\<lambda>_. Some (v, Some e)) = (if t < e then Some v else None)"
  by (simp_all add: mem_get_def)

lemma mem_set_law: "redis_set_law mem_redis"
  by (auto simp: redis_set_law_def mem_get_upd)

lemma mem_del_law: "redis_del_law mem_redis"
  by (simp add: redis_del_law_def mem_get_upd)

lemma mem_incr_law: "redis_incr_law mem_redis"
proof -
  have next_ok: "fst (mem_incr t k r) = Inr (n + 1) \<and>
      mem_get t' k (snd (mem_incr t k r)) = (if mem_get t' k r = None then None else Some (Itoa (n + 1)))"
    if "mem_get t k r = Some (Itoa n)" "0 \<le> n" "int64_range (n + 1)" for t t' k r n
  proof -
    have "Atoi (Itoa n) = Some n" using that(2,3) by (simp add: Atoi_Itoa int64_range_def)
    with that show ?thesis
      by (auto simp: mem_incr_def mem_get_upd) (auto simp: mem_get_def split: option.splits if_splits)
  qed
  have other: "mem_get t' k' (snd (mem_incr t k r)) = mem_get t' k' r" if "k' \<noteq> k" for t t' k k' r
    using that by (simp add: mem_incr_def mem_get_upd split: option.splits)
  have fresh: "fst (mem_incr t k r) = Inr 1 \<and> mem_get t' k (snd (mem_incr t k r)) = Some (Itoa 1)"
    if "mem_get t k r = None" for t t' k r
    using that by (simp add: mem_incr_def mem_get_upd)
  show ?thesis
    unfolding redis_incr_law_def mem_redis_sel using next_ok other fresh by blast
qed

lemma mem_expire_law: "redis_expire_law mem_redis"
  by (auto simp: redis_expire_law_def mem_expire_def mem_get_upd split: option.splits)

text \<open>The laws are satisfiable.\<close>

lemma mem_redis_laws: "redis_laws mem_redis"
  by (auto simp: redis_laws_def mem_set_law mem_del_law mem_incr_law mem_expire_law mem_get_def
      split: option.splits if_splits)

end
