(* ===== verification/Sqlite_Schema.thy ===== *)
theory Sqlite_Schema
  imports Go_Strings
begin

text \<open>
  The database of \<^verbatim>\<open>internal/store/sqlite\<close>: one record per table (\<^verbatim>\<open>schema.sql\<close>), a database
  state holding the rows of each table in insertion order, and the statements of
  \<^verbatim>\<open>sqlitedb/queries.sql.go\<close> as functions on it, with the uniqueness and foreign-key constraints
  of the schema. Columns that hold JSON text (\<^verbatim>\<open>scopes\<close>, \<^verbatim>\<open>metadata\<close>) are represented by the
  value the text encodes. A failing statement changes nothing.
\<close>

section \<open>Rows\<close>

record user_row =
  ur_id :: string
  ur_created_at :: go_time
  ur_updated_at :: go_time
  ur_deleted_at :: "go_time option"
  ur_email :: string
  ur_hashed_password :: "string option"
  ur_hash :: "string option"
  ur_last_login_at :: "go_time option"

record ident_row =
  ir_id :: string
  ir_user_id :: string
  ir_provider :: string
  ir_provider_user_id :: string
  ir_created_at :: go_time
  ir_updated_at :: go_time
  ir_deleted_at :: "go_time option"

record account_row =
  ar_id :: string
  ar_name :: string
  ar_scopes :: "string list"
  ar_created_at :: go_time
  ar_updated_at :: go_time
  ar_disabled_at :: "go_time option"

record cred_row =
  cr_id :: string
  cr_service_account_id :: string
  cr_secret_hash :: string
  cr_created_at :: go_time
  cr_expires_at :: "go_time option"
  cr_revoked_at :: "go_time option"

record system_row =
  sy_key :: string
  sy_value :: string
  sy_updated_at :: go_time

record audit_row =
  au_id :: string
  au_occurred_at :: go_time
  au_actor_type :: string
  au_actor_id :: string
  au_action :: string
  au_resource_type :: string
  au_resource_id :: string
  au_metadata :: "(string \<times> string) list"

record db =
  db_users :: "user_row list"
  db_idents :: "ident_row list"
  db_accounts :: "account_row list"
  db_creds :: "cred_row list"
  db_system :: "system_row list"
  db_audit :: "audit_row list"

definition db_empty :: db where
  "db_empty = \<lparr>db_users = [], db_idents = [], db_accounts = [], db_creds = [],
               db_system = [], db_audit = []\<rparr>"

text \<open>A driver error is \<^verbatim>\<open>sql.ErrNoRows\<close> or carries a message.\<close>

datatype sql_error = ErrNoRows | SqlError string

definition unique_failed :: "string \<Rightarrow> sql_error" where
  "unique_failed column = SqlError (''constraint failed: UNIQUE constraint failed: '' @ column)"

definition foreign_key_failed :: sql_error where
  "foreign_key_failed = SqlError ''constraint failed: FOREIGN KEY constraint failed''"

section \<open>Users\<close>

definition CreateUser :: "user_row \<Rightarrow> db \<Rightarrow> sql_error + db" where
  "CreateUser arg d =
     (if ur_id arg \<in> set (map ur_id (db_users d)) then Inl (unique_failed ''users.id'')
      else if ur_email arg \<in> set (map ur_email (db_users d)) then Inl (unique_failed ''users.email'')
      else Inr (d\<lparr>db_users := db_users d @ [arg\<lparr>ur_deleted_at := None\<rparr>]\<rparr>))"

definition GetUserByID :: "string \<Rightarrow> db \<Rightarrow> sql_error + user_row" where
  "GetUserByID i d =
     (case find (\<lambda>u. ur_id u = i \<and> ur_deleted_at u = None) (db_users d) of
        None \<Rightarrow> Inl ErrNoRows | Some u \<Rightarrow> Inr u)"

definition GetUserByEmail :: "string \<Rightarrow> db \<Rightarrow> sql_error + user_row" where
  "GetUserByEmail email d =
     (case find (\<lambda>u. ur_email u = email \<and> ur_deleted_at u = None) (db_users d) of
        None \<Rightarrow> Inl ErrNoRows | Some u \<Rightarrow> Inr u)"

text \<open>
  The \<^verbatim>\<open>:execrows\<close> updates: all rows the \<^verbatim>\<open>WHERE\<close> clause selects are changed, and their
  number is the result.
\<close>

definition live_user :: "string \<Rightarrow> user_row \<Rightarrow> bool" where
  "live_user i u \<longleftrightarrow> ur_id u = i \<and> ur_deleted_at u = None"

definition update_users :: "(user_row \<Rightarrow> bool) \<Rightarrow> (user_row \<Rightarrow> user_row) \<Rightarrow> db \<Rightarrow> db \<times> nat" where
  "update_users P f d =
     (d\<lparr>db_users := map (\<lambda>u. if P u then f u else u) (db_users d)\<rparr>,
      length (filter P (db_users d)))"

definition UpdateUser ::
  "string \<Rightarrow> string \<Rightarrow> string option \<Rightarrow> string option \<Rightarrow> go_time option \<Rightarrow> go_time \<Rightarrow> db \<Rightarrow>
   sql_error + db \<times> nat" where
  "UpdateUser i email hashed_password hash last_login_at updated_at d =
     (if (\<exists>u \<in> set (db_users d). live_user i u) \<and>
         (\<exists>u \<in> set (db_users d). \<not> live_user i u \<and> ur_email u = email)
      then Inl (unique_failed ''users.email'')
      else Inr (update_users (live_user i)
                  (\<lambda>u. u\<lparr>ur_email := email, ur_hashed_password := hashed_password, ur_hash := hash,
                         ur_last_login_at := last_login_at, ur_updated_at := updated_at\<rparr>) d))"

definition SoftDeleteUser :: "string \<Rightarrow> go_time \<Rightarrow> go_time \<Rightarrow> db \<Rightarrow> sql_error + db \<times> nat" where
  "SoftDeleteUser i deleted_at updated_at d =
     Inr (update_users (live_user i)
            (\<lambda>u. u\<lparr>ur_deleted_at := Some deleted_at, ur_updated_at := updated_at\<rparr>) d)"

definition SetUserPassword :: "string \<Rightarrow> string option \<Rightarrow> go_time \<Rightarrow> db \<Rightarrow> sql_error + db \<times> nat" where
  "SetUserPassword i hashed_password updated_at d =
     Inr (update_users (live_user i)
            (\<lambda>u. u\<lparr>ur_hashed_password := hashed_password, ur_updated_at := updated_at\<rparr>) d)"

text \<open>
  \<^verbatim>\<open>LIMIT n OFFSET k\<close>: a negative limit is no limit. Rows with equal sort keys stay in insertion
  order.
\<close>

definition limit_offset :: "int \<Rightarrow> int \<Rightarrow> 'a list \<Rightarrow> 'a list" where
  "limit_offset limit offset rows =
     (let rest = drop (nat offset) rows in if limit < 0 then rest else take (nat limit) rest)"

definition users_newest_first :: "db \<Rightarrow> user_row list" where
  "users_newest_first d =
     sort_key (\<lambda>u. - ur_created_at u) (filter (\<lambda>u. ur_deleted_at u = None) (db_users d))"

definition ListUsers_sql :: "int \<Rightarrow> int \<Rightarrow> db \<Rightarrow> user_row list" where
  "ListUsers_sql page_offset page_size d = limit_offset page_size page_offset (users_newest_first d)"

definition CountUsers :: "db \<Rightarrow> nat" where
  "CountUsers d = length (filter (\<lambda>u. ur_deleted_at u = None) (db_users d))"

section \<open>External identities\<close>

definition CreateExternalIdentity :: "ident_row \<Rightarrow> db \<Rightarrow> sql_error + db" where
  "CreateExternalIdentity arg d =
     (if ir_id arg \<in> set (map ir_id (db_idents d)) then Inl (unique_failed ''external_identities.id'')
      else if \<exists>i \<in> set (db_idents d).
             ir_provider i = ir_provider arg \<and> ir_provider_user_id i = ir_provider_user_id arg
      then Inl (unique_failed
                  ''external_identities.provider, external_identities.provider_user_id'')
      else if ir_user_id arg \<notin> set (map ur_id (db_users d)) then Inl foreign_key_failed
      else Inr (d\<lparr>db_idents := db_idents d @ [arg\<lparr>ir_deleted_at := None\<rparr>]\<rparr>))"

definition GetExternalIdentityByProviderID :: "string \<Rightarrow> string \<Rightarrow> db \<Rightarrow> sql_error + ident_row" where
  "GetExternalIdentityByProviderID provider provider_user_id d =
     (case find (\<lambda>i. ir_provider i = provider \<and> ir_provider_user_id i = provider_user_id \<and>
                     ir_deleted_at i = None) (db_idents d) of
        None \<Rightarrow> Inl ErrNoRows | Some i \<Rightarrow> Inr i)"

definition ListExternalIdentitiesByUserID :: "string \<Rightarrow> db \<Rightarrow> ident_row list" where
  "ListExternalIdentitiesByUserID user_id d =
     sort_key ir_created_at
       (filter (\<lambda>i. ir_user_id i = user_id \<and> ir_deleted_at i = None) (db_idents d))"

section \<open>The constraints as an invariant\<close>

definition users_ok :: "db \<Rightarrow> bool" where
  "users_ok d \<longleftrightarrow> distinct (map ur_id (db_users d)) \<and> distinct (map ur_email (db_users d))"

definition idents_ok :: "db \<Rightarrow> bool" where
  "idents_ok d \<longleftrightarrow>
     distinct (map ir_id (db_idents d)) \<and>
     distinct (map (\<lambda>i. (ir_provider i, ir_provider_user_id i)) (db_idents d)) \<and>
     ir_user_id ` set (db_idents d) \<subseteq> ur_id ` set (db_users d)"

definition accounts_ok :: "db \<Rightarrow> bool" where
  "accounts_ok d \<longleftrightarrow>
     distinct (map ar_id (db_accounts d)) \<and> distinct (map ar_name (db_accounts d)) \<and>
     distinct (map cr_id (db_creds d)) \<and> distinct (map cr_secret_hash (db_creds d)) \<and>
     cr_service_account_id ` set (db_creds d) \<subseteq> ar_id ` set (db_accounts d)"

definition db_ok :: "db \<Rightarrow> bool" where
  "db_ok d \<longleftrightarrow>
     users_ok d \<and> idents_ok d \<and> accounts_ok d \<and>
     distinct (map sy_key (db_system d)) \<and> distinct (map au_id (db_audit d))"

lemma db_ok_empty: "db_ok db_empty"
  by (simp add: db_ok_def users_ok_def idents_ok_def accounts_ok_def db_empty_def)

lemma CreateUser_ok: "db_ok d \<Longrightarrow> CreateUser arg d = Inr d' \<Longrightarrow> db_ok d'"
  by (auto simp: CreateUser_def db_ok_def users_ok_def idents_ok_def accounts_ok_def
      image_subset_iff split: if_splits)

lemma update_users_ids:
  assumes "\<And>u. ur_id (f u) = ur_id u"
  shows "map ur_id (db_users (fst (update_users P f d))) = map ur_id (db_users d)"
  using assms by (simp add: update_users_def)

lemma update_users_other [simp]:
  "db_idents (fst (update_users P f d)) = db_idents d"
  "db_accounts (fst (update_users P f d)) = db_accounts d"
  "db_creds (fst (update_users P f d)) = db_creds d"
  "db_system (fst (update_users P f d)) = db_system d"
  "db_audit (fst (update_users P f d)) = db_audit d"
  by (simp_all add: update_users_def)

lemma update_users_ok:
  assumes "db_ok d" and "\<And>u. ur_id (f u) = ur_id u"
    and "distinct (map ur_email (db_users (fst (update_users P f d))))"
  shows "db_ok (fst (update_users P f d))"
proof -
  note ids = update_users_ids [of f P d, OF assms(2)]
  then have "ur_id ` set (db_users (fst (update_users P f d))) = ur_id ` set (db_users d)"
    by (metis list.set_map)
  with assms(1,3) ids show ?thesis
    by (simp add: db_ok_def users_ok_def idents_ok_def accounts_ok_def)
qed

lemma distinct_map_one:
  assumes "distinct (map key xs)" and "distinct (map email xs)"
    and "\<And>x. x \<in> set xs \<Longrightarrow> P x \<Longrightarrow> key x = k"
    and "\<And>x. P x \<Longrightarrow> email (f x) = e"
    and "\<And>x. x \<in> set xs \<Longrightarrow> \<not> P x \<Longrightarrow> email x \<noteq> e"
  shows "distinct (map email (map (\<lambda>x. if P x then f x else x) xs))"
  using assms
proof (induction xs)
  case (Cons a xs)
  from Cons have IH: "distinct (map email (map (\<lambda>x. if P x then f x else x) xs))" by auto
  show ?case
  proof (cases "P a")
    case True
    with Cons.prems have "\<not> P x" if "x \<in> set xs" for x using that by force
    with True Cons.prems IH show ?thesis by auto
  next
    case False
    with Cons.prems IH show ?thesis by (auto split: if_splits)
  qed
qed simp

lemma UpdateUser_ok:
  assumes "db_ok d" and "UpdateUser i e hp h l t d = Inr (d', n)"
  shows "db_ok d'"
proof -
  let ?f = "\<lambda>u. u\<lparr>ur_email := e, ur_hashed_password := hp, ur_hash := h, ur_last_login_at := l,
                  ur_updated_at := t\<rparr>"
  from assms(2) have d': "d' = fst (update_users (live_user i) ?f d)"
    and no: "(\<exists>u \<in> set (db_users d). live_user i u) \<Longrightarrow>
         \<forall>u \<in> set (db_users d). \<not> live_user i u \<longrightarrow> ur_email u \<noteq> e"
    by (auto simp: UpdateUser_def split: if_splits)
  have ids: "distinct (map ur_id (db_users d))" and em: "distinct (map ur_email (db_users d))"
    using assms(1) by (auto simp: db_ok_def users_ok_def)
  have "distinct (map ur_email (db_users (fst (update_users (live_user i) ?f d))))"
  proof (cases "\<exists>u \<in> set (db_users d). live_user i u")
    case True
    show ?thesis
      unfolding update_users_def
      using distinct_map_one [OF ids em, of "live_user i" i ?f e] no [OF True]
      by (auto simp: live_user_def)
  next
    case False
    then have "map (\<lambda>u. if live_user i u then ?f u else u) (db_users d) = db_users d"
      by (auto intro!: map_idI)
    with em show ?thesis by (simp add: update_users_def)
  qed
  with assms(1) show ?thesis unfolding d' by (intro update_users_ok) auto
qed

lemma SoftDeleteUser_ok: "db_ok d \<Longrightarrow> SoftDeleteUser i t t' d = Inr (d', n) \<Longrightarrow> db_ok d'"
proof -
  let ?f = "\<lambda>u. u\<lparr>ur_deleted_at := Some t, ur_updated_at := t'\<rparr>"
  assume "db_ok d" and "SoftDeleteUser i t t' d = Inr (d', n)"
  then have d': "d' = fst (update_users (live_user i) ?f d)" by (simp add: SoftDeleteUser_def)
  have "map ur_email (db_users (fst (update_users (live_user i) ?f d))) = map ur_email (db_users d)"
    by (simp add: update_users_def)
  with \<open>db_ok d\<close> show ?thesis
    unfolding d' by (intro update_users_ok) (auto simp: db_ok_def users_ok_def)
qed

lemma SetUserPassword_ok: "db_ok d \<Longrightarrow> SetUserPassword i hp t d = Inr (d', n) \<Longrightarrow> db_ok d'"
proof -
  let ?f = "\<lambda>u. u\<lparr>ur_hashed_password := hp, ur_updated_at := t\<rparr>"
  assume "db_ok d" and "SetUserPassword i hp t d = Inr (d', n)"
  then have d': "d' = fst (update_users (live_user i) ?f d)" by (simp add: SetUserPassword_def)
  have "map ur_email (db_users (fst (update_users (live_user i) ?f d))) = map ur_email (db_users d)"
    by (simp add: update_users_def)
  with \<open>db_ok d\<close> show ?thesis
    unfolding d' by (intro update_users_ok) (auto simp: db_ok_def users_ok_def)
qed

lemma CreateExternalIdentity_ok:
  "db_ok d \<Longrightarrow> CreateExternalIdentity arg d = Inr d' \<Longrightarrow> db_ok d'"
  by (auto simp: CreateExternalIdentity_def db_ok_def users_ok_def idents_ok_def accounts_ok_def
      image_subset_iff split: if_splits) blast

end
