(* ===== verification/World.thy ===== *)
theory World
  imports Token_Types Redis_Api Sqlite_Schema
begin

text \<open>
  What surrounds the program. \<open>env\<close> collects everything outside the repository that the code
  calls: the clock, the random source, fresh UUIDs, the outcome of each database and Redis call,
  the Redis commands, the JWT, password-hash and digest functions, the mail server and the GitHub
  endpoints. \<open>world\<close> is the mutable state: the database, the Redis server, the mail handed to the
  SMTP server, and a counter of effects performed. Every effect reads the environment at its own
  index, so two readings of the clock or of the random source are independent.
\<close>

section \<open>Messages and external data\<close>

record EmailMessage =
  em_ToEmails :: "string list"
  em_Subject :: string
  em_Body :: string
  em_IsHTML :: bool

record oauth2_Config =
  oc_ClientID :: string
  oc_ClientSecret :: string
  oc_Scopes :: "string list"
  oc_RedirectURL :: string

record github_User =
  gu_ID :: int
  gu_Email :: string
  gu_Login :: string
  gu_AvatarURL :: string

record github_Email =
  ge_Email :: string
  ge_Primary :: bool
  ge_Verified :: bool

text \<open>What can happen to a Redis call: it works, it never arrives, or only its reply is lost.\<close>

datatype redis_fault = RedisOk | RequestLost | ReplyLost

record 'r env =
  e_now :: "nat \<Rightarrow> go_time"
  e_rand :: "nat \<Rightarrow> nat \<Rightarrow> bytes option"
  e_rand_int :: "nat \<Rightarrow> nat \<Rightarrow> nat option"
  e_uuid :: "nat \<Rightarrow> string"
  e_db_fault :: "nat \<Rightarrow> string option"
  e_redis_fault :: "nat \<Rightarrow> redis_fault"
  e_redis :: "'r redis_ops"
  e_unicode_lower :: "string \<Rightarrow> string"
  e_unicode_quote :: "string \<Rightarrow> string"
  e_sha256 :: "bytes \<Rightarrow> bytes"
  e_argon2 :: "bytes \<Rightarrow> bytes \<Rightarrow> nat \<Rightarrow> nat \<Rightarrow> nat \<Rightarrow> nat \<Rightarrow> bytes option"
  e_jwt :: jwt_lib
  e_json_state :: "string \<Rightarrow> string \<Rightarrow> string"
  e_unjson_state :: "string \<Rightarrow> (string \<times> string) option"
  e_send_mail :: "nat \<Rightarrow> EmailMessage \<Rightarrow> string option"
  e_auth_code_url :: "oauth2_Config \<Rightarrow> string \<Rightarrow> string"
  e_oauth_exchange :: "nat \<Rightarrow> oauth2_Config \<Rightarrow> string \<Rightarrow> string option"
  e_github_user :: "nat \<Rightarrow> string \<Rightarrow> github_User option"
  e_github_emails :: "nat \<Rightarrow> string \<Rightarrow> github_Email list option"

record 'r world =
  w_tick :: nat
  w_db :: db
  w_redis :: 'r
  w_outbox :: "EmailMessage list"

section \<open>Primitive effects\<close>

text \<open>Take the index of this effect.\<close>

definition next_tick :: "('r world, nat) state" where
  "next_tick = State (\<lambda>w. (w_tick w, w\<lparr>w_tick := Suc (w_tick w)\<rparr>))"

definition time_Now :: "'r env \<Rightarrow> ('r world, go_time) state" where
  "time_Now E = do { n \<leftarrow> next_tick; State_Monad.return (e_now E n) }"

text \<open>\<^verbatim>\<open>rand.Read\<close> into a buffer of the given size; \<open>None\<close> is an error.\<close>

definition rand_Read :: "'r env \<Rightarrow> nat \<Rightarrow> ('r world, bytes option) state" where
  "rand_Read E len = do { n \<leftarrow> next_tick; State_Monad.return (e_rand E n len) }"

text \<open>\<^verbatim>\<open>rand.Int(rand.Reader, max)\<close>; \<open>None\<close> is an error.\<close>

definition rand_Int :: "'r env \<Rightarrow> nat \<Rightarrow> ('r world, nat option) state" where
  "rand_Int E bound = do { n \<leftarrow> next_tick; State_Monad.return (e_rand_int E n bound) }"

definition uuid_NewString :: "'r env \<Rightarrow> ('r world, string) state" where
  "uuid_NewString E = do { n \<leftarrow> next_tick; State_Monad.return (e_uuid E n) }"

text \<open>A database call: it fails with the injected fault, or its statement is executed.\<close>

definition db_Exec :: "'r env \<Rightarrow> (db \<Rightarrow> sql_error + db \<times> 'a) \<Rightarrow> ('r world, sql_error + 'a) state" where
  "db_Exec E stmt = State (\<lambda>w.
     let n = w_tick w; w1 = w\<lparr>w_tick := Suc n\<rparr>
     in case e_db_fault E n of
          Some msg \<Rightarrow> (Inl (SqlError msg), w1)
        | None \<Rightarrow>
            (case stmt (w_db w) of
               Inl e \<Rightarrow> (Inl e, w1)
             | Inr (d, a) \<Rightarrow> (Inr a, w1\<lparr>w_db := d\<rparr>)))"

definition db_Query :: "'r env \<Rightarrow> (db \<Rightarrow> sql_error + 'a) \<Rightarrow> ('r world, sql_error + 'a) state" where
  "db_Query E q = db_Exec E (\<lambda>d. case q d of Inl e \<Rightarrow> Inl e | Inr a \<Rightarrow> Inr (d, a))"

text \<open>
  A serializable transaction: it begins (or fails to), runs its statements, and is committed or
  rolled back as its body decides; a failing commit rolls back too. Rolling back restores the
  database as it was at the beginning.
\<close>

datatype ('e, 'a) tx_end = Commit 'a | Rollback "'e + 'a"

definition db_restore :: "db \<Rightarrow> ('r world, unit) state" where
  "db_restore d = State (\<lambda>w. ((), w\<lparr>w_db := d\<rparr>))"

definition db_get :: "('r world, db) state" where
  "db_get = State (\<lambda>w. (w_db w, w))"

definition db_Transact ::
  "'r env \<Rightarrow> (sql_error \<Rightarrow> 'e) \<Rightarrow> (sql_error \<Rightarrow> 'e) \<Rightarrow> ('r world, ('e, 'a) tx_end) state \<Rightarrow>
   ('r world, 'e + 'a) state" where
  "db_Transact E begin_error commit_error body = do {
     d0 \<leftarrow> db_get;
     b \<leftarrow> db_Exec E (\<lambda>d. Inr (d, ()));
     case b of
       Inl e \<Rightarrow> State_Monad.return (Inl (begin_error e))
     | Inr _ \<Rightarrow> do {
         r \<leftarrow> body;
         case r of
           Rollback x \<Rightarrow> do { db_restore d0; State_Monad.return x }
         | Commit a \<Rightarrow> do {
             c \<leftarrow> db_Exec E (\<lambda>d. Inr (d, ()));
             case c of
               Inl e \<Rightarrow> do { db_restore d0; State_Monad.return (Inl (commit_error e)) }
             | Inr _ \<Rightarrow> State_Monad.return (Inr a)
           }
       }
   }"

text \<open>A Redis call or script: it runs atomically at the instant of the call.\<close>

definition redis_Run ::
  "'r env \<Rightarrow> (go_time \<Rightarrow> 'r \<Rightarrow> (string + 'a) \<times> 'r) \<Rightarrow> ('r world, string + 'a) state" where
  "redis_Run E cmd = State (\<lambda>w.
     let n = w_tick w; w1 = w\<lparr>w_tick := Suc n\<rparr>
     in case e_redis_fault E n of
          RedisOk \<Rightarrow> (case cmd (e_now E n) (w_redis w) of (x, r) \<Rightarrow> (x, w1\<lparr>w_redis := r\<rparr>))
        | RequestLost \<Rightarrow> (Inl ''redis: connection failed'', w1)
        | ReplyLost \<Rightarrow>
            (case cmd (e_now E n) (w_redis w) of
               (x, r) \<Rightarrow> (Inl ''redis: i/o timeout'', w1\<lparr>w_redis := r\<rparr>)))"

text \<open>Handing a message to the SMTP server; \<open>Some e\<close> is an error.\<close>

definition send_Mail :: "'r env \<Rightarrow> EmailMessage \<Rightarrow> ('r world, string option) state" where
  "send_Mail E msg = State (\<lambda>w.
     let n = w_tick w; w1 = w\<lparr>w_tick := Suc n\<rparr>
     in case e_send_mail E n msg of
          Some e \<Rightarrow> (Some e, w1)
        | None \<Rightarrow> (None, w1\<lparr>w_outbox := w_outbox w @ [msg]\<rparr>))"

section \<open>Evaluation and frames\<close>

lemma run_next_tick [simp, run_simps]:
  "run_state next_tick w = (w_tick w, w\<lparr>w_tick := Suc (w_tick w)\<rparr>)"
  by (simp add: next_tick_def)

lemma run_time_Now [simp, run_simps]:
  "run_state (time_Now E) w = (e_now E (w_tick w), w\<lparr>w_tick := Suc (w_tick w)\<rparr>)"
  by (simp add: time_Now_def)

lemma run_rand_Read [simp, run_simps]:
  "run_state (rand_Read E k) w = (e_rand E (w_tick w) k, w\<lparr>w_tick := Suc (w_tick w)\<rparr>)"
  by (simp add: rand_Read_def)

lemma run_uuid [simp, run_simps]:
  "run_state (uuid_NewString E) w = (e_uuid E (w_tick w), w\<lparr>w_tick := Suc (w_tick w)\<rparr>)"
  by (simp add: uuid_NewString_def)

lemma run_rand_Int [simp, run_simps]:
  "run_state (rand_Int E k) w = (e_rand_int E (w_tick w) k, w\<lparr>w_tick := Suc (w_tick w)\<rparr>)"
  by (simp add: rand_Int_def)

lemma run_db_Query:
  "run_state (db_Query E q) w =
     (case e_db_fault E (w_tick w) of Some msg \<Rightarrow> Inl (SqlError msg) | None \<Rightarrow> q (w_db w),
      w\<lparr>w_tick := Suc (w_tick w)\<rparr>)"
  by (cases w) (simp add: db_Query_def db_Exec_def Let_def split: option.splits sum.splits)

lemma run_redis_ok:
  "e_redis_fault E (w_tick w) = RedisOk \<Longrightarrow>
   run_state (redis_Run E cmd) w =
     (fst (cmd (e_now E (w_tick w)) (w_redis w)),
      w\<lparr>w_tick := Suc (w_tick w), w_redis := snd (cmd (e_now E (w_tick w)) (w_redis w))\<rparr>)"
  by (simp add: redis_Run_def Let_def split: prod.splits)

text \<open>Whatever happens to the call, its result is the script's own or an error.\<close>

lemma run_redis_cases:
  assumes "run_state (redis_Run E cmd) w = (x, w')"
  obtains (lost) e where "x = Inl e" and "w' = w\<lparr>w_tick := Suc (w_tick w)\<rparr>"
  | (reply_lost) e where "x = Inl e"
      and "w' = w\<lparr>w_tick := Suc (w_tick w), w_redis := snd (cmd (e_now E (w_tick w)) (w_redis w))\<rparr>"
  | (ran) "x = fst (cmd (e_now E (w_tick w)) (w_redis w))"
      and "w' = w\<lparr>w_tick := Suc (w_tick w), w_redis := snd (cmd (e_now E (w_tick w)) (w_redis w))\<rparr>"
  using assms by (auto simp: redis_Run_def Let_def split: redis_fault.splits prod.splits)

lemma keeps_time_Now [frame]: "(\<And>w n. f (w\<lparr>w_tick := n\<rparr>) = f w) \<Longrightarrow> keeps f (time_Now E)"
  by (simp add: keeps_def)

lemma keeps_rand_Read [frame]: "(\<And>w n. f (w\<lparr>w_tick := n\<rparr>) = f w) \<Longrightarrow> keeps f (rand_Read E k)"
  by (simp add: keeps_def)

lemma keeps_rand_Int [frame]: "(\<And>w n. f (w\<lparr>w_tick := n\<rparr>) = f w) \<Longrightarrow> keeps f (rand_Int E k)"
  by (simp add: keeps_def)

lemma keeps_uuid [frame]: "(\<And>w n. f (w\<lparr>w_tick := n\<rparr>) = f w) \<Longrightarrow> keeps f (uuid_NewString E)"
  by (simp add: keeps_def)

lemma keeps_next_tick [frame]: "(\<And>w n. f (w\<lparr>w_tick := n\<rparr>) = f w) \<Longrightarrow> keeps f next_tick"
  by (simp add: keeps_def)

lemma keeps_db_Query [frame]: "(\<And>w n. f (w\<lparr>w_tick := n\<rparr>) = f w) \<Longrightarrow> keeps f (db_Query E q)"
  by (simp add: keeps_def run_db_Query)

lemma keeps_db_Exec [frame]:
  "(\<And>w n. f (w\<lparr>w_tick := n\<rparr>) = f w) \<Longrightarrow> (\<And>w d. f (w\<lparr>w_db := d\<rparr>) = f w) \<Longrightarrow> keeps f (db_Exec E s)"
  by (auto simp: keeps_def db_Exec_def Let_def split: option.splits sum.splits)

lemma keeps_redis_Run [frame]:
  "(\<And>w n. f (w\<lparr>w_tick := n\<rparr>) = f w) \<Longrightarrow> (\<And>w r. f (w\<lparr>w_redis := r\<rparr>) = f w) \<Longrightarrow>
   keeps f (redis_Run E c)"
  by (auto simp: keeps_def redis_Run_def Let_def split: redis_fault.splits prod.splits)

lemma keeps_send_Mail [frame]:
  "(\<And>w n. f (w\<lparr>w_tick := n\<rparr>) = f w) \<Longrightarrow> (\<And>w m. f (w\<lparr>w_outbox := m\<rparr>) = f w) \<Longrightarrow>
   keeps f (send_Mail E m)"
  by (auto simp: keeps_def send_Mail_def Let_def split: option.splits)

lemma maintains_db_Exec:
  assumes "\<And>d d' a. I d \<Longrightarrow> s d = Inr (d', a) \<Longrightarrow> I d'"
  shows "maintains (\<lambda>w. I (w_db w)) (db_Exec E s)"
  using assms by (auto simp: maintains_def db_Exec_def Let_def split: option.splits sum.splits)

text \<open>
  A transaction that ends in an error leaves the database as it was; one that succeeds leaves it as
  its body did or as it was. Its body only has to preserve an invariant when it commits.
\<close>

lemma db_Transact_atomic:
  assumes "run_state (db_Transact E be ce body) w = (Inl e, w')"
  shows "w_db w' = w_db w"
  using assms
  by (auto simp: db_Transact_def db_Exec_def db_get_def db_restore_def Let_def
      split: option.splits prod.splits tx_end.splits sum.splits)

lemma db_Transact_success:
  assumes "run_state (db_Transact E be ce body) w = (Inr a, w')"
  obtains (committed) w1 where "run_state body (w\<lparr>w_tick := Suc (w_tick w)\<rparr>) = (Commit a, w1)"
      and "w' = w1\<lparr>w_tick := Suc (w_tick w1)\<rparr>"
  | (rolled_back) w1 where "run_state body (w\<lparr>w_tick := Suc (w_tick w)\<rparr>) = (Rollback (Inr a), w1)"
      and "w' = w1\<lparr>w_db := w_db w\<rparr>"
  using assms
  by (auto simp: db_Transact_def db_Exec_def db_get_def db_restore_def Let_def
      split: option.splits prod.splits tx_end.splits sum.splits)

lemma maintains_db_Transact:
  assumes "maintains (\<lambda>w. I (w_db w)) body"
  shows "maintains (\<lambda>w. I (w_db w)) (db_Transact E be ce body)"
proof (rule maintainsI)
  fix w r w' assume I: "I (w_db w)" and r: "run_state (db_Transact E be ce body) w = (r, w')"
  show "I (w_db w')"
  proof (cases r)
    case (Inl e)
    with r I show ?thesis by (simp add: db_Transact_atomic)
  next
    case (Inr a)
    with r have "run_state (db_Transact E be ce body) w = (Inr a, w')" by simp
    then show ?thesis
      by (cases rule: db_Transact_success) (use I assms in \<open>auto dest: maintainsD\<close>)
  qed
qed

lemma keeps_db_get [frame]: "keeps f db_get"
  by (simp add: keeps_def db_get_def)

lemma keeps_db_restore [frame]: "(\<And>w d. f (w\<lparr>w_db := d\<rparr>) = f w) \<Longrightarrow> keeps f (db_restore d)"
  by (simp add: keeps_def db_restore_def)

lemma keeps_case_tx [frame]:
  "(\<And>a. keeps f (g a)) \<Longrightarrow> (\<And>x. keeps f (h x)) \<Longrightarrow> keeps f (case r of Commit a \<Rightarrow> g a | Rollback x \<Rightarrow> h x)"
  by (cases r) auto

lemma keeps_db_Transact [frame]:
  assumes "\<And>w n. f (w\<lparr>w_tick := n\<rparr>) = f w" and "\<And>w d. f (w\<lparr>w_db := d\<rparr>) = f w" and "keeps f body"
  shows "keeps f (db_Transact E be ce body)"
  unfolding db_Transact_def using assms by (intro frame) auto

text \<open>The clock of an environment never runs backwards.\<close>

definition clock_mono :: "'r env \<Rightarrow> bool" where
  "clock_mono E \<longleftrightarrow> mono (e_now E)"

lemma clock_monoD: "clock_mono E \<Longrightarrow> m \<le> n \<Longrightarrow> e_now E m \<le> e_now E n"
  by (simp add: clock_mono_def monoD)

end
