(* ===== verification/Sample_Env.thy ===== *)
theory Sample_Env
  imports World
begin

text \<open>
  One concrete surrounding of the program, in which every hypothesis on external code holds. It is
  what the witnesses run in: the in-memory Redis of \<open>Redis_Api\<close>, a clock that advances one second
  per effect, distinct UUIDs, and a JWT library that writes the claims down instead of signing
  them. Nothing about the program rests on this theory.
\<close>

section \<open>A self-delimiting text form of string lists\<close>

fun wr_string :: "string \<Rightarrow> string" where
  "wr_string [] = '';''"
| "wr_string (c # s) = CHR ''.'' # c # wr_string s"

fun rd_string :: "string \<Rightarrow> (string \<times> string) option" where
  "rd_string (x # r) =
     (if x = CHR '';'' then Some ([], r)
      else case r of [] \<Rightarrow> None
           | c # r' \<Rightarrow> (case rd_string r' of None \<Rightarrow> None | Some (s, q) \<Rightarrow> Some (c # s, q)))"
| "rd_string [] = None"

fun rd_strings :: "nat \<Rightarrow> string \<Rightarrow> string list option" where
  "rd_strings n [] = Some []"
| "rd_strings 0 (c # s) = None"
| "rd_strings (Suc n) (c # s) =
     (case rd_string (c # s) of None \<Rightarrow> None
      | Some (x, r) \<Rightarrow> map_option ((#) x) (rd_strings n r))"

lemma rd_wr_string [simp]: "rd_string (wr_string s @ r) = Some (s, r)"
  by (induction s) simp_all

lemma wr_string_Cons: "\<exists>c r. wr_string s = c # r"
  by (cases s) simp_all

lemma rd_wr_strings: "length xs \<le> n \<Longrightarrow> rd_strings n (concat (map wr_string xs)) = Some xs"
proof (induction xs arbitrary: n)
  case (Cons x xs)
  obtain m where n: "n = Suc m" using Cons.prems by (cases n) auto
  obtain c r where w: "wr_string x = c # r" using wr_string_Cons by blast
  have "rd_string (c # r @ concat (map wr_string xs)) = Some (x, concat (map wr_string xs))"
    using rd_wr_string [of x "concat (map wr_string xs)"] w by simp
  then show ?case using Cons n w by simp
qed simp

definition wr_all :: "string list \<Rightarrow> string" where
  "wr_all xs = concat (map wr_string xs)"

definition rd_all :: "string \<Rightarrow> string list option" where
  "rd_all s = rd_strings (length s) s"

lemma wr_all_length: "length xs \<le> length (wr_all xs)"
proof (induction xs)
  case (Cons x xs)
  then show ?case using wr_string_Cons [of x] by (auto simp: wr_all_def)
qed (simp add: wr_all_def)

lemma rd_wr_all [simp]: "rd_all (wr_all xs) = Some xs"
  using rd_wr_strings [OF wr_all_length] by (simp add: rd_all_def wr_all_def)

section \<open>A JWT library\<close>

definition wr_time :: "go_time option \<Rightarrow> string" where
  "wr_time t =
     (case t of None \<Rightarrow> '''' | Some i \<Rightarrow> (if i < 0 then ''-'' else ''+'') @ dec_digits (nat \<bar>i\<bar>))"

definition rd_time :: "string \<Rightarrow> go_time option" where
  "rd_time s =
     (case s of [] \<Rightarrow> None
      | c # r \<Rightarrow> (case parse_nat r of None \<Rightarrow> None
                 | Some n \<Rightarrow> Some (if c = CHR ''-'' then - int n else int n)))"

lemma rd_wr_time [simp]: "rd_time (wr_time t) = t"
  by (cases t) (auto simp: rd_time_def wr_time_def parse_nat_dec_digits)

definition key_text :: "rsa_public \<Rightarrow> string" where
  "key_text pk = wr_all [dec_digits (rsa_N pk), wr_time (Some (rsa_E pk))]"

lemma key_text_inj: "key_text pk = key_text pk' \<longleftrightarrow> pk = pk'"
proof
  assume "key_text pk = key_text pk'"
  then have "rd_all (key_text pk) = rd_all (key_text pk')" by simp
  then have "dec_digits (rsa_N pk) = dec_digits (rsa_N pk')"
    and "wr_time (Some (rsa_E pk)) = wr_time (Some (rsa_E pk'))"
    by (simp_all add: key_text_def)
  then have "rsa_N pk = rsa_N pk'" and "rsa_E pk = rsa_E pk'"
    by (metis option.inject parse_nat_dec_digits, metis option.inject rd_wr_time)
  then show "pk = pk'" by simp
qed simp

definition claims_text :: "StandardClaims \<Rightarrow> string list" where
  "claims_text c =
     [rc_Issuer c, rc_Subject c, wr_time (rc_ExpiresAt c), wr_time (rc_IssuedAt c),
      wr_time (rc_NotBefore c), cl_UserID c, cl_TokenType c, cl_TokenID c, cl_ServiceAccountID c]
     @ cl_Scopes c"

definition text_claims :: "string list \<Rightarrow> StandardClaims option" where
  "text_claims xs =
     (case xs of
        iss # sub # exp # iat # nbf # uid # typ # jti # sid # scopes \<Rightarrow>
          Some \<lparr>rc_Issuer = iss, rc_Subject = sub, rc_ExpiresAt = rd_time exp, rc_IssuedAt = rd_time iat,
                rc_NotBefore = rd_time nbf, rc_ID = '''', cl_UserID = uid, cl_TokenType = typ,
                cl_TokenID = jti, cl_ServiceAccountID = sid, cl_Scopes = scopes\<rparr>
      | _ \<Rightarrow> None)"

lemma text_claims_claims_text [simp]: "text_claims (claims_text c) = Some (c\<lparr>rc_ID := ''''\<rparr>)"
  by (cases c) (simp add: text_claims_def claims_text_def)

definition sample_jwt :: jwt_lib where
  "sample_jwt =
     \<lparr>jwt_NewNumericDate = (\<lambda>t. t - t mod second),
      jwt_SignedString = (\<lambda>m kid c key.
        case key of None \<Rightarrow> None
        | Some priv \<Rightarrow> Some (wr_all ([m, kid, key_text (rsa_PublicKey priv)] @ claims_text c))),
      jwt_ParseWithClaims = (\<lambda>tok keyf now.
        case rd_all tok of
          Some (m # kid # key # xs) \<Rightarrow>
            (case (keyf (if take 2 m = ''RS'' then SigningMethodRSA m else OtherSigningMethod m),
                   text_claims xs) of
               (Inr (Some pk), Some c) \<Rightarrow>
                 if key_text pk = key \<and>
                    (case rc_ExpiresAt c of None \<Rightarrow> True | Some e \<Rightarrow> now < e) \<and>
                    (case rc_NotBefore c of None \<Rightarrow> True | Some n \<Rightarrow> n \<le> now)
                 then Some (c, True) else None
             | _ \<Rightarrow> None)
        | _ \<Rightarrow> None)\<rparr>"

section \<open>The environment\<close>

definition sample_bytes :: "nat \<Rightarrow> nat \<Rightarrow> bytes" where
  "sample_bytes n k = map (\<lambda>i. char_of (7 * n + 3 * i + 1)) [0..<k]"

definition sample_env :: "mem_redis_state env" where
  "sample_env =
     \<lparr>e_now = (\<lambda>n. 63900000000 * second + int n * second),
      e_rand = (\<lambda>n k. Some (sample_bytes n k)),
      e_rand_int = (\<lambda>n k. Some (7919 * n mod k)),
      e_uuid = (\<lambda>n. ''uuid-'' @ dec_digits n),
      e_db_fault = (\<lambda>_. None),
      e_redis_fault = (\<lambda>_. RedisOk),
      e_redis = mem_redis,
      e_unicode_lower = map lower_char,
      e_unicode_quote = id,
      e_sha256 = (\<lambda>b. b),
      e_argon2 = (\<lambda>pw salt t m p len. if t < 1 \<or> p < 1 then None else Some (take len (pw @ salt @ replicate len CHR ''0''))),
      e_jwt = sample_jwt,
      e_json_state = (\<lambda>p u. wr_all [p, u]),
      e_unjson_state = (\<lambda>s. case rd_all s of Some [p, u] \<Rightarrow> Some (p, u) | _ \<Rightarrow> None),
      e_send_mail = (\<lambda>_ _. None),
      e_auth_code_url = (\<lambda>c s. ''https://github.com/login/oauth/authorize?state='' @ s),
      e_oauth_exchange = (\<lambda>_ _ _. Some ''gho_sample''),
      e_github_user = (\<lambda>_ _. Some \<lparr>gu_ID = 42, gu_Email = ''octo@example.com'', gu_Login = ''octo'', gu_AvatarURL = ''''\<rparr>),
      e_github_emails = (\<lambda>_ _. Some [\<lparr>ge_Email = ''octo@example.com'', ge_Primary = True, ge_Verified = True\<rparr>])\<rparr>"

definition sample_world :: "mem_redis_state world" where
  "sample_world = \<lparr>w_tick = 0, w_db = db_empty, w_redis = (\<lambda>_. None), w_outbox = []\<rparr>"

lemma sample_env_sel [simp]:
  "e_now sample_env n = 63900000000 * second + int n * second"
  "e_rand sample_env n k = Some (sample_bytes n k)"
  "e_uuid sample_env n = ''uuid-'' @ dec_digits n"
  "e_db_fault sample_env n = None" "e_redis_fault sample_env n = RedisOk"
  "e_redis sample_env = mem_redis" "e_jwt sample_env = sample_jwt"
  "e_sha256 sample_env b = b" "e_send_mail sample_env n m = None"
  by (simp_all add: sample_env_def)

lemma sample_world_sel [simp]:
  "w_tick sample_world = 0" "w_db sample_world = db_empty" "w_redis sample_world = (\<lambda>_. None)"
  "w_outbox sample_world = []"
  by (simp_all add: sample_world_def)

lemma sample_redis_laws [simp]: "redis_laws mem_redis"
  by (rule mem_redis_laws)

lemma sample_clock_mono [simp]: "clock_mono sample_env"
  by (simp add: clock_mono_def mono_def)

end
