(* ===== verification/Tokens.thy ===== *)
theory Tokens
  imports Sample_Env
begin

text \<open>
  Token issue and validation of \<^verbatim>\<open>internal/security/tokens.go\<close>. The JWT library is the parameter
  \<open>e_jwt\<close> of the environment; \<open>jwt_ok\<close> states the documented behaviour relied on.
\<close>

datatype token_error = RandError | SignError | ErrTokenParse | ErrTokenInvalidClaims

section \<open>Issue\<close>

definition NewStandardClaims ::
  "'r env \<Rightarrow> string \<Rightarrow> string \<Rightarrow> string \<Rightarrow> go_time \<Rightarrow> ('r world, token_error + StandardClaims) state" where
  "NewStandardClaims E userID tokenType issuer expiresAt = do {
     tokenIDBytes \<leftarrow> rand_Read E 16;
     case tokenIDBytes of
       None \<Rightarrow> State_Monad.return (Inl RandError)
     | Some b \<Rightarrow> do {
         let tokenID = hex_EncodeToString b;
         now \<leftarrow> time_Now E;
         let date = jwt_NewNumericDate (e_jwt E);
         State_Monad.return (Inr
           \<lparr>rc_Issuer = issuer, rc_Subject = userID, rc_ExpiresAt = Some (date expiresAt),
            rc_IssuedAt = Some (date now), rc_NotBefore = Some (date now), rc_ID = tokenID,
            cl_UserID = userID, cl_TokenType = tokenType, cl_TokenID = tokenID,
            cl_ServiceAccountID = '''', cl_Scopes = []\<rparr>)
       }
   }"

definition GenerateToken ::
  "'r env \<Rightarrow> StandardClaims \<Rightarrow> rsa_private option \<Rightarrow> string \<Rightarrow> token_error + string" where
  "GenerateToken E claims privateKey keyID =
     (case jwt_SignedString (e_jwt E) ''RS256'' keyID claims privateKey of
        None \<Rightarrow> Inl SignError
      | Some s \<Rightarrow> Inr s)"

definition NewTokenPair ::
  "'r env \<Rightarrow> string \<Rightarrow> TokenConfig \<Rightarrow> ('r world, token_error + TokenPair) state" where
  "NewTokenPair E userID config = do {
     now \<leftarrow> time_Now E;
     let accessExpiresAt = now + tc_AccessTokenExpiration config;
     let refreshExpiresAt = now + tc_RefreshTokenExpiration config;
     ac \<leftarrow> NewStandardClaims E userID AccessTokenType (tc_Issuer config) accessExpiresAt;
     case ac of Inl e \<Rightarrow> State_Monad.return (Inl e)
     | Inr accessClaims \<Rightarrow>
         (case GenerateToken E accessClaims (tc_PrivateKey config) (tc_KeyID config) of
            Inl e \<Rightarrow> State_Monad.return (Inl e)
          | Inr accessToken \<Rightarrow> do {
              rc \<leftarrow> NewStandardClaims E userID RefreshTokenType (tc_Issuer config) refreshExpiresAt;
              case rc of Inl e \<Rightarrow> State_Monad.return (Inl e)
              | Inr refreshClaims \<Rightarrow>
                  (case GenerateToken E refreshClaims (tc_PrivateKey config) (tc_KeyID config) of
                     Inl e \<Rightarrow> State_Monad.return (Inl e)
                   | Inr refreshToken \<Rightarrow> State_Monad.return (Inr
                       \<lparr>tp_AccessToken = \<lparr>tok_Value = accessToken, tok_ExpiresAt = accessExpiresAt\<rparr>,
                        tp_RefreshToken = \<lparr>tok_Value = refreshToken, tok_ExpiresAt = refreshExpiresAt\<rparr>\<rparr>))
            })
   }"

definition NewServiceToken ::
  "'r env \<Rightarrow> string \<Rightarrow> string list \<Rightarrow> TokenConfig \<Rightarrow> ('r world, token_error + Token) state" where
  "NewServiceToken E serviceAccountID scopes config = do {
     now \<leftarrow> time_Now E;
     let expiresAt = now + tc_ServiceTokenExpiration config;
     c \<leftarrow> NewStandardClaims E serviceAccountID ServiceTokenType (tc_Issuer config) expiresAt;
     case c of Inl e \<Rightarrow> State_Monad.return (Inl e)
     | Inr claims0 \<Rightarrow>
         (let claims = claims0\<lparr>cl_UserID := '''', cl_ServiceAccountID := serviceAccountID, cl_Scopes := scopes\<rparr>
          in case GenerateToken E claims (tc_PrivateKey config) (tc_KeyID config) of
               Inl e \<Rightarrow> State_Monad.return (Inl e)
             | Inr value \<Rightarrow> State_Monad.return (Inr \<lparr>tok_Value = value, tok_ExpiresAt = expiresAt\<rparr>))
   }"

section \<open>Validation\<close>

text \<open>The key function handed to the parser: only the RSA family is accepted.\<close>

definition rsa_keyfunc :: "rsa_public option \<Rightarrow> jwt_method \<Rightarrow> string + rsa_public option" where
  "rsa_keyfunc publicKey m =
     (case m of SigningMethodRSA alg \<Rightarrow> Inr publicKey
      | OtherSigningMethod alg \<Rightarrow> Inl (''unexpected signing method: '' @ alg))"

definition ValidateToken ::
  "'r env \<Rightarrow> string \<Rightarrow> rsa_public option \<Rightarrow> ('r world, token_error + StandardClaims) state" where
  "ValidateToken E tokenString publicKey = do {
     now \<leftarrow> time_Now E;
     State_Monad.return
       (case jwt_ParseWithClaims (e_jwt E) tokenString (rsa_keyfunc publicKey) now of
          None \<Rightarrow> Inl ErrTokenParse
        | Some (claims, valid) \<Rightarrow> if valid then Inr claims else Inl ErrTokenInvalidClaims)
   }"

definition ValidateAccessToken ::
  "'r env \<Rightarrow> string \<Rightarrow> rsa_public option \<Rightarrow> ('r world, token_error + StandardClaims) state" where
  "ValidateAccessToken E tokenString publicKey = do {
     r \<leftarrow> ValidateToken E tokenString publicKey;
     State_Monad.return
       (case r of Inl e \<Rightarrow> Inl e
        | Inr claims \<Rightarrow> if cl_TokenType claims \<noteq> AccessTokenType then Inl ErrTokenInvalidClaims else Inr claims)
   }"

definition ValidateRefreshToken ::
  "'r env \<Rightarrow> string \<Rightarrow> rsa_public option \<Rightarrow> ('r world, token_error + StandardClaims) state" where
  "ValidateRefreshToken E tokenString publicKey = do {
     r \<leftarrow> ValidateToken E tokenString publicKey;
     State_Monad.return
       (case r of Inl e \<Rightarrow> Inl e
        | Inr claims \<Rightarrow> if cl_TokenType claims \<noteq> RefreshTokenType then Inl ErrTokenInvalidClaims else Inr claims)
   }"

definition ValidateServiceToken ::
  "'r env \<Rightarrow> string \<Rightarrow> rsa_public option \<Rightarrow> ('r world, token_error + StandardClaims) state" where
  "ValidateServiceToken E tokenString publicKey = do {
     r \<leftarrow> ValidateToken E tokenString publicKey;
     State_Monad.return
       (case r of Inl e \<Rightarrow> Inl e
        | Inr claims \<Rightarrow>
            if cl_TokenType claims \<noteq> ServiceTokenType \<or> cl_ServiceAccountID claims = ''''
            then Inl ErrTokenInvalidClaims else Inr claims)
   }"

definition RefreshTokenPair ::
  "'r env \<Rightarrow> string \<Rightarrow> TokenConfig \<Rightarrow> ('r world, token_error + TokenPair) state" where
  "RefreshTokenPair E refreshTokenString config = do {
     r \<leftarrow> ValidateRefreshToken E refreshTokenString (tc_PublicKey config);
     case r of Inl e \<Rightarrow> State_Monad.return (Inl e)
     | Inr claims \<Rightarrow> NewTokenPair E (cl_UserID claims) config
   }"

section \<open>What is relied on of the JWT library\<close>

text \<open>
  Numeric dates are whole seconds. A token signed with RS256 parses, under the key function's
  public key, exactly when that key belongs to the signing key and the current time lies from
  \<^verbatim>\<open>nbf\<close> until before \<^verbatim>\<open>exp\<close>; it then carries the claims it was signed with. The claim
  \<^verbatim>\<open>jti\<close> is the outer \<^verbatim>\<open>TokenID\<close> field, which shadows the embedded \<^verbatim>\<open>ID\<close> in the JSON
  text, so that the embedded one comes back empty. A token is only ever valid under a key that the
  key function returned for the token's method.
\<close>

definition jwt_dates :: "jwt_lib \<Rightarrow> bool" where
  "jwt_dates J \<longleftrightarrow> (\<forall>t. jwt_NewNumericDate J t = t - t mod second)"

definition jwt_verifies :: "jwt_lib \<Rightarrow> bool" where
  "jwt_verifies J \<longleftrightarrow>
     (\<forall>kid c priv tok keyf now pk expiry nbf.
        jwt_SignedString J ''RS256'' kid c (Some priv) = Some tok \<longrightarrow>
        rc_ExpiresAt c = Some expiry \<longrightarrow> rc_NotBefore c = Some nbf \<longrightarrow>
        keyf (SigningMethodRSA ''RS256'') = Inr (Some pk) \<longrightarrow>
        jwt_ParseWithClaims J tok keyf now =
          (if pk = rsa_PublicKey priv \<and> nbf \<le> now \<and> now < expiry then Some (c\<lparr>rc_ID := ''''\<rparr>, True)
           else None))"

definition jwt_keyed :: "jwt_lib \<Rightarrow> bool" where
  "jwt_keyed J \<longleftrightarrow>
     (\<forall>tok keyf now c. jwt_ParseWithClaims J tok keyf now = Some (c, True) \<longrightarrow>
        (\<exists>m pk. keyf m = Inr (Some pk)))"

definition jwt_ok :: "jwt_lib \<Rightarrow> bool" where
  "jwt_ok J \<longleftrightarrow> jwt_dates J \<and> jwt_verifies J \<and> jwt_keyed J"

text \<open>Signing with a private key needs one, and succeeds with it.\<close>

definition jwt_signs :: "jwt_lib \<Rightarrow> rsa_private \<Rightarrow> bool" where
  "jwt_signs J priv \<longleftrightarrow> (\<forall>kid c. jwt_SignedString J ''RS256'' kid c (Some priv) \<noteq> None)"

lemma sample_jwt_ok [simp]: "jwt_ok sample_jwt"
proof -
  have "jwt_verifies sample_jwt"
    by (simp add: jwt_verifies_def sample_jwt_def key_text_inj)
  moreover have "jwt_keyed sample_jwt"
    unfolding jwt_keyed_def sample_jwt_def
    by (force split: option.split_asm list.split_asm sum.split_asm)
  ultimately show ?thesis by (simp add: jwt_ok_def jwt_dates_def sample_jwt_def)
qed

lemma sample_jwt_signs [simp]: "jwt_signs sample_jwt priv"
  by (simp add: jwt_signs_def sample_jwt_def)

section \<open>Round trip\<close>

definition whole_second :: "go_time \<Rightarrow> go_time" where
  "whole_second t = t - t mod second"

lemma whole_second_le: "whole_second t \<le> t"
  by (simp add: whole_second_def)

definition rand_up :: "'r env \<Rightarrow> bool" where
  "rand_up E \<longleftrightarrow> (\<forall>n k. e_rand E n k \<noteq> None)"

lemma sample_rand_up [simp]: "rand_up sample_env"
  by (simp add: rand_up_def)

text \<open>The claims a call of \<^verbatim>\<open>NewStandardClaims\<close> builds when the token id bytes are \<open>b\<close>.\<close>

definition fresh_claims :: "string \<Rightarrow> string \<Rightarrow> string \<Rightarrow> go_time \<Rightarrow> go_time \<Rightarrow> bytes \<Rightarrow> StandardClaims" where
  "fresh_claims userID tokenType issuer expiresAt now b =
     \<lparr>rc_Issuer = issuer, rc_Subject = userID, rc_ExpiresAt = Some (whole_second expiresAt),
      rc_IssuedAt = Some (whole_second now), rc_NotBefore = Some (whole_second now),
      rc_ID = hex_EncodeToString b, cl_UserID = userID, cl_TokenType = tokenType,
      cl_TokenID = hex_EncodeToString b, cl_ServiceAccountID = '''', cl_Scopes = []\<rparr>"

lemma fresh_claims_sel [simp]:
  "rc_ExpiresAt (fresh_claims u ty i x n b) = Some (whole_second x)"
  "rc_NotBefore (fresh_claims u ty i x n b) = Some (whole_second n)"
  "cl_UserID (fresh_claims u ty i x n b) = u" "cl_TokenType (fresh_claims u ty i x n b) = ty"
  "cl_TokenID (fresh_claims u ty i x n b) = hex_EncodeToString b"
  "cl_ServiceAccountID (fresh_claims u ty i x n b) = ''''" "cl_Scopes (fresh_claims u ty i x n b) = []"
  by (simp_all add: fresh_claims_def)

lemma run_NewStandardClaims:
  assumes "jwt_ok (e_jwt E)"
  shows "run_state (NewStandardClaims E u ty iss expiry) w =
     (case e_rand E (w_tick w) 16 of
        None \<Rightarrow> (Inl RandError, w\<lparr>w_tick := Suc (w_tick w)\<rparr>)
      | Some b \<Rightarrow> (Inr (fresh_claims u ty iss expiry (e_now E (Suc (w_tick w))) b),
                   w\<lparr>w_tick := Suc (Suc (w_tick w))\<rparr>))"
  using assms
  by (simp add: NewStandardClaims_def fresh_claims_def jwt_ok_def jwt_dates_def whole_second_def Let_def
      split: option.splits)

text \<open>How a token signed by this service is judged at a later instant.\<close>

lemma run_ValidateToken_signed:
  assumes "jwt_ok (e_jwt E)"
    and "jwt_SignedString (e_jwt E) ''RS256'' kid c (Some priv) = Some tok"
    and "rc_ExpiresAt c = Some expiry" and "rc_NotBefore c = Some nbf"
  shows "run_state (ValidateToken E tok (Some pk)) v =
     (if pk = rsa_PublicKey priv \<and> nbf \<le> e_now E (w_tick v) \<and> e_now E (w_tick v) < expiry
      then Inr (c\<lparr>rc_ID := ''''\<rparr>) else Inl ErrTokenParse,
      v\<lparr>w_tick := Suc (w_tick v)\<rparr>)"
proof -
  have "jwt_ParseWithClaims (e_jwt E) tok (rsa_keyfunc (Some pk)) (e_now E (w_tick v)) =
      (if pk = rsa_PublicKey priv \<and> nbf \<le> e_now E (w_tick v) \<and> e_now E (w_tick v) < expiry
       then Some (c\<lparr>rc_ID := ''''\<rparr>, True) else None)"
    using assms unfolding jwt_ok_def jwt_verifies_def by (simp add: rsa_keyfunc_def)
  then show ?thesis by (simp add: ValidateToken_def)
qed

lemmas validate_defs = ValidateAccessToken_def ValidateRefreshToken_def ValidateServiceToken_def

text \<open>Only a token whose claims name the expected type is let through.\<close>

lemma Validate_type:
  "fst (run_state (ValidateAccessToken E tok pk) v) = Inr c \<Longrightarrow> cl_TokenType c = AccessTokenType"
  "fst (run_state (ValidateRefreshToken E tok pk) v) = Inr c \<Longrightarrow> cl_TokenType c = RefreshTokenType"
  "fst (run_state (ValidateServiceToken E tok pk) v) = Inr c \<Longrightarrow>
     cl_TokenType c = ServiceTokenType \<and> cl_ServiceAccountID c \<noteq> ''''"
  by (auto simp: validate_defs split: prod.splits sum.splits if_splits)


text \<open>
  (C6) Issue and validation agree. With a key that can sign, a pair is always issued, and at any
  later moment its access token is accepted as an access token of that user exactly until its
  expiry (in whole seconds), its refresh token likewise as a refresh token, and neither is ever
  accepted in the other's place or as a service token.
\<close>

theorem token_pair_round_trip:
  assumes "jwt_ok (e_jwt E)" and "jwt_signs (e_jwt E) priv" and "clock_mono E" and "rand_up E"
    and "tc_PrivateKey cfg = Some priv"
  shows "\<exists>p w' ac rc.
     run_state (NewTokenPair E uid cfg) w = (Inr p, w') \<and>
     cl_UserID ac = uid \<and> cl_UserID rc = uid \<and>
     tok_ExpiresAt (tp_AccessToken p) = e_now E (w_tick w) + tc_AccessTokenExpiration cfg \<and>
     tok_ExpiresAt (tp_RefreshToken p) = e_now E (w_tick w) + tc_RefreshTokenExpiration cfg \<and>
     (\<forall>v. w_tick w' \<le> w_tick v \<longrightarrow>
        fst (run_state (ValidateAccessToken E (tok_Value (tp_AccessToken p)) (Some (rsa_PublicKey priv))) v) =
          (if e_now E (w_tick v) < whole_second (tok_ExpiresAt (tp_AccessToken p)) then Inr ac else Inl ErrTokenParse) \<and>
        fst (run_state (ValidateRefreshToken E (tok_Value (tp_RefreshToken p)) (Some (rsa_PublicKey priv))) v) =
          (if e_now E (w_tick v) < whole_second (tok_ExpiresAt (tp_RefreshToken p)) then Inr rc else Inl ErrTokenParse) \<and>
        (\<forall>c. fst (run_state (ValidateRefreshToken E (tok_Value (tp_AccessToken p)) (Some (rsa_PublicKey priv))) v) \<noteq> Inr c) \<and>
        (\<forall>c. fst (run_state (ValidateAccessToken E (tok_Value (tp_RefreshToken p)) (Some (rsa_PublicKey priv))) v) \<noteq> Inr c) \<and>
        (\<forall>c. fst (run_state (ValidateServiceToken E (tok_Value (tp_AccessToken p)) (Some (rsa_PublicKey priv))) v) \<noteq> Inr c) \<and>
        (\<forall>c. fst (run_state (ValidateServiceToken E (tok_Value (tp_RefreshToken p)) (Some (rsa_PublicKey priv))) v) \<noteq> Inr c))"
proof -
  let ?n = "w_tick w"
  obtain b1 b2 where b: "e_rand E (Suc ?n) 16 = Some b1" "e_rand E (Suc (Suc (Suc ?n))) 16 = Some b2"
    using assms(4) unfolding rand_up_def by blast
  define ac where "ac = fresh_claims uid AccessTokenType (tc_Issuer cfg) (e_now E ?n + tc_AccessTokenExpiration cfg)
    (e_now E (Suc (Suc ?n))) b1"
  define rc where "rc = fresh_claims uid RefreshTokenType (tc_Issuer cfg) (e_now E ?n + tc_RefreshTokenExpiration cfg)
    (e_now E (Suc (Suc (Suc (Suc ?n))))) b2"
  obtain ta tr where t: "jwt_SignedString (e_jwt E) ''RS256'' (tc_KeyID cfg) ac (Some priv) = Some ta"
      "jwt_SignedString (e_jwt E) ''RS256'' (tc_KeyID cfg) rc (Some priv) = Some tr"
    using assms(2) unfolding jwt_signs_def by blast
  let ?p = "\<lparr>tp_AccessToken = \<lparr>tok_Value = ta, tok_ExpiresAt = e_now E ?n + tc_AccessTokenExpiration cfg\<rparr>,
     tp_RefreshToken = \<lparr>tok_Value = tr, tok_ExpiresAt = e_now E ?n + tc_RefreshTokenExpiration cfg\<rparr>\<rparr>"
  let ?w = "w\<lparr>w_tick := Suc (Suc (Suc (Suc (Suc ?n))))\<rparr>"
  have run: "run_state (NewTokenPair E uid cfg) w = (Inr ?p, ?w)"
    using b t assms(5)
    by (simp add: NewTokenPair_def run_NewStandardClaims [OF assms(1)] GenerateToken_def ac_def rc_def)
  have nbf: "whole_second (e_now E m) \<le> e_now E (w_tick v)" if "w_tick ?w \<le> w_tick v" "m \<le> w_tick ?w" for v m
    using whole_second_le [of "e_now E m"] clock_monoD [OF assms(3), of m "w_tick v"] that by simp
  have va: "fst (run_state (ValidateToken E ta (Some (rsa_PublicKey priv))) v) =
      (if e_now E (w_tick v) < whole_second (e_now E ?n + tc_AccessTokenExpiration cfg)
       then Inr (ac\<lparr>rc_ID := ''''\<rparr>) else Inl ErrTokenParse)" if "w_tick ?w \<le> w_tick v" for v
    using nbf [OF that, of "Suc (Suc ?n)"] by (simp add: run_ValidateToken_signed [OF assms(1) t(1)] ac_def)
  have vr: "fst (run_state (ValidateToken E tr (Some (rsa_PublicKey priv))) v) =
      (if e_now E (w_tick v) < whole_second (e_now E ?n + tc_RefreshTokenExpiration cfg)
       then Inr (rc\<lparr>rc_ID := ''''\<rparr>) else Inl ErrTokenParse)" if "w_tick ?w \<le> w_tick v" for v
    using nbf [OF that, of "Suc (Suc (Suc (Suc ?n)))"]
    by (simp add: run_ValidateToken_signed [OF assms(1) t(2)] rc_def)
  show ?thesis
  proof (intro exI conjI)
    show "run_state (NewTokenPair E uid cfg) w = (Inr ?p, ?w)" by (rule run)
    show "cl_UserID (ac\<lparr>rc_ID := ''''\<rparr>) = uid" "cl_UserID (rc\<lparr>rc_ID := ''''\<rparr>) = uid"
      by (simp_all add: ac_def rc_def)
  qed (use va vr in \<open>auto simp: validate_defs ac_def rc_def case_prod_beta\<close>)
qed

definition sample_key :: rsa_private where
  "sample_key = \<lparr>rsa_PublicKey = \<lparr>rsa_N = 3233, rsa_E = 17\<rparr>, rsa_D = 413\<rparr>"

definition sample_cfg :: TokenConfig where
  "sample_cfg =
     \<lparr>tc_PrivateKey = Some sample_key, tc_PublicKey = Some (rsa_PublicKey sample_key), tc_KeyID = ''kid'',
      tc_Issuer = ''identra'', tc_AccessTokenExpiration = 15 * minute,
      tc_RefreshTokenExpiration = 168 * hour, tc_ServiceTokenExpiration = 15 * minute\<rparr>"

theorem token_pair_round_trip_witness:
  "\<exists>p w'. run_state (NewTokenPair sample_env ''u1'' sample_cfg) sample_world = (Inr p, w') \<and>
     tok_ExpiresAt (tp_AccessToken p) = 63900000900 * second"
  using token_pair_round_trip [of sample_env sample_key sample_cfg "''u1''" sample_world]
  by (auto simp: sample_cfg_def)

end
