(* ===== verification/Password.thy ===== *)
theory Password
  imports Sample_Env
begin

text \<open>
  Password hashing of \<^verbatim>\<open>internal/security/password.go\<close>. Argon2id itself is the parameter
  \<open>e_argon2\<close> of the environment (\<open>None\<close> is its panic on zero rounds or threads); the text format
  of a stored hash is written and parsed as in the code, with the parts of \<^verbatim>\<open>fmt.Sscanf\<close> that
  the two formats use.
\<close>

section \<open>Scanning\<close>

text \<open>
  \<^verbatim>\<open>%d\<close> skips white space first, where a newline is an error; then it takes the longest run of
  digits, after a sign when the operand is signed, and fails on no digits or on a number that does
  not fit the operand. Text after the last item of the format is ignored.
\<close>

definition scan_space :: "string \<Rightarrow> string option" where
  "scan_space s =
     (let r = strip_tokens space_runes s
      in if CHR 0x0A \<in> set (take (length s - length r) s) then None else Some r)"

definition scan_literal :: "string \<Rightarrow> string \<Rightarrow> string option" where
  "scan_literal lit s = (if prefix lit s then Some (drop (length lit) s) else None)"

definition scan_digits :: "string \<Rightarrow> (nat \<times> string) option" where
  "scan_digits s =
     (let ds = takeWhile (\<lambda>c. digit_val c \<noteq> None) s
      in map_option (\<lambda>n. (n, drop (length ds) s)) (parse_nat ds))"

definition scan_int :: "string \<Rightarrow> (int \<times> string) option" where
  "scan_int s =
     (case scan_space s of None \<Rightarrow> None
      | Some r \<Rightarrow>
          (case parse_sign r of (sg, ds) \<Rightarrow>
             (case scan_digits ds of None \<Rightarrow> None
              | Some (n, q) \<Rightarrow> if int64_range (sg * int n) then Some (sg * int n, q) else None)))"

definition scan_uint :: "nat \<Rightarrow> string \<Rightarrow> (nat \<times> string) option" where
  "scan_uint bits s =
     (case scan_space s of None \<Rightarrow> None
      | Some r \<Rightarrow>
          (case scan_digits r of None \<Rightarrow> None
           | Some (n, q) \<Rightarrow> if n < 2 ^ bits then Some (n, q) else None))"

definition Sscanf_version :: "string \<Rightarrow> int option" where
  "Sscanf_version s = do { r \<leftarrow> scan_literal ''v='' s; (v, _) \<leftarrow> scan_int r; Some v }"

definition Sscanf_params :: "string \<Rightarrow> (nat \<times> nat \<times> nat) option" where
  "Sscanf_params s = do {
     r1 \<leftarrow> scan_literal ''m='' s; (m, r2) \<leftarrow> scan_uint 32 r1;
     r3 \<leftarrow> scan_literal '',t='' r2; (t, r4) \<leftarrow> scan_uint 32 r3;
     r5 \<leftarrow> scan_literal '',p='' r4; (p, _) \<leftarrow> scan_uint 8 r5;
     Some (m, t, p) }"

section \<open>Hashing and verification\<close>

record Config =
  pc_time :: nat
  pc_memory :: nat
  pc_threads :: nat
  pc_keyLen :: nat

definition defaultConfig :: Config where
  "defaultConfig = \<lparr>pc_time = 1, pc_memory = 64 * 1024, pc_threads = 4, pc_keyLen = 32\<rparr>"

datatype pw_error = PwError string | PwPanic

definition encode_hash :: "Config \<Rightarrow> bytes \<Rightarrow> bytes \<Rightarrow> string" where
  "encode_hash config salt hash =
     ''$argon2id$v='' @ Itoa 19 @ ''$m='' @ Itoa (int (pc_memory config)) @ '',t='' @
     Itoa (int (pc_time config)) @ '',p='' @ Itoa (int (pc_threads config)) @ ''$'' @
     b64_encode b64_std salt @ ''$'' @ b64_encode b64_std hash"

definition HashPassword :: "'r env \<Rightarrow> string \<Rightarrow> ('r world, pw_error + string) state" where
  "HashPassword E password = do {
     let config = defaultConfig;
     rnd \<leftarrow> rand_Read E 16;
     State_Monad.return
       (case rnd of None \<Rightarrow> Inl (PwError ''rand'')
        | Some salt \<Rightarrow>
            (case e_argon2 E password salt (pc_time config) (pc_memory config) (pc_threads config)
                    (pc_keyLen config) of
               None \<Rightarrow> Inl PwPanic
             | Some hash \<Rightarrow> Inr (encode_hash config salt hash)))
   }"

definition VerifyPassword :: "'r env \<Rightarrow> string \<Rightarrow> string \<Rightarrow> pw_error + bool" where
  "VerifyPassword E password hash =
     (let parts = Split hash (CHR ''$'')
      in if length parts \<noteq> 6 then Inl (PwError ''invalid hash format'')
         else if parts ! 1 \<noteq> ''argon2id'' then Inl (PwError ''unsupported hash algorithm'')
         else case Sscanf_version (parts ! 2) of
                None \<Rightarrow> Inl (PwError ''scan version'')
              | Some version \<Rightarrow>
                  (case Sscanf_params (parts ! 3) of
                     None \<Rightarrow> Inl (PwError ''scan parameters'')
                   | Some (memory, time, threads) \<Rightarrow>
                       (case b64_decode b64_std (parts ! 4) of
                          None \<Rightarrow> Inl (PwError ''salt'')
                        | Some salt \<Rightarrow>
                            (case b64_decode b64_std (parts ! 5) of
                               None \<Rightarrow> Inl (PwError ''hash'')
                             | Some expectedHash \<Rightarrow>
                                 (case e_argon2 E password salt time memory threads (length expectedHash) of
                                    None \<Rightarrow> Inl PwPanic
                                  | Some actualHash \<Rightarrow> Inr (actualHash = expectedHash))))))"

section \<open>Verification accepts exactly what was hashed\<close>

text \<open>The head of every hash the program writes, and how it is read back.\<close>

lemma encode_hash_default:
  "encode_hash defaultConfig salt hash =
     ''$argon2id$v=19$m=65536,t=1,p=4$'' @ b64_encode b64_std salt @ CHR ''$'' # b64_encode b64_std hash"
proof -
  have "Itoa 19 = ''19''" "Itoa 65536 = ''65536''" "Itoa 1 = ''1''" "Itoa 4 = ''4''"
    by (simp_all add: Itoa_def dec_digits.simps digit_char_def char_of_def bit_Suc_0_iff)
  then show ?thesis by (simp add: encode_hash_def defaultConfig_def)
qed

lemma scan_defaults:
  "Sscanf_version ''v=19'' = Some 19" "Sscanf_params ''m=65536,t=1,p=4'' = Some (65536, 1, 4)"
  by (simp_all add: Sscanf_version_def Sscanf_params_def scan_literal_def scan_int_def scan_uint_def
      scan_space_def scan_digits_def parse_sign_def parse_nat_def digit_val_def int64_range_def
      strip_tokens_id lead_token_def space_runes_def Let_def)

lemma Split_encode_hash:
  "Split (encode_hash defaultConfig salt hash) (CHR ''$'') =
     ['''', ''argon2id'', ''v=19'', ''m=65536,t=1,p=4'', b64_encode b64_std salt, b64_encode b64_std hash]"
proof -
  have b64: "CHR ''$'' \<notin> set (b64_encode b64_std xs)" for xs
    using b64_encode_chars [of b64_std "CHR ''$''" xs] by (auto simp: b64_std_def)
  have "Split (encode_hash defaultConfig salt hash) (CHR ''$'') =
      ['''', ''argon2id'', ''v=19'', ''m=65536,t=1,p=4''] @
      Split (b64_encode b64_std salt @ CHR ''$'' # b64_encode b64_std hash) (CHR ''$'')"
    by (simp add: encode_hash_default Split_def)
  then show ?thesis by (simp add: Split_Cons Split_single b64)
qed

text \<open>Relied on of Argon2id: the digest has the length asked for.\<close>

definition argon2_len :: "'r env \<Rightarrow> bool" where
  "argon2_len E \<longleftrightarrow> (\<forall>pw salt t m p len d. e_argon2 E pw salt t m p len = Some d \<longrightarrow> length d = len)"

lemma VerifyPassword_encoded:
  assumes "argon2_len E" and "e_argon2 E pw salt 1 65536 4 32 = Some digest"
  shows "VerifyPassword E other (encode_hash defaultConfig salt digest) =
    (case e_argon2 E other salt 1 65536 4 32 of None \<Rightarrow> Inl PwPanic | Some d \<Rightarrow> Inr (d = digest))"
proof -
  have "length digest = 32" using assms unfolding argon2_len_def by blast
  then show ?thesis
    by (simp add: VerifyPassword_def Split_encode_hash scan_defaults b64_decode_encode [OF b64_std_alphabet])
qed

text \<open>
  (C12) A stored password hash is read back as it was written: verifying any password against a
  fresh hash recomputes Argon2id with the very salt, cost parameters and key length the hash was
  made with, and answers whether the digests agree. In particular the password that was hashed is
  accepted, and no hash written by this code is rejected as malformed.
\<close>

theorem VerifyPassword_HashPassword:
  assumes "fst (run_state (HashPassword E password) w) = Inr h"
    and "argon2_len E"
  shows "\<exists>salt digest.
           e_argon2 E password salt 1 65536 4 32 = Some digest \<and>
           VerifyPassword E password h = Inr True \<and>
           (\<forall>other d. e_argon2 E other salt 1 65536 4 32 = Some d \<longrightarrow>
              VerifyPassword E other h = Inr (d = digest))"
proof -
  obtain salt digest where d: "e_argon2 E password salt 1 65536 4 32 = Some digest"
    and h: "h = encode_hash defaultConfig salt digest"
    using assms(1) by (auto simp: HashPassword_def defaultConfig_def split: option.splits)
  have "VerifyPassword E other h = Inr (x = digest)" if "e_argon2 E other salt 1 65536 4 32 = Some x" for other x
    using VerifyPassword_encoded [OF assms(2) d, of other] that h by simp
  with d show ?thesis by (intro exI [of _ salt] exI [of _ digest]) simp
qed

theorem VerifyPassword_HashPassword_witness:
  "\<exists>h. fst (run_state (HashPassword sample_env ''hunter2'') sample_world) = Inr h \<and>
       VerifyPassword sample_env ''hunter2'' h = Inr True"
proof -
  have len: "argon2_len sample_env"
    by (auto simp: argon2_len_def sample_env_def split: if_splits)
  obtain h where h: "fst (run_state (HashPassword sample_env ''hunter2'') sample_world) = Inr h"
    by (simp add: HashPassword_def defaultConfig_def sample_env_def)
  have "VerifyPassword sample_env ''hunter2'' h = Inr True"
    using VerifyPassword_HashPassword [OF h] len by blast
  with h show ?thesis by blast
qed

end
