(* ===== verification/Cache_Stores.thy ===== *)
theory Cache_Stores
  imports Sample_Env
begin

text \<open>
  The Redis-backed stores of \<^verbatim>\<open>internal/cache\<close>: one-time email codes, the attempt counters of
  the rate limiter, and the revoked refresh tokens. The embedded Lua scripts are functions on the
  server's state at one instant; the Go methods run them through \<open>redis_Run\<close>, which may fail.
  The interface of the limiter is the locale \<open>attempt_limiter\<close>, interpreted on the scripts.
\<close>

section \<open>Email codes (redis_email_code_store.go)\<close>

record redisEmailCodeStore =
  ecs_ttl :: go_duration
  ecs_prefix :: string

definition NewRedisEmailCodeStore :: "go_duration \<Rightarrow> bool \<Rightarrow> string + redisEmailCodeStore" where
  "NewRedisEmailCodeStore ttl have_rdb =
     (if \<not> have_rdb then Inl ''redis client is required for email code store''
      else Inr \<lparr>ecs_ttl = (if ttl \<le> 0 then 10 * minute else ttl), ecs_prefix = ''identra:email_code:''\<rparr>)"

definition ecs_key :: "redisEmailCodeStore \<Rightarrow> string \<Rightarrow> string" where
  "ecs_key s email = ecs_prefix s @ email"

definition EmailCodeStore_Set ::
  "'r env \<Rightarrow> redisEmailCodeStore \<Rightarrow> string \<Rightarrow> string \<Rightarrow> ('r world, string + unit) state" where
  "EmailCodeStore_Set E s email code =
     redis_Run E (\<lambda>t r. (Inr (), rd_set (e_redis E) t (ecs_key s email) code (ecs_ttl s) r))"

definition consumeEmailCodeScript ::
  "'r redis_ops \<Rightarrow> string \<Rightarrow> string \<Rightarrow> go_time \<Rightarrow> 'r \<Rightarrow> (string + int) \<times> 'r" where
  "consumeEmailCodeScript R key code t r =
     (case rd_get R t key r of
        None \<Rightarrow> (Inr 0, r)
      | Some v \<Rightarrow> if v \<noteq> code then (Inr (-1), r) else (Inr 1, rd_del R t key r))"

definition EmailCodeStore_Consume ::
  "'r env \<Rightarrow> redisEmailCodeStore \<Rightarrow> string \<Rightarrow> string \<Rightarrow> ('r world, string + bool) state" where
  "EmailCodeStore_Consume E s email code = do {
     res \<leftarrow> redis_Run E (consumeEmailCodeScript (e_redis E) (ecs_key s email) code);
     State_Monad.return (case res of Inl e \<Rightarrow> Inl e | Inr n \<Rightarrow> Inr (n = 1))
   }"

section \<open>Rate limiter (redis_rate_limiter.go)\<close>

record redisRateLimiter =
  rl_prefix :: string
  rl_maxAttempts :: int
  rl_window :: go_duration

definition NewRedisRateLimiter ::
  "bool \<Rightarrow> string \<Rightarrow> int \<Rightarrow> go_duration \<Rightarrow> string + redisRateLimiter" where
  "NewRedisRateLimiter have_rdb pre maxAttempts window =
     (if \<not> have_rdb then Inl ''redis client is required for rate limiter''
      else if maxAttempts \<le> 0 then Inl ''maxAttempts must be positive''
      else if window \<le> 0 then Inl ''window must be positive''
      else Inr \<lparr>rl_prefix = pre, rl_maxAttempts = maxAttempts, rl_window = window\<rparr>)"

definition fullKey :: "redisRateLimiter \<Rightarrow> string \<Rightarrow> string" where
  "fullKey rl key = rl_prefix rl @ key"

text \<open>\<^verbatim>\<open>tonumber\<close> of a counter value: the counters are written by INCR only.\<close>

definition isAllowedScript ::
  "'r redis_ops \<Rightarrow> string \<Rightarrow> int \<Rightarrow> go_time \<Rightarrow> 'r \<Rightarrow> (string + int) \<times> 'r" where
  "isAllowedScript R key maxAttempts t r =
     (case rd_get R t key r of
        None \<Rightarrow> (Inr 1, r)
      | Some v \<Rightarrow>
          (case Atoi v of
             None \<Rightarrow> (Inl ''ERR attempt to compare nil with number'', r)
           | Some n \<Rightarrow> if n < maxAttempts then (Inr 1, r) else (Inr 0, r)))"

definition IsAllowed ::
  "'r env \<Rightarrow> redisRateLimiter \<Rightarrow> string \<Rightarrow> ('r world, string + bool) state" where
  "IsAllowed E rl key = do {
     res \<leftarrow> redis_Run E (isAllowedScript (e_redis E) (fullKey rl key) (rl_maxAttempts rl));
     State_Monad.return (case res of Inl e \<Rightarrow> Inl e | Inr n \<Rightarrow> Inr (n = 1))
   }"

definition recordScript ::
  "'r redis_ops \<Rightarrow> string \<Rightarrow> int \<Rightarrow> go_time \<Rightarrow> 'r \<Rightarrow> (string + int) \<times> 'r" where
  "recordScript R key window_seconds t r =
     (case rd_incr R t key r of
        (Inl e, r') \<Rightarrow> (Inl e, r')
      | (Inr n, r') \<Rightarrow> (Inr n, if n = 1 then rd_expire R t key window_seconds r' else r'))"

definition Record ::
  "'r env \<Rightarrow> redisRateLimiter \<Rightarrow> string \<Rightarrow> ('r world, string + unit) state" where
  "Record E rl key = do {
     res \<leftarrow> redis_Run E (recordScript (e_redis E) (fullKey rl key) (rl_window rl div second));
     State_Monad.return (case res of Inl e \<Rightarrow> Inl e | Inr n \<Rightarrow> Inr ())
   }"

definition Reset ::
  "'r env \<Rightarrow> redisRateLimiter \<Rightarrow> string \<Rightarrow> ('r world, string + unit) state" where
  "Reset E rl key = redis_Run E (\<lambda>t r. (Inr (), rd_del (e_redis E) t (fullKey rl key) r))"

section \<open>Revoked refresh tokens (redis_refresh_token_revocation_store.go)\<close>

record redisRevocationStore =
  rv_prefix :: string

definition NewRedisRefreshTokenRevocationStore :: "bool \<Rightarrow> string + redisRevocationStore" where
  "NewRedisRefreshTokenRevocationStore have_rdb =
     (if \<not> have_rdb then Inl ''redis client is required for refresh token revocation store''
      else Inr \<lparr>rv_prefix = ''identra:revoked_refresh:''\<rparr>)"

definition rv_key :: "redisRevocationStore \<Rightarrow> string \<Rightarrow> string" where
  "rv_key s tokenID = rv_prefix s @ tokenID"

definition Revoke ::
  "'r env \<Rightarrow> redisRevocationStore \<Rightarrow> string \<Rightarrow> go_time \<Rightarrow> ('r world, string + unit) state" where
  "Revoke E s tokenID expiresAt =
     (if tokenID = '''' then State_Monad.return (Inr ())
      else do {
        now \<leftarrow> time_Now E;
        let ttl = expiresAt - now;
        if ttl \<le> 0 then State_Monad.return (Inr ())
        else redis_Run E (\<lambda>t r. (Inr (), rd_set (e_redis E) t (rv_key s tokenID) ''1'' ttl r))
      })"

definition IsRevoked ::
  "'r env \<Rightarrow> redisRevocationStore \<Rightarrow> string \<Rightarrow> ('r world, string + bool) state" where
  "IsRevoked E s tokenID =
     (if tokenID = '''' then State_Monad.return (Inr False)
      else do {
        res \<leftarrow> redis_Run E (\<lambda>t r. (Inr (rd_exists (e_redis E) t (rv_key s tokenID) r), r));
        State_Monad.return (case res of Inl e \<Rightarrow> Inl e | Inr n \<Rightarrow> Inr (0 < n))
      })"

section \<open>The limiter's interface\<close>

text \<open>
  What a client of the limiter may rely on. \<open>attempts t k s\<close> is the number of attempts that count
  at instant \<open>t\<close>; \<open>capacity\<close> bounds the counter; \<open>invar t s\<close> speaks of the instants from \<open>t\<close>
  on.
\<close>

locale attempt_limiter =
  fixes is_allowed :: "go_time \<Rightarrow> string \<Rightarrow> 's \<Rightarrow> bool"
    and record_attempt :: "go_time \<Rightarrow> string \<Rightarrow> 's \<Rightarrow> 's"
    and reset_attempts :: "go_time \<Rightarrow> string \<Rightarrow> 's \<Rightarrow> 's"
    and attempts :: "go_time \<Rightarrow> string \<Rightarrow> 's \<Rightarrow> nat"
    and limit :: nat
    and span :: go_duration
    and capacity :: nat
    and invar :: "go_time \<Rightarrow> 's \<Rightarrow> bool"
  assumes allowed_iff: "invar t s \<Longrightarrow> is_allowed t k s \<longleftrightarrow> attempts t k s < limit"
    and invar_later: "invar t s \<Longrightarrow> t \<le> t' \<Longrightarrow> invar t' s"
    and invar_record: "invar t s \<Longrightarrow> attempts t k s < capacity \<Longrightarrow> invar t (record_attempt t k s)"
    and invar_reset: "invar t s \<Longrightarrow> invar t (reset_attempts t k s)"
    and attempts_reset:
      "invar t s \<Longrightarrow> t \<le> t' \<Longrightarrow>
       attempts t' k' (reset_attempts t k s) = (if k' = k then 0 else attempts t' k' s)"
    and attempts_other:
      "invar t s \<Longrightarrow> t \<le> t' \<Longrightarrow> k' \<noteq> k \<Longrightarrow> attempts t' k' (record_attempt t k s) = attempts t' k' s"
    and attempts_first:
      "invar t s \<Longrightarrow> attempts t k s = 0 \<Longrightarrow> t \<le> t' \<Longrightarrow> t' + millisecond \<le> t + span \<Longrightarrow>
       attempts t' k (record_attempt t k s) = 1"
    and attempts_first_expired:
      "invar t s \<Longrightarrow> attempts t k s = 0 \<Longrightarrow> t \<le> t' \<Longrightarrow> t + span + millisecond \<le> t' \<Longrightarrow>
       attempts t' k (record_attempt t k s) = 0"
    and attempts_next:
      "invar t s \<Longrightarrow> 0 < attempts t k s \<Longrightarrow> attempts t k s < capacity \<Longrightarrow> t \<le> t' \<Longrightarrow>
       attempts t' k (record_attempt t k s) =
         (if attempts t' k s = 0 then 0 else attempts t k s + 1)"
    and limit_capacity: "limit \<le> capacity"
begin

text \<open>The state after recording attempts for \<open>k\<close> at the given instants, in order.\<close>

fun record_all :: "string \<Rightarrow> go_time list \<Rightarrow> 's \<Rightarrow> 's" where
  "record_all k [] s = s"
| "record_all k (t # ts) s = record_all k ts (record_attempt t k s)"

text \<open>\<open>n\<close> attempts count from \<open>t\<close> until just before the deadline, none after it.\<close>

definition counting :: "string \<Rightarrow> nat \<Rightarrow> go_time \<Rightarrow> go_time \<Rightarrow> 's \<Rightarrow> bool" where
  "counting k n t deadline s \<longleftrightarrow>
     invar t s \<and>
     (\<forall>t'. t \<le> t' \<longrightarrow> t' + millisecond \<le> deadline \<longrightarrow> attempts t' k s = n) \<and>
     (\<forall>t'. t \<le> t' \<longrightarrow> deadline + millisecond \<le> t' \<longrightarrow> attempts t' k s = 0)"

lemma counting_first:
  assumes "invar t s" and "attempts t k s = 0" and "0 < capacity"
  shows "counting k 1 t (t + span) (record_attempt t k s)"
  using assms attempts_first [of t s k] attempts_first_expired [of t s k] invar_record [of t s k]
  by (auto simp: counting_def)

lemma counting_next:
  assumes c: "counting k n t deadline s" and "0 < n" "n < capacity"
    and le: "t \<le> u" "u + millisecond \<le> deadline"
  shows "counting k (Suc n) u deadline (record_attempt u k s)"
proof -
  have inv: "invar u s" using c le(1) invar_later by (auto simp: counting_def)
  have n: "attempts u k s = n" using c le by (simp add: counting_def)
  have "attempts t' k (record_attempt u k s) = (if attempts t' k s = 0 then 0 else n + 1)"
    if "u \<le> t'" for t'
    using attempts_next [OF inv] n assms(2,3) that by simp
  moreover have "invar u (record_attempt u k s)"
    using invar_record [OF inv] n assms(3) by simp
  ultimately show ?thesis
    using c assms(2) le(1) by (auto simp: counting_def)
qed

lemma counting_record_all:
  assumes "counting k n t deadline s" and "0 < n" and "n + length ts \<le> capacity"
    and "sorted (t # ts)" and "\<forall>u \<in> set ts. u + millisecond \<le> deadline"
  shows "counting k (n + length ts) (last (t # ts)) deadline (record_all k ts s)"
  using assms
proof (induction ts arbitrary: n t s)
  case (Cons u ts)
  have "counting k (Suc n) u deadline (record_attempt u k s)"
    using Cons.prems by (intro counting_next) auto
  then have "counting k (Suc n + length ts) (last (u # ts)) deadline
      (record_all k ts (record_attempt u k s))"
    using Cons.prems by (intro Cons.IH) auto
  then show ?case by simp
qed simp

text \<open>
  Lockout: after as many attempts as the limit, started from a clean slate and all within the
  window, the key is refused until the window has passed, and allowed again once it has.
\<close>

lemma locked:
  assumes "invar t s" and "attempts t k s = 0" and "0 < limit" and "Suc (length ts) = limit"
    and "sorted (t # ts)" and "\<forall>u \<in> set ts. u + millisecond \<le> t + span"
  shows "counting k limit (last (t # ts)) (t + span) (record_all k (t # ts) s)"
proof -
  have "0 < capacity" using assms(3) limit_capacity by simp
  with assms(1,2) have "counting k 1 t (t + span) (record_attempt t k s)" by (rule counting_first)
  then have "counting k (1 + length ts) (last (t # ts)) (t + span)
      (record_all k ts (record_attempt t k s))"
    using assms(4-6) limit_capacity by (intro counting_record_all) auto
  then show ?thesis using assms(4) by simp
qed

lemma lockout:
  assumes "invar t s" and "attempts t k s = 0" and "0 < limit" and "Suc (length ts) = limit"
    and "sorted (t # ts)" and "\<forall>u \<in> set ts. u + millisecond \<le> t + span" and "last (t # ts) \<le> t'"
  shows "invar t' (record_all k (t # ts) s)"
    and "t' + millisecond \<le> t + span \<Longrightarrow> \<not> is_allowed t' k (record_all k (t # ts) s)"
    and "t + span + millisecond \<le> t' \<Longrightarrow> is_allowed t' k (record_all k (t # ts) s)"
proof -
  have c: "counting k limit (last (t # ts)) (t + span) (record_all k (t # ts) s)"
    by (rule locked [OF assms(1-6)])
  show inv: "invar t' (record_all k (t # ts) s)"
    using c assms(7) invar_later unfolding counting_def by blast
  show "t' + millisecond \<le> t + span \<Longrightarrow> \<not> is_allowed t' k (record_all k (t # ts) s)"
    and "t + span + millisecond \<le> t' \<Longrightarrow> is_allowed t' k (record_all k (t # ts) s)"
    using c assms(3,7) inv by (simp_all add: counting_def allowed_iff)
qed

end

section \<open>The Redis counters implement the interface\<close>

definition rl_attempts :: "'r redis_ops \<Rightarrow> redisRateLimiter \<Rightarrow> go_time \<Rightarrow> string \<Rightarrow> 'r \<Rightarrow> nat" where
  "rl_attempts R rl t key r =
     (case rd_get R t (fullKey rl key) r of None \<Rightarrow> 0 | Some v \<Rightarrow> nat (the (Atoi v)))"

definition rl_counters_ok :: "'r redis_ops \<Rightarrow> redisRateLimiter \<Rightarrow> go_time \<Rightarrow> 'r \<Rightarrow> bool" where
  "rl_counters_ok R rl t r \<longleftrightarrow>
     redis_laws R \<and> 0 < rl_window rl div second \<and>
     0 < rl_maxAttempts rl \<and> rl_maxAttempts rl < 2 ^ 63 \<and>
     (\<forall>t' key v. t \<le> t' \<longrightarrow> rd_get R t' (fullKey rl key) r = Some v \<longrightarrow>
        (\<exists>n. v = Itoa n \<and> 0 < n \<and> int64_range n))"

abbreviation rl_capacity :: nat where "rl_capacity \<equiv> 2 ^ 63 - 1"

definition rl_limit :: "redisRateLimiter \<Rightarrow> nat" where
  "rl_limit rl = nat (min (rl_maxAttempts rl) (2 ^ 63 - 1))"

definition rl_is_allowed :: "'r redis_ops \<Rightarrow> redisRateLimiter \<Rightarrow> go_time \<Rightarrow> string \<Rightarrow> 'r \<Rightarrow> bool" where
  "rl_is_allowed R rl t key r \<longleftrightarrow>
     fst (isAllowedScript R (fullKey rl key) (rl_maxAttempts rl) t r) = Inr 1"

definition rl_record :: "'r redis_ops \<Rightarrow> redisRateLimiter \<Rightarrow> go_time \<Rightarrow> string \<Rightarrow> 'r \<Rightarrow> 'r" where
  "rl_record R rl t key r = snd (recordScript R (fullKey rl key) (rl_window rl div second) t r)"

definition rl_reset :: "'r redis_ops \<Rightarrow> redisRateLimiter \<Rightarrow> go_time \<Rightarrow> string \<Rightarrow> 'r \<Rightarrow> 'r" where
  "rl_reset R rl t key r = rd_del R t (fullKey rl key) r"

lemma fullKey_inj [simp]: "fullKey rl k = fullKey rl k' \<longleftrightarrow> k = k'"
  by (simp add: fullKey_def)

lemma rl_attempts_0:
  "rl_counters_ok R rl t r \<Longrightarrow> t \<le> t' \<Longrightarrow>
   rl_attempts R rl t' k r = 0 \<longleftrightarrow> rd_get R t' (fullKey rl k) r = None"
  by (fastforce simp: rl_attempts_def rl_counters_ok_def Atoi_Itoa split: option.splits)

lemma rl_attempts_Suc:
  assumes "rl_counters_ok R rl t r" and "t \<le> t'" and "0 < rl_attempts R rl t' k r"
  shows "rd_get R t' (fullKey rl k) r = Some (Itoa (int (rl_attempts R rl t' k r)))"
    and "int64_range (int (rl_attempts R rl t' k r))"
proof -
  from assms obtain v where "rd_get R t' (fullKey rl k) r = Some v"
    by (auto simp: rl_attempts_def split: option.splits)
  moreover from this assms(1,2) obtain n where "v = Itoa n" "0 < n" "int64_range n"
    unfolding rl_counters_ok_def by blast
  ultimately show "rd_get R t' (fullKey rl k) r = Some (Itoa (int (rl_attempts R rl t' k r)))"
    and "int64_range (int (rl_attempts R rl t' k r))"
    by (simp_all add: rl_attempts_def Atoi_Itoa)
qed

lemma rl_record_first:
  assumes ok: "rl_counters_ok R rl t r" and z: "rl_attempts R rl t k r = 0"
  shows "rl_record R rl t k r =
           rd_expire R t (fullKey rl k) (rl_window rl div second) (snd (rd_incr R t (fullKey rl k) r))"
proof -
  have R: "redis_laws R" using ok by (simp add: rl_counters_ok_def)
  have none: "rd_get R t (fullKey rl k) r = None"
    using rl_attempts_0 [OF ok order.refl] z by simp
  have "fst (rd_incr R t (fullKey rl k) r) = Inr 1"
    using redis_incr_fresh [OF R order.refl none] by simp
  then show ?thesis
    by (cases "rd_incr R t (fullKey rl k) r") (simp add: rl_record_def recordScript_def)
qed

lemma rl_record_next:
  assumes ok: "rl_counters_ok R rl t r" and n: "0 < rl_attempts R rl t k r"
    and cap: "rl_attempts R rl t k r < rl_capacity"
  shows "rl_record R rl t k r = snd (rd_incr R t (fullKey rl k) r)"
proof -
  have R: "redis_laws R" using ok by (simp add: rl_counters_ok_def)
  let ?n = "int (rl_attempts R rl t k r)"
  have "int64_range (?n + 1)" using cap by (simp add: int64_range_def)
  then have "fst (rd_incr R t (fullKey rl k) r) = Inr (?n + 1)"
    using redis_incr_next [OF R order.refl rl_attempts_Suc(1) [OF ok order.refl n]] by simp
  with n show ?thesis
    by (cases "rd_incr R t (fullKey rl k) r") (simp add: rl_record_def recordScript_def)
qed

lemma rl_record_get_other:
  assumes "redis_laws R" and "t \<le> t'" and "key' \<noteq> fullKey rl k"
  shows "rd_get R t' key' (rl_record R rl t k r) = rd_get R t' key' r"
  using assms redis_get_incr_other [of R t t' key' "fullKey rl k" r]
  by (cases "rd_incr R t (fullKey rl k) r")
     (simp add: rl_record_def recordScript_def redis_get_expire_other split: sum.splits)

lemma rl_record_get_first:
  assumes ok: "rl_counters_ok R rl t r" and z: "rl_attempts R rl t k r = 0" and le: "t \<le> t'"
  shows "rd_get R t' (fullKey rl k) (rl_record R rl t k r) \<in> {None, Some (Itoa 1)}"
    and "t' + millisecond \<le> t + rl_window rl div second * second \<Longrightarrow>
         rd_get R t' (fullKey rl k) (rl_record R rl t k r) = Some (Itoa 1)"
    and "t + rl_window rl div second * second + millisecond \<le> t' \<Longrightarrow>
         rd_get R t' (fullKey rl k) (rl_record R rl t k r) = None"
proof -
  have R: "redis_laws R" using ok by (simp add: rl_counters_ok_def)
  have none: "rd_get R t (fullKey rl k) r = None"
    using rl_attempts_0 [OF ok order.refl] z by simp
  have one: "rd_get R u (fullKey rl k) (snd (rd_incr R t (fullKey rl k) r)) = Some (Itoa 1)"
    if "t \<le> u" for u
    using redis_incr_fresh [OF R that none] by simp
  show "t' + millisecond \<le> t + rl_window rl div second * second \<Longrightarrow>
         rd_get R t' (fullKey rl k) (rl_record R rl t k r) = Some (Itoa 1)"
    by (simp add: rl_record_first [OF ok z] redis_get_expire [OF R le] one)
  show "t + rl_window rl div second * second + millisecond \<le> t' \<Longrightarrow>
         rd_get R t' (fullKey rl k) (rl_record R rl t k r) = None"
    by (simp add: rl_record_first [OF ok z] redis_get_expired [OF R le])
  show "rd_get R t' (fullKey rl k) (rl_record R rl t k r) \<in> {None, Some (Itoa 1)}"
    using redis_get_expire_value [OF R le, of "fullKey rl k" _ "snd (rd_incr R t (fullKey rl k) r)"]
    by (simp add: rl_record_first [OF ok z] one [OF order.refl])
qed

lemma rl_record_get_next:
  assumes ok: "rl_counters_ok R rl t r" and n: "0 < rl_attempts R rl t k r"
    and cap: "rl_attempts R rl t k r < rl_capacity" and le: "t \<le> t'"
  shows "rd_get R t' (fullKey rl k) (rl_record R rl t k r) =
           (if rd_get R t' (fullKey rl k) r = None then None
            else Some (Itoa (int (rl_attempts R rl t k r) + 1)))"
proof -
  have R: "redis_laws R" using ok by (simp add: rl_counters_ok_def)
  have "int64_range (int (rl_attempts R rl t k r) + 1)" using cap by (simp add: int64_range_def)
  with redis_incr_next [OF R le rl_attempts_Suc(1) [OF ok order.refl n]] show ?thesis
    by (simp add: rl_record_next [OF ok n cap])
qed

lemma rl_counters_ok_record:
  assumes ok: "rl_counters_ok R rl t r" and cap: "rl_attempts R rl t k r < rl_capacity"
  shows "rl_counters_ok R rl t (rl_record R rl t k r)"
proof -
  have R: "redis_laws R" using ok by (simp add: rl_counters_ok_def)
  have "\<exists>n. v = Itoa n \<and> 0 < n \<and> int64_range n"
    if le: "t \<le> t'" and v: "rd_get R t' (fullKey rl key) (rl_record R rl t k r) = Some v" for t' key v
  proof (cases "key = k")
    case False
    then show ?thesis
      using v le ok rl_record_get_other [OF R le] unfolding rl_counters_ok_def by auto
  next
    case True
    show ?thesis
    proof (cases "rl_attempts R rl t k r = 0")
      case z: True
      show ?thesis
        using rl_record_get_first(1) [OF ok z le] v True
        by (intro exI [of _ 1]) (auto simp: int64_range_def)
    next
      case False
      then have "v = Itoa (int (rl_attempts R rl t k r) + 1)"
        using rl_record_get_next [OF ok _ cap le] v True by (auto split: if_splits)
      moreover have "int64_range (int (rl_attempts R rl t k r) + 1)"
        using cap by (simp add: int64_range_def)
      ultimately show ?thesis by auto
    qed
  qed
  with ok show ?thesis by (auto simp: rl_counters_ok_def)
qed

text \<open>The Redis counters satisfy the interface of the limiter.\<close>

interpretation redis_limiter: attempt_limiter
  "rl_is_allowed R rl" "rl_record R rl" "rl_reset R rl" "rl_attempts R rl" "rl_limit rl"
  "rl_window rl div second * second" rl_capacity "rl_counters_ok R rl" for R rl
proof unfold_locales
  show "rl_limit rl \<le> rl_capacity"
    by (simp add: rl_limit_def)
next
  fix t t' :: go_time and k k' :: string and s
  assume ok: "rl_counters_ok R rl t s"
  then have R: "redis_laws R" by (simp add: rl_counters_ok_def)
  show "rl_is_allowed R rl t k s \<longleftrightarrow> rl_attempts R rl t k s < rl_limit rl"
  proof (cases "rd_get R t (fullKey rl k) s")
    case (Some v)
    with ok obtain n where "v = Itoa n" "0 < n" "int64_range n"
      unfolding rl_counters_ok_def by blast
    with Some ok show ?thesis
      by (auto simp: rl_is_allowed_def isAllowedScript_def rl_attempts_def rl_limit_def Atoi_Itoa
          rl_counters_ok_def)
  qed (use ok in \<open>simp add: rl_is_allowed_def isAllowedScript_def rl_attempts_def rl_limit_def rl_counters_ok_def\<close>)
  show "t \<le> t' \<Longrightarrow> rl_counters_ok R rl t' s"
    using ok unfolding rl_counters_ok_def by (meson order_trans)
  show "rl_attempts R rl t k s < rl_capacity \<Longrightarrow> rl_counters_ok R rl t (rl_record R rl t k s)"
    by (rule rl_counters_ok_record [OF ok])
  show "rl_counters_ok R rl t (rl_reset R rl t k s)"
    using ok by (auto simp: rl_counters_ok_def rl_reset_def redis_get_del)
  show "t \<le> t' \<Longrightarrow> rl_attempts R rl t' k' (rl_reset R rl t k s) =
          (if k' = k then 0 else rl_attempts R rl t' k' s)"
    by (simp add: rl_attempts_def rl_reset_def redis_get_del [OF R])
  show "t \<le> t' \<Longrightarrow> k' \<noteq> k \<Longrightarrow> rl_attempts R rl t' k' (rl_record R rl t k s) = rl_attempts R rl t' k' s"
    by (simp add: rl_attempts_def rl_record_get_other [OF R])
  show "rl_attempts R rl t' k (rl_record R rl t k s) = 1"
    if "rl_attempts R rl t k s = 0" "t \<le> t'" "t' + millisecond \<le> t + rl_window rl div second * second"
    using rl_record_get_first(2) [OF ok that] by (simp add: rl_attempts_def Atoi_Itoa int64_range_def)
  show "rl_attempts R rl t' k (rl_record R rl t k s) = 0"
    if "rl_attempts R rl t k s = 0" "t \<le> t'" "t + rl_window rl div second * second + millisecond \<le> t'"
    using rl_record_get_first(3) [OF ok that] by (simp add: rl_attempts_def)
  show "rl_attempts R rl t' k (rl_record R rl t k s) =
          (if rl_attempts R rl t' k s = 0 then 0 else rl_attempts R rl t k s + 1)"
    if n: "0 < rl_attempts R rl t k s" and cap: "rl_attempts R rl t k s < rl_capacity" and le: "t \<le> t'"
    using rl_record_get_next [OF ok n cap le] rl_attempts_0 [OF ok le, of k] cap
    by (auto simp: rl_attempts_def Atoi_Itoa int64_range_def)
qed

section \<open>Values that can be used once\<close>

text \<open>
  The contract of a store whose values are given out once: an attempt that succeeds leaves the
  value spent, and on a spent value every further attempt fails and leaves it spent. \<open>valid\<close> is
  what the provider needs of its surroundings.
\<close>

locale one_time =
  fixes valid :: bool
    and attempt :: "'a \<Rightarrow> ('w, 'b) state"
    and success :: "'b \<Rightarrow> bool"
    and spent :: "'w \<Rightarrow> bool"
  assumes spent_fails:
      "valid \<Longrightarrow> spent w \<Longrightarrow> run_state (attempt a) w = (x, w') \<Longrightarrow> \<not> success x \<and> spent w'"
    and success_spends:
      "valid \<Longrightarrow> run_state (attempt a) w = (x, w') \<Longrightarrow> success x \<Longrightarrow> spent w'"
begin

lemma spent_never:
  assumes valid and "spent w"
  shows "filter success (fst (run_state (traverse_list attempt as) w)) = []"
  using assms(2)
proof (induction as arbitrary: w)
  case (Cons a as)
  obtain x w1 where r: "run_state (attempt a) w = (x, w1)" by fastforce
  show ?case
    using spent_fails [OF assms(1) Cons.prems r] Cons.IH [of w1] by (simp add: r)
qed simp

lemma at_most_once:
  assumes valid
  shows "length (filter success (fst (run_state (traverse_list attempt as) w))) \<le> 1"
proof (induction as arbitrary: w)
  case (Cons a as)
  obtain x w1 where r: "run_state (attempt a) w = (x, w1)" by fastforce
  show ?case
    using Cons.IH [of w1] spent_never [OF assms success_spends [OF assms r], of as]
    by (cases "success x") (simp_all add: r)
qed simp

end

section \<open>Email codes are used at most once\<close>

definition gone :: "'r redis_ops \<Rightarrow> go_time \<Rightarrow> string \<Rightarrow> 'r \<Rightarrow> bool" where
  "gone R t key r \<longleftrightarrow> (\<forall>t' \<ge> t. rd_get R t' key r = None)"

lemma gone_later: "gone R t key r \<Longrightarrow> t \<le> t' \<Longrightarrow> gone R t' key r"
  by (simp add: gone_def)

lemma consumeEmailCodeScript_cases:
  assumes "redis_laws R"
  shows "fst (consumeEmailCodeScript R key code t r) = Inr 1 \<Longrightarrow>
           gone R t key (snd (consumeEmailCodeScript R key code t r))"
    and "gone R t key r \<Longrightarrow> consumeEmailCodeScript R key code t r = (Inr 0, r)"
  using assms by (auto simp: consumeEmailCodeScript_def gone_def redis_get_del split: option.splits if_splits)

lemma EmailCodeStore_Consume_gone:
  assumes "redis_laws (e_redis E)" and "clock_mono E"
    and "gone (e_redis E) (e_now E (w_tick w)) (ecs_key s email) (w_redis w)"
    and "run_state (EmailCodeStore_Consume E s email code) w = (x, w')"
  shows "x \<noteq> Inr True \<and> gone (e_redis E) (e_now E (w_tick w')) (ecs_key s email) (w_redis w')"
proof -
  obtain y where y: "run_state (redis_Run E (consumeEmailCodeScript (e_redis E) (ecs_key s email) code)) w
      = (y, w')" and x: "x = (case y of Inl e \<Rightarrow> Inl e | Inr n \<Rightarrow> Inr (n = 1))"
    using assms(4) by (auto simp: EmailCodeStore_Consume_def split: prod.splits)
  have "e_now E (w_tick w) \<le> e_now E (Suc (w_tick w))"
    using assms(2) by (simp add: clock_monoD)
  from y x assms(3) show ?thesis
    using gone_later [OF assms(3) \<open>e_now E (w_tick w) \<le> e_now E (Suc (w_tick w))\<close>]
    by (cases rule: run_redis_cases)
       (auto simp: consumeEmailCodeScript_cases(2) [OF assms(1)])
qed

lemma EmailCodeStore_Consume_True:
  assumes "redis_laws (e_redis E)" and "clock_mono E"
    and "run_state (EmailCodeStore_Consume E s email code) w = (Inr True, w')"
  shows "gone (e_redis E) (e_now E (w_tick w')) (ecs_key s email) (w_redis w')"
proof -
  obtain n where y: "run_state (redis_Run E (consumeEmailCodeScript (e_redis E) (ecs_key s email) code)) w
      = (Inr n, w')" and n: "n = 1"
    using assms(3) by (auto simp: EmailCodeStore_Consume_def split: prod.splits sum.splits)
  have "e_now E (w_tick w) \<le> e_now E (Suc (w_tick w))"
    using assms(2) by (simp add: clock_monoD)
  from y n show ?thesis
    by (cases rule: run_redis_cases)
       (use consumeEmailCodeScript_cases(1) [OF assms(1)] gone_later
          \<open>e_now E (w_tick w) \<le> e_now E (Suc (w_tick w))\<close> in fastforce)+
qed

interpretation email_codes: one_time
  "redis_laws (e_redis E) \<and> clock_mono E" "EmailCodeStore_Consume E s email" "\<lambda>x. x = Inr True"
  "\<lambda>w. gone (e_redis E) (e_now E (w_tick w)) (ecs_key s email) (w_redis w)" for E s email
  by unfold_locales (use EmailCodeStore_Consume_gone EmailCodeStore_Consume_True in blast)+

text \<open>
  (C7) However many codes are tried for an address in a row, with whatever guesses and whatever
  calls to Redis failing or losing their reply, at most one of the attempts is accepted unless a
  new code is stored in between: a one-time code cannot be replayed.
\<close>

theorem email_code_at_most_once:
  assumes "redis_laws (e_redis E)" and "clock_mono E"
  shows "length (filter (\<lambda>x. x = Inr True)
           (fst (run_state (traverse_list (EmailCodeStore_Consume E s email) codes) w))) \<le> 1"
  using assms by (intro email_codes.at_most_once) simp

text \<open>Three codes are tried for one address in the sample surrounding.\<close>

theorem email_code_at_most_once_witness:
  "length (filter (\<lambda>x. x = Inr True) (fst (run_state (traverse_list
      (EmailCodeStore_Consume sample_env \<lparr>ecs_ttl = 10 * minute, ecs_prefix = ''identra:email_code:''\<rparr> ''a@b.c'')
      [''000000'', ''123456'', ''123456''])
      (sample_world\<lparr>w_redis := [''identra:email_code:a@b.c'' \<mapsto> (''123456'', None)]\<rparr>)))) \<le> 1"
  by (rule email_code_at_most_once) simp_all

section \<open>A stored code is accepted until it expires\<close>

definition redis_up :: "'r env \<Rightarrow> bool" where
  "redis_up E \<longleftrightarrow> (\<forall>n. e_redis_fault E n = RedisOk)"

lemma sample_redis_up [simp]: "redis_up sample_env"
  by (simp add: redis_up_def)

lemma Consume_wrong:
  assumes "redis_up E" and "rd_get (e_redis E) (e_now E (w_tick w)) (ecs_key s email) (w_redis w) = Some code"
    and "c \<noteq> code"
  shows "run_state (EmailCodeStore_Consume E s email c) w = (Inr False, w\<lparr>w_tick := Suc (w_tick w)\<rparr>)"
  using assms
  by (cases w) (simp add: EmailCodeStore_Consume_def run_redis_ok redis_up_def consumeEmailCodeScript_def)

lemma Consume_right:
  assumes "redis_up E" and "rd_get (e_redis E) (e_now E (w_tick w)) (ecs_key s email) (w_redis w) = Some code"
  shows "fst (run_state (EmailCodeStore_Consume E s email code) w) = Inr True"
  using assms by (simp add: EmailCodeStore_Consume_def run_redis_ok redis_up_def consumeEmailCodeScript_def)

lemma Consume_sequence:
  assumes "redis_up E" and "clock_mono E" and "code \<notin> set wrong"
    and "\<And>n. w_tick w \<le> n \<Longrightarrow> n \<le> w_tick w + length wrong \<Longrightarrow>
           rd_get (e_redis E) (e_now E n) (ecs_key s email) (w_redis w) = Some code"
  shows "fst (run_state (traverse_list (EmailCodeStore_Consume E s email) (wrong @ [code])) w)
           = map (\<lambda>_. Inr False) wrong @ [Inr True]"
  using assms(3,4)
proof (induction wrong arbitrary: w)
  case Nil
  then show ?case
    using Consume_right [OF assms(1), of w s email code] by simp
next
  case (Cons c wrong)
  have r: "run_state (EmailCodeStore_Consume E s email c) w = (Inr False, w\<lparr>w_tick := Suc (w_tick w)\<rparr>)"
    using Cons.prems(1) Cons.prems(2) [of "w_tick w"] by (intro Consume_wrong [OF assms(1)]) auto
  have "fst (run_state (traverse_list (EmailCodeStore_Consume E s email) (wrong @ [code]))
          (w\<lparr>w_tick := Suc (w_tick w)\<rparr>)) = map (\<lambda>_. Inr False) wrong @ [Inr True]"
    using Cons.prems by (intro Cons.IH) auto
  then show ?case by (simp add: r)
qed

text \<open>
  (C22) A code that has been stored is accepted once it is given within its time to live, and wrong
  guesses before it neither succeed nor use it up.
\<close>

theorem email_code_accepted:
  assumes "redis_laws (e_redis E)" and "clock_mono E" and "redis_up E" and "code \<notin> set wrong"
    and "e_now E (w_tick w + 1 + length wrong) + millisecond \<le> e_now E (w_tick w) + ecs_ttl s"
  shows "fst (run_state (do {
             EmailCodeStore_Set E s email code;
             traverse_list (EmailCodeStore_Consume E s email) (wrong @ [code]) }) w)
           = map (\<lambda>_. Inr False) wrong @ [Inr True]"
proof -
  let ?w = "w\<lparr>w_tick := Suc (w_tick w),
      w_redis := rd_set (e_redis E) (e_now E (w_tick w)) (ecs_key s email) code (ecs_ttl s) (w_redis w)\<rparr>"
  have set: "run_state (EmailCodeStore_Set E s email code) w = (Inr (), ?w)"
    using assms(3) by (simp add: EmailCodeStore_Set_def run_redis_ok redis_up_def)
  have "rd_get (e_redis E) (e_now E n) (ecs_key s email) (w_redis ?w) = Some code"
    if "w_tick ?w \<le> n" "n \<le> w_tick ?w + length wrong" for n
  proof -
    have "e_now E (w_tick w) \<le> e_now E n" "e_now E n \<le> e_now E (w_tick w + 1 + length wrong)"
      using that by (auto intro!: clock_monoD [OF assms(2)])
    then show ?thesis using assms(5) by (simp add: redis_get_set [OF assms(1)])
  qed
  from Consume_sequence [OF assms(3,2,4) this] show ?thesis
    by (simp add: set)
qed

theorem email_code_accepted_witness:
  "fst (run_state (do {
      EmailCodeStore_Set sample_env \<lparr>ecs_ttl = 10 * minute, ecs_prefix = ''c:''\<rparr> ''a@b.c'' ''123456'';
      traverse_list (EmailCodeStore_Consume sample_env \<lparr>ecs_ttl = 10 * minute, ecs_prefix = ''c:''\<rparr> ''a@b.c'')
        ([''000000'', ''999999''] @ [''123456'']) }) sample_world)
     = map (\<lambda>_. Inr False) [''000000'', ''999999''] @ [Inr True]"
  by (rule email_code_accepted) simp_all

section \<open>Lockout\<close>

lemma run_Record:
  assumes "redis_up E"
  shows "w_redis (snd (run_state (Record E rl k) w)) =
           rl_record (e_redis E) rl (e_now E (w_tick w)) k (w_redis w)"
    and "w_tick (snd (run_state (Record E rl k) w)) = Suc (w_tick w)"
  using assms by (simp_all add: Record_def run_redis_ok redis_up_def rl_record_def)

lemma run_Record_all:
  assumes "redis_up E"
  shows "w_redis (snd (run_state (traverse_list (\<lambda>_. Record E rl k) us) w)) =
           redis_limiter.record_all (e_redis E) rl k (map (e_now E) [w_tick w ..< w_tick w + length us]) (w_redis w)"
    and "w_tick (snd (run_state (traverse_list (\<lambda>_. Record E rl k) us) w)) = w_tick w + length us"
proof (induction us arbitrary: w)
  case (Cons u us)
  { case 1 show ?case
      using Cons.IH(1) [of "snd (run_state (Record E rl k) w)"]
      by (simp add: run_Record [OF assms] upt_conv_Cons del: upt_Suc) }
  { case 2 show ?case
      using Cons.IH(2) [of "snd (run_state (Record E rl k) w)"] by (simp add: run_Record [OF assms]) }
qed simp_all

lemma run_IsAllowed:
  assumes "redis_up E" and "rl_counters_ok (e_redis E) rl (e_now E (w_tick w)) (w_redis w)"
  shows "fst (run_state (IsAllowed E rl k) w) =
           Inr (rl_is_allowed (e_redis E) rl (e_now E (w_tick w)) k (w_redis w))"
proof (cases "rd_get (e_redis E) (e_now E (w_tick w)) (fullKey rl k) (w_redis w)")
  case None
  with assms(1) show ?thesis
    by (simp add: IsAllowed_def run_redis_ok redis_up_def rl_is_allowed_def isAllowedScript_def)
next
  case (Some v)
  with assms(2) obtain n where "v = Itoa n" "int64_range n"
    unfolding rl_counters_ok_def by blast
  with Some assms(1) show ?thesis
    by (simp add: IsAllowed_def run_redis_ok redis_up_def rl_is_allowed_def isAllowedScript_def Atoi_Itoa)
qed

text \<open>
  (C14) Lockout. From a key with no counted attempts, as many recorded attempts as the limit, all
  within the window that the first of them opened, make \<^verbatim>\<open>IsAllowed\<close> refuse the key until that
  window has passed, and once it has passed the key is allowed again.
\<close>

theorem rate_limiter_lockout:
  assumes "rl_counters_ok (e_redis E) rl (e_now E (w_tick w)) (w_redis w)"
    and "clock_mono E" and "redis_up E"
    and "rl_attempts (e_redis E) rl (e_now E (w_tick w)) k (w_redis w) = 0"
    and "int (length us) = rl_maxAttempts rl"
    and "w' = snd (run_state (traverse_list (\<lambda>_. Record E rl k) us) w)"
    and "e_now E (w_tick w') + millisecond \<le> e_now E (w_tick w) + rl_window rl div second * second"
    and "w_redis later = w_redis w'" and "w_tick w' \<le> w_tick later"
  shows "(e_now E (w_tick later) + millisecond \<le> e_now E (w_tick w) + rl_window rl div second * second \<longrightarrow>
            fst (run_state (IsAllowed E rl k) later) = Inr False) \<and>
         (e_now E (w_tick w) + rl_window rl div second * second + millisecond \<le> e_now E (w_tick later) \<longrightarrow>
            fst (run_state (IsAllowed E rl k) later) = Inr True)"
proof -
  note clock = clock_monoD [OF assms(2)]
  have pos: "0 < rl_maxAttempts rl" and lim: "length us = rl_limit rl"
    using assms(1,5) by (auto simp: rl_counters_ok_def rl_limit_def)
  have "length us \<noteq> 0" using pos assms(5) by linarith
  then obtain n where n: "length us = Suc n" using not0_implies_Suc by blast
  let ?ts = "map (e_now E) [Suc (w_tick w) ..< w_tick w + length us]"
  have tick: "w_tick w' = w_tick w + length us"
    by (simp add: assms(6) run_Record_all(2) [OF assms(3)])
  have ticks: "map (e_now E) [w_tick w ..< w_tick w + length us] = e_now E (w_tick w) # ?ts"
    by (simp add: n upt_conv_Cons del: upt_Suc)
  have red: "w_redis later =
      redis_limiter.record_all (e_redis E) rl k (e_now E (w_tick w) # ?ts) (w_redis w)"
    using assms(6,8) by (simp add: run_Record_all(1) [OF assms(3)] ticks del: upt_Suc)
  have srt: "sorted (e_now E (w_tick w) # ?ts)"
    unfolding ticks [symmetric] by (auto simp: sorted_iff_nth_mono intro!: clock)
  have within: "\<forall>u \<in> set ?ts. u + millisecond \<le> e_now E (w_tick w) + rl_window rl div second * second"
  proof
    fix u assume "u \<in> set ?ts"
    then have "u \<le> e_now E (w_tick w')" by (auto simp: tick intro!: clock)
    then show "u + millisecond \<le> e_now E (w_tick w) + rl_window rl div second * second"
      using assms(7) by simp
  qed
  have last: "last (e_now E (w_tick w) # ?ts) \<le> e_now E (w_tick later)"
    using assms(9) tick unfolding ticks [symmetric] by (auto simp: last_map n intro!: clock)
  have len: "Suc (length ?ts) = rl_limit rl" using lim n by simp
  have lim0: "0 < rl_limit rl" using lim n by simp
  note lk = redis_limiter.lockout [OF assms(1,4) lim0 len srt within last]
  have "rl_counters_ok (e_redis E) rl (e_now E (w_tick later)) (w_redis later)"
    unfolding red by (rule lk(1))
  note ev = run_IsAllowed [OF assms(3) this, of k]
  show ?thesis
    unfolding ev unfolding red using lk(2,3) by simp
qed

text \<open>Five attempts of a limiter of five per fifteen minutes.\<close>

definition sample_rl :: redisRateLimiter where
  "sample_rl = \<lparr>rl_prefix = ''rl:'', rl_maxAttempts = 5, rl_window = 15 * minute\<rparr>"

lemma sample_rl_sel [simp]:
  "rl_prefix sample_rl = ''rl:''" "rl_maxAttempts sample_rl = 5" "rl_window sample_rl = 15 * minute"
  by (simp_all add: sample_rl_def)

lemma sample_rl_ok: "rl_counters_ok mem_redis sample_rl t (\<lambda>_. None)"
  by (simp add: rl_counters_ok_def)

lemma mem_redis_empty_attempts: "rl_attempts mem_redis rl t k (\<lambda>_. None) = 0"
  by (simp add: rl_attempts_def)

theorem rate_limiter_lockout_witness:
  "let w' = snd (run_state (traverse_list (\<lambda>_. Record sample_env sample_rl ''k'') [1 :: nat, 2, 3, 4, 5]) sample_world)
   in fst (run_state (IsAllowed sample_env sample_rl ''k'') (w'\<lparr>w_tick := 20\<rparr>)) = Inr False \<and>
      fst (run_state (IsAllowed sample_env sample_rl ''k'') (w'\<lparr>w_tick := 2000\<rparr>)) = Inr True"
proof -
  let ?w = "snd (run_state (traverse_list (\<lambda>_. Record sample_env sample_rl ''k'') [1 :: nat, 2, 3, 4, 5]) sample_world)"
  have tick: "w_tick ?w = 5"
    using run_Record_all(2) [OF sample_redis_up, of sample_rl "''k''" "[1 :: nat, 2, 3, 4, 5]" sample_world]
    by (simp del: traverse_run)
  have "(e_now sample_env (w_tick (?w\<lparr>w_tick := n\<rparr>)) + millisecond \<le> e_now sample_env (w_tick sample_world) + rl_window sample_rl div second * second \<longrightarrow>
            fst (run_state (IsAllowed sample_env sample_rl ''k'') (?w\<lparr>w_tick := n\<rparr>)) = Inr False) \<and>
         (e_now sample_env (w_tick sample_world) + rl_window sample_rl div second * second + millisecond \<le> e_now sample_env (w_tick (?w\<lparr>w_tick := n\<rparr>)) \<longrightarrow>
            fst (run_state (IsAllowed sample_env sample_rl ''k'') (?w\<lparr>w_tick := n\<rparr>)) = Inr True)"
    if "5 \<le> n" for n
    by (rule rate_limiter_lockout [where us = "[1 :: nat, 2, 3, 4, 5]" and w' = ?w and later = "?w\<lparr>w_tick := n\<rparr>"])
       (use that tick in \<open>simp_all add: sample_rl_ok mem_redis_empty_attempts del: traverse_run\<close>)
  from this [of 20] this [of 2000] show ?thesis
    by (simp add: Let_def del: traverse_run)
qed

section \<open>Revocation\<close>

definition rv_marked :: "'r env \<Rightarrow> redisRevocationStore \<Rightarrow> string \<Rightarrow> go_time \<Rightarrow> 'r world \<Rightarrow> bool" where
  "rv_marked E s tokenID t w \<longleftrightarrow> rd_get (e_redis E) t (rv_key s tokenID) (w_redis w) \<noteq> None"

lemma rv_key_inj [simp]: "rv_key s a = rv_key s b \<longleftrightarrow> a = b"
  by (simp add: rv_key_def)

lemma run_IsRevoked:
  assumes "redis_laws (e_redis E)" and "redis_up E" and "tokenID \<noteq> ''''"
  shows "fst (run_state (IsRevoked E s tokenID) w) = Inr (rv_marked E s tokenID (e_now E (w_tick w)) w)"
  using assms
  by (simp add: IsRevoked_def run_redis_ok redis_up_def rv_marked_def redis_exists_get)

lemma Revoke_tick: "w_tick w \<le> w_tick (snd (run_state (Revoke E s tokenID expiresAt) w))"
  by (auto simp: Revoke_def Let_def redis_Run_def split: redis_fault.splits prod.splits)

lemma Revoke_marked:
  assumes "redis_laws (e_redis E)" and "clock_mono E" and "redis_up E" and "tokenID \<noteq> ''''"
    and "w' = snd (run_state (Revoke E s tokenID expiresAt) w)" and "e_now E (w_tick w') \<le> t"
  shows "t + millisecond \<le> expiresAt \<Longrightarrow> rv_marked E s tokenID t w'"
    and "tokenID' \<noteq> tokenID \<Longrightarrow> rv_marked E s tokenID' t w' = rv_marked E s tokenID' t w"
    and "fst (run_state (Revoke E s tokenID expiresAt) w) = Inr ()"
proof -
  have mono: "e_now E (w_tick w) \<le> e_now E (Suc (w_tick w))"
    "e_now E (Suc (w_tick w)) \<le> e_now E (Suc (Suc (w_tick w)))"
    using clock_monoD [OF assms(2)] by simp_all
  have up: "e_redis_fault E n = RedisOk" for n using assms(3) by (simp add: redis_up_def)
  let ?ttl = "expiresAt - e_now E (w_tick w)"
  have late: "e_now E (Suc (w_tick w)) \<le> t"
    using assms(4-6) mono up by (auto simp: Revoke_def Let_def run_redis_ok split: if_splits)
  have w': "w_redis w' = (if ?ttl \<le> 0 then w_redis w
      else rd_set (e_redis E) (e_now E (Suc (w_tick w))) (rv_key s tokenID) ''1'' ?ttl (w_redis w))"
    using assms(4,5) up by (simp add: Revoke_def Let_def run_redis_ok)
  show "t + millisecond \<le> expiresAt \<Longrightarrow> rv_marked E s tokenID t w'"
    using mono(1) late by (auto simp: rv_marked_def w' redis_get_set [OF assms(1) late])
  show "tokenID' \<noteq> tokenID \<Longrightarrow> rv_marked E s tokenID' t w' = rv_marked E s tokenID' t w"
    by (simp add: rv_marked_def w' redis_get_set_other [OF assms(1) late])
  show "fst (run_state (Revoke E s tokenID expiresAt) w) = Inr ()"
    using assms(4) up by (simp add: Revoke_def Let_def run_redis_ok)
qed

lemma Revoke_all_tick:
  "w_tick w \<le> w_tick (snd (run_state (traverse_list (\<lambda>(tok, expiry). Revoke E s tok expiry) toks) w))"
proof (induction toks arbitrary: w)
  case (Cons x toks)
  obtain tok expiry where "x = (tok, expiry)" by (cases x)
  then show ?case
    using Revoke_tick [of w E s tok expiry] Cons.IH [of "snd (run_state (Revoke E s tok expiry) w)"] by simp
qed simp

lemma Revoke_all_marked:
  assumes "redis_laws (e_redis E)" and "clock_mono E" and "redis_up E"
    and "'''' \<notin> fst ` set toks" and "distinct (map fst toks)"
    and "w' = snd (run_state (traverse_list (\<lambda>(tok, expiry). Revoke E s tok expiry) toks) w)"
    and "e_now E (w_tick w') \<le> t"
  shows "(\<forall>(tok, expiry) \<in> set toks. t + millisecond \<le> expiry \<longrightarrow> rv_marked E s tok t w') \<and>
         (\<forall>tok. tok \<notin> fst ` set toks \<longrightarrow> rv_marked E s tok t w' = rv_marked E s tok t w)"
  using assms(4-7)
proof (induction toks arbitrary: w)
  case (Cons x toks)
  obtain tok expiry where x: "x = (tok, expiry)" by (cases x)
  let ?w1 = "snd (run_state (Revoke E s tok expiry) w)"
  have w': "w' = snd (run_state (traverse_list (\<lambda>(tok, expiry). Revoke E s tok expiry) toks) ?w1)"
    using Cons.prems(3) by (simp add: x)
  have "e_now E (w_tick ?w1) \<le> e_now E (w_tick w')"
    unfolding w' by (intro clock_monoD [OF assms(2)] Revoke_all_tick)
  then have late: "e_now E (w_tick ?w1) \<le> t" using Cons.prems(4) by simp
  have ne: "tok \<noteq> ''''" using Cons.prems(1) by (auto simp: x)
  note rv = Revoke_marked [OF assms(1-3) ne refl late]
  have IH: "(\<forall>(tok, expiry) \<in> set toks. t + millisecond \<le> expiry \<longrightarrow> rv_marked E s tok t w') \<and>
      (\<forall>tok. tok \<notin> fst ` set toks \<longrightarrow> rv_marked E s tok t w' = rv_marked E s tok t ?w1)"
    using Cons.prems(1,2,4) by (intro Cons.IH w') auto
  have fresh: "tok \<notin> fst ` set toks" using Cons.prems(2) by (auto simp: x)
  show ?case
    using IH fresh rv(1,2) by (auto simp: x)
qed simp

text \<open>
  (C15) Revocation. After a number of distinct refresh tokens have been revoked, each of them is
  reported as revoked until it expires, and a token that is not among them is reported exactly as
  it would have been before.
\<close>

theorem revoked_until_expiry:
  assumes "redis_laws (e_redis E)" and "clock_mono E" and "redis_up E"
    and "'''' \<notin> fst ` set toks" and "distinct (map fst toks)"
    and "w' = snd (run_state (traverse_list (\<lambda>(tok, expiry). Revoke E s tok expiry) toks) w)"
    and "w_redis later = w_redis w'" and "w_tick w' \<le> w_tick later"
  shows "(\<forall>(tok, expiry) \<in> set toks. e_now E (w_tick later) + millisecond \<le> expiry \<longrightarrow>
            fst (run_state (IsRevoked E s tok) later) = Inr True) \<and>
         (\<forall>tok. tok \<notin> fst ` set toks \<longrightarrow>
            fst (run_state (IsRevoked E s tok) later) =
            fst (run_state (IsRevoked E s tok) (w\<lparr>w_tick := w_tick later\<rparr>)))"
proof -
  have late: "e_now E (w_tick w') \<le> e_now E (w_tick later)"
    using assms(8) by (rule clock_monoD [OF assms(2)])
  have same: "rv_marked E s tok t later = rv_marked E s tok t w'"
    "rv_marked E s tok t (w\<lparr>w_tick := n\<rparr>) = rv_marked E s tok t w" for tok t n
    by (simp_all add: rv_marked_def assms(7))
  have empty: "fst (run_state (IsRevoked E s '''') v) = Inr False" for v
    by (simp add: IsRevoked_def)
  note marked = Revoke_all_marked [OF assms(1-6) late]
  have one: "fst (run_state (IsRevoked E s tok) later) = Inr True"
    if "(tok, expiry) \<in> set toks" "e_now E (w_tick later) + millisecond \<le> expiry" for tok expiry
  proof -
    have "tok \<noteq> ''''" using that(1) assms(4) by force
    then show ?thesis
      using marked that by (auto simp: run_IsRevoked [OF assms(1,3)] same)
  qed
  have other: "fst (run_state (IsRevoked E s tok) later) =
      fst (run_state (IsRevoked E s tok) (w\<lparr>w_tick := w_tick later\<rparr>))" if "tok \<notin> fst ` set toks" for tok
    using marked that by (cases "tok = ''''") (simp_all add: empty run_IsRevoked [OF assms(1,3)] same)
  show ?thesis using one other by blast
qed

theorem revoked_until_expiry_witness:
  "fst (run_state (IsRevoked sample_env \<lparr>rv_prefix = ''rv:''\<rparr> ''t2'')
     ((snd (run_state (traverse_list (\<lambda>(tok, expiry). Revoke sample_env \<lparr>rv_prefix = ''rv:''\<rparr> tok expiry)
        [(''t1'', 63900000100 * second), (''t2'', 63900000200 * second)]) sample_world))\<lparr>w_tick := 150\<rparr>)) = Inr True"
proof -
  let ?toks = "[(''t1'', 63900000100 * second), (''t2'', 63900000200 * second)]"
  let ?w = "snd (run_state (traverse_list (\<lambda>(tok, expiry). Revoke sample_env \<lparr>rv_prefix = ''rv:''\<rparr> tok expiry)
        ?toks) sample_world)"
  have "w_tick ?w \<le> 150"
    by (simp add: Revoke_def Let_def run_redis_ok)
  then have "w_tick ?w \<le> w_tick (?w\<lparr>w_tick := 150\<rparr>)" by simp
  then show ?thesis
    using revoked_until_expiry [of sample_env ?toks ?w "\<lparr>rv_prefix = ''rv:''\<rparr>" sample_world "?w\<lparr>w_tick := 150\<rparr>"]
    by (simp del: traverse_run)
qed

end
