(* ===== verification/OAuth_State.thy ===== *)
theory OAuth_State
  imports Cache_Stores
begin

text \<open>
  The two stores of pending OAuth states: the in-memory one of \<^verbatim>\<open>internal/oauth/state_store.go\<close>
  and the Redis-backed one of \<^verbatim>\<open>internal/cache/redis_oauth_state_store.go\<close>. Both implement the
  interface \<^verbatim>\<open>StateStore\<close>, here the locale \<open>oauth_state_store\<close>, in which single use and the
  round trip are proved once; each store is an interpretation of it.
\<close>

record oauth_State =
  os_Provider :: string
  os_RedirectURL :: string
  os_ExpiresAt :: go_time

section \<open>The in-memory store\<close>

text \<open>
  A call holds the mutex throughout, so it is one step; it reads the clock twice, and the two
  readings are its arguments.
\<close>

record inMemoryStateStore =
  ms_ttl :: go_duration
  ms_values :: "string \<rightharpoonup> oauth_State"

definition NewInMemoryStateStore :: "go_duration \<Rightarrow> inMemoryStateStore" where
  "NewInMemoryStateStore ttl = \<lparr>ms_ttl = (if ttl \<le> 0 then minute else ttl), ms_values = (\<lambda>_. None)\<rparr>"

definition cleanupLocked :: "go_time \<Rightarrow> inMemoryStateStore \<Rightarrow> inMemoryStateStore" where
  "cleanupLocked now s =
     s\<lparr>ms_values := (\<lambda>key. case ms_values s key of None \<Rightarrow> None
                     | Some value \<Rightarrow> if os_ExpiresAt value < now then None else Some value)\<rparr>"

definition InMemory_Add ::
  "go_time \<Rightarrow> go_time \<Rightarrow> string \<Rightarrow> string \<Rightarrow> string \<Rightarrow> inMemoryStateStore \<Rightarrow> inMemoryStateStore" where
  "InMemory_Add now1 now2 state provider redirectURL s =
     (let s1 = cleanupLocked now1 s
      in s1\<lparr>ms_values := (ms_values s1)(state \<mapsto>
           \<lparr>os_Provider = provider, os_RedirectURL = redirectURL, os_ExpiresAt = now2 + ms_ttl s1\<rparr>)\<rparr>)"

definition InMemory_Consume ::
  "go_time \<Rightarrow> go_time \<Rightarrow> string \<Rightarrow> inMemoryStateStore \<Rightarrow> oauth_State option \<times> inMemoryStateStore" where
  "InMemory_Consume now1 now2 state s =
     (let s1 = cleanupLocked now1 s
      in case ms_values s1 state of
           None \<Rightarrow> (None, s1)
         | Some value \<Rightarrow>
             (let s2 = s1\<lparr>ms_values := (ms_values s1)(state := None)\<rparr>
              in if os_ExpiresAt value < now2 then (None, s2) else (Some value, s2)))"

section \<open>The Redis-backed store\<close>

record redisOAuthStateStore =
  rs_ttl :: go_duration
  rs_prefix :: string

definition NewRedisOAuthStateStore :: "go_duration \<Rightarrow> bool \<Rightarrow> string + redisOAuthStateStore" where
  "NewRedisOAuthStateStore ttl0 have_rdb =
     (let ttl = (if ttl0 \<le> 0 then minute else ttl0)
      in if \<not> have_rdb then Inl ''redis client is required for oauth state store''
         else Inr \<lparr>rs_ttl = ttl, rs_prefix = ''identra:oauth_state:''\<rparr>)"

definition rs_key :: "redisOAuthStateStore \<Rightarrow> string \<Rightarrow> string" where
  "rs_key s state = rs_prefix s @ state"

text \<open>\<^verbatim>\<open>json.Marshal\<close> of the value struct cannot fail: its fields are strings.\<close>

definition OAuthStateStore_Add ::
  "'r env \<Rightarrow> redisOAuthStateStore \<Rightarrow> string \<Rightarrow> string \<Rightarrow> string \<Rightarrow> ('r world, string + unit) state" where
  "OAuthStateStore_Add E s state provider redirectURL =
     redis_Run E (\<lambda>t r. (Inr (), rd_set (e_redis E) t (rs_key s state)
                                   (e_json_state E provider redirectURL) (rs_ttl s) r))"

definition consumeStateScript ::
  "'r redis_ops \<Rightarrow> string \<Rightarrow> go_time \<Rightarrow> 'r \<Rightarrow> (string + string option) \<times> 'r" where
  "consumeStateScript R key t r =
     (case rd_get R t key r of
        None \<Rightarrow> (Inr None, r)
      | Some v \<Rightarrow> (Inr (Some v), rd_del R t key r))"

definition OAuthStateStore_Consume ::
  "'r env \<Rightarrow> redisOAuthStateStore \<Rightarrow> string \<Rightarrow> ('r world, string + oauth_State option) state" where
  "OAuthStateStore_Consume E s state = do {
     res \<leftarrow> redis_Run E (consumeStateScript (e_redis E) (rs_key s state));
     State_Monad.return
       (case res of
          Inl e \<Rightarrow> Inl e
        | Inr None \<Rightarrow> Inr None
        | Inr (Some v) \<Rightarrow>
            (case e_unjson_state E v of
               None \<Rightarrow> Inl ''json: cannot unmarshal''
             | Some (provider, redirectURL) \<Rightarrow>
                 Inr (Some \<lparr>os_Provider = provider, os_RedirectURL = redirectURL, os_ExpiresAt = 0\<rparr>)))
   }"

text \<open>What is relied on of the JSON codec: decoding a marshalled value gives its fields back.\<close>

definition json_state_ok :: "'r env \<Rightarrow> bool" where
  "json_state_ok E \<longleftrightarrow> (\<forall>p u. e_unjson_state E (e_json_state E p u) = Some (p, u))"

section \<open>The interface\<close>

text \<open>
  \<open>pending t k s\<close> is what a consumer would get for state \<open>k\<close> at instant \<open>t\<close>. \<open>slack\<close> is the
  precision of the store's expiry.
\<close>

locale oauth_state_store =
  fixes add_state :: "go_time \<Rightarrow> string \<Rightarrow> string \<Rightarrow> string \<Rightarrow> 's \<Rightarrow> 's"
    and consume_state :: "go_time \<Rightarrow> string \<Rightarrow> 's \<Rightarrow> (string \<times> string) option \<times> 's"
    and pending :: "go_time \<Rightarrow> string \<Rightarrow> 's \<Rightarrow> (string \<times> string) option"
    and ttl :: "'s \<Rightarrow> go_duration"
    and slack :: go_duration
    and invar :: "'s \<Rightarrow> bool"
  assumes consume_result: "invar s \<Longrightarrow> fst (consume_state t k s) = pending t k s"
    and consume_pending:
      "invar s \<Longrightarrow> t \<le> t' \<Longrightarrow>
       pending t' k' (snd (consume_state t k s)) = (if k' = k then None else pending t' k' s)"
    and add_other: "invar s \<Longrightarrow> t \<le> t' \<Longrightarrow> k' \<noteq> k \<Longrightarrow> pending t' k' (add_state t k p u s) = pending t' k' s"
    and add_live: "invar s \<Longrightarrow> t \<le> t' \<Longrightarrow> t' + slack \<le> t + ttl s \<Longrightarrow> pending t' k (add_state t k p u s) = Some (p, u)"
    and add_expired: "invar s \<Longrightarrow> 0 < ttl s \<Longrightarrow> t + ttl s + slack \<le> t' \<Longrightarrow> pending t' k (add_state t k p u s) = None"
    and invar_add: "invar s \<Longrightarrow> invar (add_state t k p u s)"
    and invar_consume: "invar s \<Longrightarrow> invar (snd (consume_state t k s))"
begin

text \<open>Once nothing is pending, consuming the state at later instants gives nothing.\<close>

lemma consume_all_spent:
  assumes "invar s" and "\<forall>t' \<ge> t. pending t' k s = None" and "sorted (t # ts)"
  shows "set (fst (run_state (traverse_list (\<lambda>t. State (consume_state t k)) ts) s)) \<subseteq> {None}"
  using assms
proof (induction ts arbitrary: t s)
  case (Cons u ts)
  have "pending t' k (snd (consume_state u k s)) = None" if "u \<le> t'" for t'
    using Cons.prems(1) that by (simp add: consume_pending)
  moreover have "fst (consume_state u k s) = None"
    using Cons.prems by (simp add: consume_result)
  ultimately show ?case
    using Cons.IH [of "snd (consume_state u k s)" u] Cons.prems(1,3) by (auto simp: invar_consume)
qed simp

text \<open>A consumer gets what was pending, and no later consumer gets anything.\<close>

lemma single_use:
  assumes "invar s" and "sorted (t # ts)"
  shows "\<exists>rest. fst (run_state (traverse_list (\<lambda>t. State (consume_state t k)) (t # ts)) s) = pending t k s # rest
           \<and> set rest \<subseteq> {None}"
proof -
  have "set (fst (run_state (traverse_list (\<lambda>t. State (consume_state t k)) ts) (snd (consume_state t k s)))) \<subseteq> {None}"
    using assms by (intro consume_all_spent [of _ t]) (auto simp: consume_pending invar_consume)
  then show ?thesis using assms(1) by (simp add: consume_result)
qed

text \<open>
  A state that was added is given out to its first consumer while it lives, with the provider and
  redirect URL it was added with, and to nobody else.
\<close>

lemma add_then_consume:
  assumes "invar s" and "t \<le> t'" and "t' + slack \<le> t + ttl s" and "sorted (t' # ts)"
  shows "\<exists>rest. fst (run_state (traverse_list (\<lambda>t. State (consume_state t k)) (t' # ts)) (add_state t k p u s))
           = Some (p, u) # rest \<and> set rest \<subseteq> {None}"
  using single_use [OF invar_add [OF assms(1)] assms(4)] add_live [OF assms(1-3)] by simp

end

section \<open>Both stores implement it\<close>

definition view_state :: "oauth_State \<Rightarrow> string \<times> string" where
  "view_state v = (os_Provider v, os_RedirectURL v)"

text \<open>The calls of the in-memory store whose second clock reading comes \<open>d\<close> nanoseconds later.\<close>

definition memory_add ::
  "nat \<Rightarrow> go_time \<Rightarrow> string \<Rightarrow> string \<Rightarrow> string \<Rightarrow> inMemoryStateStore \<Rightarrow> inMemoryStateStore" where
  "memory_add d t = InMemory_Add t (t + int d)"

definition memory_consume ::
  "nat \<Rightarrow> go_time \<Rightarrow> string \<Rightarrow> inMemoryStateStore \<Rightarrow> (string \<times> string) option \<times> inMemoryStateStore" where
  "memory_consume d t state s = map_prod (map_option view_state) id (InMemory_Consume t (t + int d) state s)"

definition memory_pending ::
  "nat \<Rightarrow> go_time \<Rightarrow> string \<Rightarrow> inMemoryStateStore \<Rightarrow> (string \<times> string) option" where
  "memory_pending d t state s =
     (case ms_values s state of None \<Rightarrow> None
      | Some v \<Rightarrow> if os_ExpiresAt v < t + int d then None else Some (view_state v))"

interpretation memory_states: oauth_state_store
  "memory_add d" "memory_consume d" "memory_pending d" ms_ttl 1 "\<lambda>_. True" for d
proof unfold_locales
  fix s :: inMemoryStateStore and t t' :: go_time and k k' p u :: string
  show "fst (memory_consume d t k s) = memory_pending d t k s"
    by (auto simp: memory_consume_def memory_pending_def InMemory_Consume_def cleanupLocked_def Let_def
        split: option.splits)
  show "memory_pending d t' k' (snd (memory_consume d t k s)) =
          (if k' = k then None else memory_pending d t' k' s)" if "t \<le> t'"
    using that
    by (auto simp: memory_consume_def memory_pending_def InMemory_Consume_def cleanupLocked_def Let_def
        split: option.splits if_splits)
  show "memory_pending d t' k' (memory_add d t k p u s) = memory_pending d t' k' s" if "t \<le> t'" "k' \<noteq> k"
    using that by (auto simp: memory_add_def memory_pending_def InMemory_Add_def cleanupLocked_def Let_def
        split: option.splits)
  show "t' + 1 \<le> t + ms_ttl s \<Longrightarrow> memory_pending d t' k (memory_add d t k p u s) = Some (p, u)"
    "t + ms_ttl s + 1 \<le> t' \<Longrightarrow> memory_pending d t' k (memory_add d t k p u s) = None"
    by (simp_all add: memory_add_def memory_pending_def InMemory_Add_def cleanupLocked_def Let_def view_state_def)
qed simp_all

definition redis_state_add ::
  "'r env \<Rightarrow> redisOAuthStateStore \<Rightarrow> go_time \<Rightarrow> string \<Rightarrow> string \<Rightarrow> string \<Rightarrow> 'r \<Rightarrow> 'r" where
  "redis_state_add E s t state p u r =
     rd_set (e_redis E) t (rs_key s state) (e_json_state E p u) (rs_ttl s) r"

definition redis_state_consume ::
  "'r env \<Rightarrow> redisOAuthStateStore \<Rightarrow> go_time \<Rightarrow> string \<Rightarrow> 'r \<Rightarrow> (string \<times> string) option \<times> 'r" where
  "redis_state_consume E s t state r =
     (case consumeStateScript (e_redis E) (rs_key s state) t r of
        (Inr (Some v), r') \<Rightarrow> (e_unjson_state E v, r')
      | (_, r') \<Rightarrow> (None, r'))"

definition redis_state_pending ::
  "'r env \<Rightarrow> redisOAuthStateStore \<Rightarrow> go_time \<Rightarrow> string \<Rightarrow> 'r \<Rightarrow> (string \<times> string) option" where
  "redis_state_pending E s t state r = Option.bind (rd_get (e_redis E) t (rs_key s state) r) (e_unjson_state E)"

lemma rs_key_inj [simp]: "rs_key s a = rs_key s b \<longleftrightarrow> a = b"
  by (simp add: rs_key_def)

interpretation redis_states: oauth_state_store
  "redis_state_add E s" "redis_state_consume E s" "redis_state_pending E s" "\<lambda>_. rs_ttl s" millisecond
  "\<lambda>_. redis_laws (e_redis E) \<and> json_state_ok E" for E s
proof unfold_locales
  fix r and t t' :: go_time and k k' p u :: string
  assume ok: "redis_laws (e_redis E) \<and> json_state_ok E"
  then have R: "redis_laws (e_redis E)" and J: "e_unjson_state E (e_json_state E p u) = Some (p, u)"
    by (simp_all add: json_state_ok_def)
  show "fst (redis_state_consume E s t k r) = redis_state_pending E s t k r"
    by (simp add: redis_state_consume_def redis_state_pending_def consumeStateScript_def split: option.splits)
  show "redis_state_pending E s t' k' (snd (redis_state_consume E s t k r)) =
          (if k' = k then None else redis_state_pending E s t' k' r)" if "t \<le> t'"
    using redis_missing_later [OF R _ that, of "rs_key s k" r]
    by (auto simp: redis_state_pending_def redis_state_consume_def consumeStateScript_def
        redis_get_del [OF R that] split: option.splits)
  show "redis_state_pending E s t' k' (redis_state_add E s t k p u r) = redis_state_pending E s t' k' r"
    if "t \<le> t'" "k' \<noteq> k"
    using that by (simp add: redis_state_pending_def redis_state_add_def redis_get_set_other [OF R])
  show "redis_state_pending E s t' k (redis_state_add E s t k p u r) = Some (p, u)"
    if "t \<le> t'" "t' + millisecond \<le> t + rs_ttl s"
    using that J by (simp add: redis_state_pending_def redis_state_add_def redis_get_set [OF R])
  show "redis_state_pending E s t' k (redis_state_add E s t k p u r) = None"
    if "0 < rs_ttl s" "t + rs_ttl s + millisecond \<le> t'"
    using that by (simp add: redis_state_pending_def redis_state_add_def redis_get_set_expired [OF R])
qed simp_all

section \<open>OAuth states are used at most once\<close>

lemma consumeStateScript_cases:
  assumes "redis_laws R"
  shows "fst (consumeStateScript R key t r) = Inr (Some v) \<Longrightarrow> gone R t key (snd (consumeStateScript R key t r))"
    and "gone R t key r \<Longrightarrow> consumeStateScript R key t r = (Inr None, r)"
  using assms by (auto simp: consumeStateScript_def gone_def redis_get_del split: option.splits)

lemma OAuthStateStore_Consume_run:
  assumes "run_state (OAuthStateStore_Consume E s state) w = (x, w')"
  obtains y where "run_state (redis_Run E (consumeStateScript (e_redis E) (rs_key s state))) w = (y, w')"
    and "\<And>v. x = Inr (Some v) \<Longrightarrow> \<exists>j. y = Inr (Some j)"
  using assms by (auto simp: OAuthStateStore_Consume_def split: prod.splits sum.splits option.splits)

interpretation oauth_states: one_time
  "redis_laws (e_redis E) \<and> clock_mono E" "\<lambda>_ :: nat. OAuthStateStore_Consume E s state"
  "\<lambda>x. \<exists>v. x = Inr (Some v)"
  "\<lambda>w. gone (e_redis E) (e_now E (w_tick w)) (rs_key s state) (w_redis w)" for E s state
proof unfold_locales
  fix w w' x and a :: nat
  assume ok: "redis_laws (e_redis E) \<and> clock_mono E"
    and r: "run_state (OAuthStateStore_Consume E s state) w = (x, w')"
  from ok have R: "redis_laws (e_redis E)"
    and le: "e_now E (w_tick w) \<le> e_now E (Suc (w_tick w))" by (simp_all add: clock_monoD)
  obtain y where y: "run_state (redis_Run E (consumeStateScript (e_redis E) (rs_key s state))) w = (y, w')"
    and x: "\<And>v. x = Inr (Some v) \<Longrightarrow> \<exists>j. y = Inr (Some j)"
    using OAuthStateStore_Consume_run [OF r] by metis
  note gone_later' = gone_later [OF _ le]
  show "\<not> (\<exists>v. x = Inr (Some v)) \<and> gone (e_redis E) (e_now E (w_tick w')) (rs_key s state) (w_redis w')"
    if g: "gone (e_redis E) (e_now E (w_tick w)) (rs_key s state) (w_redis w)"
    using y
    by (cases rule: run_redis_cases)
       (use x gone_later' [OF g] consumeStateScript_cases(2) [OF R g] in auto)
  show "gone (e_redis E) (e_now E (w_tick w')) (rs_key s state) (w_redis w')" if some: "\<exists>v. x = Inr (Some v)"
  proof -
    obtain j where j: "y = Inr (Some j)" using x some by blast
    from y show ?thesis
      by (cases rule: run_redis_cases)
         (use j in \<open>auto intro!: gone_later' intro: consumeStateScript_cases(1) [OF R, OF sym]\<close>)
  qed
qed

text \<open>
  (C16) Replaying an OAuth callback: however often a state is consumed from the Redis store, and
  whichever of the calls fail, at most one of them gets the pending login.
\<close>

theorem oauth_state_at_most_once:
  assumes "redis_laws (e_redis E)" and "clock_mono E"
  shows "length (filter (\<lambda>x. \<exists>v. x = Inr (Some v))
           (fst (run_state (traverse_list (\<lambda>_ :: nat. OAuthStateStore_Consume E s state) calls) w))) \<le> 1"
  using assms by (intro oauth_states.at_most_once) simp

theorem oauth_state_at_most_once_witness:
  "length (filter (\<lambda>x. \<exists>v. x = Inr (Some v))
     (fst (run_state (traverse_list
        (\<lambda>_ :: nat. OAuthStateStore_Consume sample_env \<lparr>rs_ttl = minute, rs_prefix = ''s:''\<rparr> ''abc'') [1, 2, 3])
        (sample_world\<lparr>w_redis := [''s:abc'' \<mapsto> (wr_all [''github'', ''http://x''], None)]\<rparr>)))) \<le> 1"
  by (rule oauth_state_at_most_once) simp_all



end
