(* ===== verification/Sqlite_Store.thy ===== *)
theory Sqlite_Store
  imports Sample_Env
begin

text \<open>
  The user and external-identity stores of \<^verbatim>\<open>internal/store/sqlite/store.go\<close>, over the statements
  of \<open>Sqlite_Schema\<close>. A method that fills in fields of the struct it is given returns the filled
  struct. Nullable columns are options on both sides, so the conversions between pointers and
  \<^verbatim>\<open>sql.Null*\<close> values are the identity.
\<close>

section \<open>Domain types and errors\<close>

record UserModel =
  um_ID :: string
  um_CreatedAt :: go_time
  um_UpdatedAt :: go_time
  um_Email :: string
  um_HashedPassword :: "string option"
  um_VerificationHash :: "string option"
  um_LastLoginAt :: "go_time option"

record ExternalIdentityModel =
  xi_ID :: string
  xi_UserID :: string
  xi_Provider :: string
  xi_ProviderUserID :: string
  xi_CreatedAt :: go_time
  xi_UpdatedAt :: go_time

datatype store_error = ErrNotFound | ErrAlreadyExists | StoreError string

fun sql_Error :: "sql_error \<Rightarrow> string" where
  "sql_Error ErrNoRows = ''sql: no rows in result set''"
| "sql_Error (SqlError msg) = msg"

definition isUniqueConstraintError :: "'r env \<Rightarrow> sql_error \<Rightarrow> bool" where
  "isUniqueConstraintError E err =
     (let message = ToLower (e_unicode_lower E) (sql_Error err)
      in Contains message ''unique constraint'' \<or> Contains message ''primary key constraint'')"

definition wrapError :: "'r env \<Rightarrow> sql_error \<Rightarrow> store_error" where
  "wrapError E err =
     (if err = ErrNoRows then ErrNotFound
      else if isUniqueConstraintError E err then ErrAlreadyExists
      else StoreError (sql_Error err))"

definition userToDomain :: "user_row \<Rightarrow> UserModel" where
  "userToDomain user =
     \<lparr>um_ID = ur_id user, um_CreatedAt = ur_created_at user, um_UpdatedAt = ur_updated_at user,
      um_Email = ur_email user, um_HashedPassword = ur_hashed_password user,
      um_VerificationHash = ur_hash user, um_LastLoginAt = ur_last_login_at user\<rparr>"

definition externalIdentityToDomain :: "ident_row \<Rightarrow> ExternalIdentityModel" where
  "externalIdentityToDomain identity =
     \<lparr>xi_ID = ir_id identity, xi_UserID = ir_user_id identity, xi_Provider = ir_provider identity,
      xi_ProviderUserID = ir_provider_user_id identity, xi_CreatedAt = ir_created_at identity,
      xi_UpdatedAt = ir_updated_at identity\<rparr>"

section \<open>Users\<close>

definition UserStore_Create :: "'r env \<Rightarrow> UserModel \<Rightarrow> ('r world, store_error + UserModel) state" where
  "UserStore_Create E user = do {
     now \<leftarrow> time_Now E;
     i \<leftarrow> (if TrimSpace (um_ID user) = '''' then uuid_NewString E else State_Monad.return (um_ID user));
     let createdAt = (if time_IsZero (um_CreatedAt user) then now else um_CreatedAt user);
     r \<leftarrow> db_Exec E (\<lambda>d. map_sum id (\<lambda>d'. (d', ()))
            (CreateUser \<lparr>ur_id = i, ur_created_at = createdAt, ur_updated_at = now, ur_deleted_at = None,
                         ur_email = um_Email user, ur_hashed_password = um_HashedPassword user,
                         ur_hash = um_VerificationHash user, ur_last_login_at = um_LastLoginAt user\<rparr> d));
     State_Monad.return
       (case r of Inl e \<Rightarrow> Inl (wrapError E e)
        | Inr _ \<Rightarrow> Inr (user\<lparr>um_ID := i, um_CreatedAt := createdAt, um_UpdatedAt := now\<rparr>))
   }"

definition UserStore_GetByID :: "'r env \<Rightarrow> string \<Rightarrow> ('r world, store_error + UserModel) state" where
  "UserStore_GetByID E i = do {
     r \<leftarrow> db_Query E (GetUserByID i);
     State_Monad.return (map_sum (wrapError E) userToDomain r)
   }"

definition UserStore_GetByEmail :: "'r env \<Rightarrow> string \<Rightarrow> ('r world, store_error + UserModel) state" where
  "UserStore_GetByEmail E email = do {
     r \<leftarrow> db_Query E (GetUserByEmail email);
     State_Monad.return (map_sum (wrapError E) userToDomain r)
   }"

definition UserStore_Update :: "'r env \<Rightarrow> UserModel \<Rightarrow> ('r world, store_error + UserModel) state" where
  "UserStore_Update E user = do {
     updatedAt \<leftarrow> time_Now E;
     r \<leftarrow> db_Exec E (UpdateUser (um_ID user) (um_Email user) (um_HashedPassword user)
                       (um_VerificationHash user) (um_LastLoginAt user) updatedAt);
     State_Monad.return
       (case r of Inl e \<Rightarrow> Inl (wrapError E e)
        | Inr rows \<Rightarrow> if rows = 0 then Inl ErrNotFound else Inr (user\<lparr>um_UpdatedAt := updatedAt\<rparr>))
   }"

definition UserStore_Delete :: "'r env \<Rightarrow> string \<Rightarrow> ('r world, store_error + unit) state" where
  "UserStore_Delete E i = do {
     now \<leftarrow> time_Now E;
     r \<leftarrow> db_Exec E (SoftDeleteUser i now now);
     State_Monad.return
       (case r of Inl e \<Rightarrow> Inl (wrapError E e) | Inr rows \<Rightarrow> if rows = 0 then Inl ErrNotFound else Inr ())
   }"

definition UserStore_SetPassword :: "'r env \<Rightarrow> string \<Rightarrow> string \<Rightarrow> ('r world, store_error + unit) state" where
  "UserStore_SetPassword E i hashedPassword = do {
     now \<leftarrow> time_Now E;
     r \<leftarrow> db_Exec E (SetUserPassword i (Some hashedPassword) now);
     State_Monad.return
       (case r of Inl e \<Rightarrow> Inl (wrapError E e) | Inr rows \<Rightarrow> if rows = 0 then Inl ErrNotFound else Inr ())
   }"

definition UserStore_List ::
  "'r env \<Rightarrow> int \<Rightarrow> int \<Rightarrow> ('r world, sql_error + UserModel list) state" where
  "UserStore_List E offset0 limit0 = do {
     let offset = (if offset0 < 0 then 0 else offset0);
     let limit = (if limit0 \<le> 0 then -1 else limit0);
     r \<leftarrow> db_Query E (\<lambda>d. Inr (ListUsers_sql offset limit d));
     State_Monad.return (map_sum id (map userToDomain) r)
   }"

definition UserStore_Count :: "'r env \<Rightarrow> ('r world, sql_error + int) state" where
  "UserStore_Count E = db_Query E (\<lambda>d. Inr (int (CountUsers d)))"

section \<open>External identities\<close>

definition ExternalIdentityStore_Create ::
  "'r env \<Rightarrow> ExternalIdentityModel \<Rightarrow> ('r world, store_error + ExternalIdentityModel) state" where
  "ExternalIdentityStore_Create E identity = do {
     now \<leftarrow> time_Now E;
     i \<leftarrow> (if TrimSpace (xi_ID identity) = '''' then uuid_NewString E else State_Monad.return (xi_ID identity));
     let createdAt = (if time_IsZero (xi_CreatedAt identity) then now else xi_CreatedAt identity);
     r \<leftarrow> db_Exec E (\<lambda>d. map_sum id (\<lambda>d'. (d', ()))
            (CreateExternalIdentity
               \<lparr>ir_id = i, ir_user_id = xi_UserID identity, ir_provider = xi_Provider identity,
                ir_provider_user_id = xi_ProviderUserID identity, ir_created_at = createdAt,
                ir_updated_at = now, ir_deleted_at = None\<rparr> d));
     State_Monad.return
       (case r of Inl e \<Rightarrow> Inl (wrapError E e)
        | Inr _ \<Rightarrow> Inr (identity\<lparr>xi_ID := i, xi_CreatedAt := createdAt, xi_UpdatedAt := now\<rparr>))
   }"

definition ExternalIdentityStore_GetByProviderID ::
  "'r env \<Rightarrow> string \<Rightarrow> string \<Rightarrow> ('r world, store_error + ExternalIdentityModel) state" where
  "ExternalIdentityStore_GetByProviderID E provider providerUserID = do {
     r \<leftarrow> db_Query E (GetExternalIdentityByProviderID provider providerUserID);
     State_Monad.return (map_sum (wrapError E) externalIdentityToDomain r)
   }"

definition ExternalIdentityStore_GetByUserID ::
  "'r env \<Rightarrow> string \<Rightarrow> ('r world, sql_error + ExternalIdentityModel list) state" where
  "ExternalIdentityStore_GetByUserID E userID = do {
     r \<leftarrow> db_Query E (\<lambda>d. Inr (ListExternalIdentitiesByUserID userID d));
     State_Monad.return (map_sum id (map externalIdentityToDomain) r)
   }"

section \<open>What the errors mean\<close>

text \<open>A uniqueness violation of the schema is recognised by its message.\<close>

lemma wrap_unique_failed: "is_ascii column \<Longrightarrow> wrapError E (unique_failed column) = ErrAlreadyExists"
proof -
  assume "is_ascii column"
  then have "ToLower (e_unicode_lower E) (sql_Error (unique_failed column)) =
      ''constraint failed: unique constraint failed: '' @ map lower_char column"
    by (simp add: unique_failed_def ToLower_def is_ascii_def lower_char_def char_of_def bit_Suc_0_iff)
  moreover have "sublist ''unique constraint'' (''constraint failed: unique constraint failed: '' @ r)" for r
    unfolding sublist_def
    by (intro exI [of _ "''constraint failed: ''"] exI [of _ "'' failed: '' @ r"]) simp
  ultimately show ?thesis
    by (simp add: wrapError_def isUniqueConstraintError_def Contains_def Let_def unique_failed_def)
qed

lemma wrap_no_rows [simp]: "wrapError E ErrNoRows = ErrNotFound"
  by (simp add: wrapError_def)

lemma wrap_foreign_key: "wrapError E foreign_key_failed = StoreError ''constraint failed: FOREIGN KEY constraint failed''"
proof -
  have "\<not> sublist ''unique constraint'' ''constraint failed: foreign key constraint failed''"
    "\<not> sublist ''primary key constraint'' ''constraint failed: foreign key constraint failed''"
    by (simp_all add: sublist_Cons_right)
  then show ?thesis
    by (simp add: wrapError_def isUniqueConstraintError_def Contains_def Let_def foreign_key_failed_def
        ToLower_def is_ascii_def lower_char_def char_of_def bit_Suc_0_iff)
qed

section \<open>The schema constraints hold after every operation\<close>

lemma maintains_queries [frame]: "maintains (\<lambda>w. I (w_db w)) (db_Query E q)"
  by (auto simp: maintains_def run_db_Query)

lemma maintains_effects [frame]:
  "maintains (\<lambda>w. I (w_db w)) (time_Now E)" "maintains (\<lambda>w. I (w_db w)) (uuid_NewString E)"
  "maintains (\<lambda>w. I (w_db w)) (rand_Read E k)" "maintains (\<lambda>w. I (w_db w)) (rand_Int E k)"
  by (simp_all add: maintains_def)

lemma maintains_redis_Run [frame]: "maintains (\<lambda>w. I (w_db w)) (redis_Run E c)"
  using keeps_redis_Run [of w_db E c] maintains_keeps [of w_db "redis_Run E c" I] by simp

lemma maintains_send_Mail [frame]: "maintains (\<lambda>w. I (w_db w)) (send_Mail E m)"
  using keeps_send_Mail [of w_db E m] maintains_keeps [of w_db "send_Mail E m" I] by simp

text \<open>\<open>db_safe m\<close>: running \<open>m\<close> keeps the constraints.\<close>

abbreviation db_safe :: "('r world, 'a) state \<Rightarrow> bool" where
  "db_safe m \<equiv> maintains (\<lambda>w. db_ok (w_db w)) m"

lemma db_safe_CreateUser [frame]: "db_safe (db_Exec E (\<lambda>d. map_sum id (\<lambda>d'. (d', ())) (CreateUser arg d)))"
proof (rule maintains_db_Exec)
  fix d d' a assume "db_ok d" and "map_sum id (\<lambda>d'. (d', ())) (CreateUser arg d) = Inr (d', a)"
  then show "db_ok d'" by (cases "CreateUser arg d") (auto dest: CreateUser_ok)
qed

lemma db_safe_CreateExternalIdentity [frame]:
  "db_safe (db_Exec E (\<lambda>d. map_sum id (\<lambda>d'. (d', ())) (CreateExternalIdentity arg d)))"
proof (rule maintains_db_Exec)
  fix d d' a assume "db_ok d" and "map_sum id (\<lambda>d'. (d', ())) (CreateExternalIdentity arg d) = Inr (d', a)"
  then show "db_ok d'" by (cases "CreateExternalIdentity arg d") (auto dest: CreateExternalIdentity_ok)
qed

lemma db_safe_updates [frame]:
  "db_safe (db_Exec E (UpdateUser i e hp h l t))" "db_safe (db_Exec E (SoftDeleteUser i t t'))"
  "db_safe (db_Exec E (SetUserPassword i pw t))"
  by (rule maintains_db_Exec, blast dest: UpdateUser_ok SoftDeleteUser_ok SetUserPassword_ok)+

lemma db_safe_stores [frame]:
  "db_safe (UserStore_Create E user)" "db_safe (UserStore_GetByID E i)" "db_safe (UserStore_GetByEmail E e)"
  "db_safe (UserStore_Update E user)" "db_safe (UserStore_Delete E i)" "db_safe (UserStore_SetPassword E i pw)"
  "db_safe (UserStore_List E off lim)" "db_safe (UserStore_Count E)"
  "db_safe (ExternalIdentityStore_Create E ident)" "db_safe (ExternalIdentityStore_GetByProviderID E p k)"
  "db_safe (ExternalIdentityStore_GetByUserID E i)"
  unfolding UserStore_Create_def UserStore_GetByID_def UserStore_GetByEmail_def UserStore_Update_def
    UserStore_Delete_def UserStore_SetPassword_def UserStore_List_def UserStore_Count_def
    ExternalIdentityStore_Create_def ExternalIdentityStore_GetByProviderID_def
    ExternalIdentityStore_GetByUserID_def
  by (intro frame)+

end
