(* ===== verification/Sqlite_Service_Accounts.thy ===== *)
theory Sqlite_Service_Accounts
  imports Sqlite_Store
begin

text \<open>
  The service-account store of \<^verbatim>\<open>internal/store/sqlite/service_accounts.go\<close> and the audit store of
  \<^verbatim>\<open>internal/store/sqlite/audit.go\<close>, with the types of \<^verbatim>\<open>internal/serviceaccount\<close> they persist.
  Each SQL statement of these files is a function on the database; the methods that open a
  transaction run in \<open>db_Transact\<close>. The JSON columns hold the values themselves, so encoding and
  decoding them does not appear.
\<close>

section \<open>Types\<close>

record Account =
  ac_ID :: string
  ac_Name :: string
  ac_Scopes :: "string list"
  ac_CreatedAt :: go_time
  ac_DisabledAt :: "go_time option"

record BootstrapRecord =
  br_Account :: Account
  br_CredentialID :: string
  br_SecretHash :: string

datatype sa_error =
    SA_ErrAlreadyExists | SA_ErrBootstrapCompleted | SA_ErrNotFound | SA_ErrInvalidCredential
  | SA_Error string

record AuditEvent =
  ae_ID :: string
  ae_OccurredAt :: go_time
  ae_ActorType :: string
  ae_ActorID :: string
  ae_Action :: string
  ae_ResourceType :: string
  ae_ResourceID :: string
  ae_Metadata :: "(string \<times> string) list"

abbreviation bootstrapCompletedKey :: string where
  "bootstrapCompletedKey \<equiv> ''service_account_bootstrap_completed''"

definition mapServiceAccountError :: "'r env \<Rightarrow> sql_error \<Rightarrow> sa_error" where
  "mapServiceAccountError E err =
     (if isUniqueConstraintError E err then SA_ErrAlreadyExists else SA_Error (sql_Error err))"

text \<open>\<^verbatim>\<open>fmt.Errorf("...: %w", err)\<close>.\<close>

definition sa_wrap :: "string \<Rightarrow> sql_error \<Rightarrow> sa_error" where
  "sa_wrap what err = SA_Error (what @ '': '' @ sql_Error err)"

section \<open>Statements\<close>

definition InsertServiceAccount :: "Account \<Rightarrow> db \<Rightarrow> sql_error + db \<times> unit" where
  "InsertServiceAccount a d =
     (if ac_ID a \<in> set (map ar_id (db_accounts d)) then Inl (unique_failed ''service_accounts.id'')
      else if ac_Name a \<in> set (map ar_name (db_accounts d)) then Inl (unique_failed ''service_accounts.name'')
      else Inr (d\<lparr>db_accounts := db_accounts d @
             [\<lparr>ar_id = ac_ID a, ar_name = ac_Name a, ar_scopes = ac_Scopes a, ar_created_at = ac_CreatedAt a,
               ar_updated_at = ac_CreatedAt a, ar_disabled_at = None\<rparr>]\<rparr>, ()))"

definition InsertCredential :: "string \<Rightarrow> string \<Rightarrow> string \<Rightarrow> go_time \<Rightarrow> db \<Rightarrow> sql_error + db \<times> unit" where
  "InsertCredential i account secret now d =
     (if i \<in> set (map cr_id (db_creds d)) then Inl (unique_failed ''service_account_credentials.id'')
      else if secret \<in> set (map cr_secret_hash (db_creds d))
        then Inl (unique_failed ''service_account_credentials.secret_hash'')
      else if account \<notin> set (map ar_id (db_accounts d)) then Inl foreign_key_failed
      else Inr (d\<lparr>db_creds := db_creds d @
             [\<lparr>cr_id = i, cr_service_account_id = account, cr_secret_hash = secret, cr_created_at = now,
               cr_expires_at = None, cr_revoked_at = None\<rparr>]\<rparr>, ()))"

text \<open>The \<^verbatim>\<open>WHERE\<close> clause of the credential check.\<close>

definition live_credential :: "string \<Rightarrow> string \<Rightarrow> go_time \<Rightarrow> cred_row \<Rightarrow> bool" where
  "live_credential account secret now c \<longleftrightarrow>
     cr_service_account_id c = account \<and> cr_secret_hash c = secret \<and> cr_revoked_at c = None \<and>
     (case cr_expires_at c of None \<Rightarrow> True | Some t \<Rightarrow> now < t)"

definition rowToAccount :: "account_row \<Rightarrow> Account" where
  "rowToAccount r =
     \<lparr>ac_ID = ar_id r, ac_Name = ar_name r, ac_Scopes = ar_scopes r, ac_CreatedAt = ar_created_at r,
      ac_DisabledAt = ar_disabled_at r\<rparr>"

definition SelectAuthenticated :: "string \<Rightarrow> string \<Rightarrow> go_time \<Rightarrow> db \<Rightarrow> sql_error + account_row" where
  "SelectAuthenticated clientID secretHash now d =
     (case find (\<lambda>r. ar_id r = clientID \<and> ar_disabled_at r = None \<and>
                     (\<exists>c \<in> set (db_creds d). live_credential (ar_id r) secretHash now c)) (db_accounts d) of
        None \<Rightarrow> Inl ErrNoRows | Some r \<Rightarrow> Inr r)"

definition SelectAccountBy :: "(account_row \<Rightarrow> bool) \<Rightarrow> db \<Rightarrow> sql_error + account_row" where
  "SelectAccountBy P d = (case find P (db_accounts d) of None \<Rightarrow> Inl ErrNoRows | Some r \<Rightarrow> Inr r)"

definition ListAccounts_sql :: "db \<Rightarrow> account_row list" where
  "ListAccounts_sql d = sort_key ar_created_at (sort_key ar_id (db_accounts d))"

definition DisableAccount_sql :: "string \<Rightarrow> go_time \<Rightarrow> db \<Rightarrow> sql_error + db \<times> nat" where
  "DisableAccount_sql clientID now d =
     (let P = (\<lambda>r. ar_id r = clientID \<and> ar_disabled_at r = None)
      in Inr (d\<lparr>db_accounts := map (\<lambda>r. if P r then r\<lparr>ar_disabled_at := Some now, ar_updated_at := now\<rparr> else r)
                                (db_accounts d)\<rparr>, length (filter P (db_accounts d))))"

definition RevokeCredentials_sql :: "string \<Rightarrow> go_time \<Rightarrow> db \<Rightarrow> sql_error + db \<times> unit" where
  "RevokeCredentials_sql clientID now d =
     Inr (d\<lparr>db_creds := map (\<lambda>c. if cr_service_account_id c = clientID \<and> cr_revoked_at c = None
                                then c\<lparr>cr_revoked_at := Some now\<rparr> else c) (db_creds d)\<rparr>, ())"

definition SelectSystemState :: "string \<Rightarrow> db \<Rightarrow> sql_error + string" where
  "SelectSystemState key d =
     (case find (\<lambda>r. sy_key r = key) (db_system d) of None \<Rightarrow> Inl ErrNoRows | Some r \<Rightarrow> Inr (sy_value r))"

definition UpsertSystemState :: "string \<Rightarrow> string \<Rightarrow> go_time \<Rightarrow> db \<Rightarrow> sql_error + db \<times> unit" where
  "UpsertSystemState key value now d =
     (if key \<in> set (map sy_key (db_system d))
      then Inr (d\<lparr>db_system := map (\<lambda>r. if sy_key r = key then r\<lparr>sy_value := value, sy_updated_at := now\<rparr> else r)
                                (db_system d)\<rparr>, ())
      else Inr (d\<lparr>db_system := db_system d @ [\<lparr>sy_key = key, sy_value = value, sy_updated_at = now\<rparr>]\<rparr>, ()))"

definition InsertAuditEvent :: "AuditEvent \<Rightarrow> db \<Rightarrow> sql_error + db \<times> unit" where
  "InsertAuditEvent ev d =
     (if ae_ID ev \<in> set (map au_id (db_audit d)) then Inl (unique_failed ''audit_events.id'')
      else Inr (d\<lparr>db_audit := db_audit d @
             [\<lparr>au_id = ae_ID ev, au_occurred_at = ae_OccurredAt ev, au_actor_type = ae_ActorType ev,
               au_actor_id = ae_ActorID ev, au_action = ae_Action ev, au_resource_type = ae_ResourceType ev,
               au_resource_id = ae_ResourceID ev, au_metadata = ae_Metadata ev\<rparr>]\<rparr>, ()))"

text \<open>\<^verbatim>\<open>ORDER BY occurred_at DESC, id DESC LIMIT ? OFFSET ?\<close>.\<close>

definition audit_newest_first :: "db \<Rightarrow> audit_row list" where
  "audit_newest_first d = sort_key (\<lambda>r. - au_occurred_at r) (rev (sort_key au_id (db_audit d)))"

definition ListAudit_sql :: "int \<Rightarrow> int \<Rightarrow> db \<Rightarrow> audit_row list" where
  "ListAudit_sql limit offset d = limit_offset limit offset (audit_newest_first d)"

section \<open>The service-account store\<close>

definition insertServiceAccount :: "'r env \<Rightarrow> BootstrapRecord \<Rightarrow> ('r world, sa_error + unit) state" where
  "insertServiceAccount E record = do {
     r1 \<leftarrow> db_Exec E (InsertServiceAccount (br_Account record));
     case r1 of
       Inl e \<Rightarrow> State_Monad.return (Inl (mapServiceAccountError E e))
     | Inr _ \<Rightarrow> do {
         r2 \<leftarrow> db_Exec E (InsertCredential (br_CredentialID record) (ac_ID (br_Account record))
                            (br_SecretHash record) (ac_CreatedAt (br_Account record)));
         State_Monad.return (map_sum (mapServiceAccountError E) id r2)
       }
   }"

definition ServiceAccountStore_Create :: "'r env \<Rightarrow> BootstrapRecord \<Rightarrow> ('r world, sa_error + unit) state" where
  "ServiceAccountStore_Create E record =
     db_Transact E (sa_wrap ''begin service-account creation'') (mapServiceAccountError E) (do {
       r \<leftarrow> insertServiceAccount E record;
       State_Monad.return (case r of Inl e \<Rightarrow> Rollback (Inl e) | Inr u \<Rightarrow> Commit u)
     })"

definition ServiceAccountStore_Authenticate ::
  "'r env \<Rightarrow> string \<Rightarrow> string \<Rightarrow> go_time \<Rightarrow> ('r world, sa_error + Account) state" where
  "ServiceAccountStore_Authenticate E clientID secretHash now = do {
     r \<leftarrow> db_Query E (SelectAuthenticated clientID secretHash now);
     State_Monad.return
       (case r of
          Inl e \<Rightarrow> Inl (if e = ErrNoRows then SA_ErrInvalidCredential else sa_wrap ''authenticate service account'' e)
        | Inr row \<Rightarrow> Inr ((rowToAccount row)\<lparr>ac_DisabledAt := None\<rparr>))
   }"

definition ServiceAccountStore_GetByID :: "'r env \<Rightarrow> string \<Rightarrow> ('r world, sa_error + Account) state" where
  "ServiceAccountStore_GetByID E clientID = do {
     r \<leftarrow> db_Query E (SelectAccountBy (\<lambda>row. ar_id row = clientID));
     State_Monad.return
       (case r of
          Inl e \<Rightarrow> Inl (if e = ErrNoRows then SA_ErrNotFound else sa_wrap ''get service account'' e)
        | Inr row \<Rightarrow> Inr (rowToAccount row))
   }"

definition ServiceAccountStore_List :: "'r env \<Rightarrow> ('r world, sa_error + Account list) state" where
  "ServiceAccountStore_List E = do {
     r \<leftarrow> db_Query E (\<lambda>d. Inr (ListAccounts_sql d));
     State_Monad.return (map_sum (sa_wrap ''list service accounts'') (map rowToAccount) r)
   }"

definition ServiceAccountStore_Disable ::
  "'r env \<Rightarrow> string \<Rightarrow> go_time \<Rightarrow> ('r world, sa_error + Account) state" where
  "ServiceAccountStore_Disable E clientID now = do {
     r \<leftarrow> db_Exec E (DisableAccount_sql clientID now);
     case r of
       Inl e \<Rightarrow> State_Monad.return (Inl (sa_wrap ''disable service account'' e))
     | Inr rows \<Rightarrow>
         if rows = 0 then State_Monad.return (Inl SA_ErrNotFound)
         else ServiceAccountStore_GetByID E clientID
   }"

definition ServiceAccountStore_RotateCredential ::
  "'r env \<Rightarrow> string \<Rightarrow> string \<Rightarrow> string \<Rightarrow> go_time \<Rightarrow> ('r world, sa_error + unit) state" where
  "ServiceAccountStore_RotateCredential E clientID credentialID secretHash now =
     db_Transact E (sa_wrap ''begin credential rotation'') (\<lambda>e. SA_Error (sql_Error e)) (do {
       r0 \<leftarrow> db_Query E (SelectAccountBy (\<lambda>row. ar_id row = clientID \<and> ar_disabled_at row = None));
       case r0 of
         Inl e \<Rightarrow> State_Monad.return (Rollback (Inl
                    (if e = ErrNoRows then SA_ErrNotFound else sa_wrap ''find service account for rotation'' e)))
       | Inr _ \<Rightarrow> do {
           r1 \<leftarrow> db_Exec E (RevokeCredentials_sql clientID now);
           case r1 of
             Inl e \<Rightarrow> State_Monad.return (Rollback (Inl (sa_wrap ''revoke service-account credentials'' e)))
           | Inr _ \<Rightarrow> do {
               r2 \<leftarrow> db_Exec E (InsertCredential credentialID clientID secretHash now);
               State_Monad.return
                 (case r2 of Inl e \<Rightarrow> Rollback (Inl (mapServiceAccountError E e)) | Inr u \<Rightarrow> Commit u)
             }
         }
     })"

text \<open>Nobody is found (\<open>None\<close>), or the account of that name.\<close>

definition findServiceAccountByName :: "'r env \<Rightarrow> string \<Rightarrow> ('r world, sa_error + Account option) state" where
  "findServiceAccountByName E name = do {
     r \<leftarrow> db_Query E (SelectAccountBy (\<lambda>row. ar_name row = name));
     State_Monad.return
       (case r of
          Inl e \<Rightarrow> if e = ErrNoRows then Inr None else Inl (sa_wrap ''find service account'' e)
        | Inr row \<Rightarrow> Inr (Some ((rowToAccount row)\<lparr>ac_DisabledAt := None\<rparr>)))
   }"

abbreviation AuditActorSystem :: string where "AuditActorSystem \<equiv> ''system''"

definition bootstrap_write ::
  "'r env \<Rightarrow> BootstrapRecord \<Rightarrow> ('r world, (sa_error, Account \<times> bool) tx_end) state" where
  "bootstrap_write E record = do {
     let account = br_Account record;
     r1 \<leftarrow> insertServiceAccount E record;
     case r1 of
       Inl e \<Rightarrow> State_Monad.return (Rollback (Inl e))
     | Inr _ \<Rightarrow> do {
         r2 \<leftarrow> db_Exec E (UpsertSystemState bootstrapCompletedKey (ac_ID account) (ac_CreatedAt account));
         case r2 of
           Inl e \<Rightarrow> State_Monad.return (Rollback (Inl (sa_wrap ''write bootstrap state'' e)))
         | Inr _ \<Rightarrow> do {
             i \<leftarrow> uuid_NewString E;
             r3 \<leftarrow> db_Exec E (InsertAuditEvent
                    \<lparr>ae_ID = i, ae_OccurredAt = ac_CreatedAt account, ae_ActorType = AuditActorSystem,
                     ae_ActorID = ''bootstrap'', ae_Action = ''service_account.bootstrap'',
                     ae_ResourceType = ''service_account'', ae_ResourceID = ac_ID account,
                     ae_Metadata = [(''name'', ac_Name account)]\<rparr>);
             State_Monad.return
               (case r3 of
                  Inl e \<Rightarrow> Rollback (Inl (sa_wrap ''record bootstrap audit event'' e))
                | Inr _ \<Rightarrow> Commit (account, True))
           }
       }
   }"

definition ServiceAccountStore_Bootstrap ::
  "'r env \<Rightarrow> BootstrapRecord \<Rightarrow> bool \<Rightarrow> bool \<Rightarrow> ('r world, sa_error + Account \<times> bool) state" where
  "ServiceAccountStore_Bootstrap E record ifNotExists force =
     db_Transact E (sa_wrap ''begin service-account bootstrap'') (mapServiceAccountError E) (do {
       r0 \<leftarrow> findServiceAccountByName E (ac_Name (br_Account record));
       case r0 of
         Inl e \<Rightarrow> State_Monad.return (Rollback (Inl e))
       | Inr (Some existing) \<Rightarrow>
           State_Monad.return (Rollback (if ifNotExists then Inr (existing, False) else Inl SA_ErrAlreadyExists))
       | Inr None \<Rightarrow> do {
           r1 \<leftarrow> db_Query E (SelectSystemState bootstrapCompletedKey);
           case r1 of
             Inl e \<Rightarrow>
               if e \<noteq> ErrNoRows then State_Monad.return (Rollback (Inl (sa_wrap ''read bootstrap state'' e)))
               else bootstrap_write E record
           | Inr marker \<Rightarrow>
               if \<not> force then State_Monad.return (Rollback (Inl SA_ErrBootstrapCompleted))
               else bootstrap_write E record
         }
     })"

section \<open>The audit store\<close>

definition rowToEvent :: "audit_row \<Rightarrow> AuditEvent" where
  "rowToEvent r =
     \<lparr>ae_ID = au_id r, ae_OccurredAt = au_occurred_at r, ae_ActorType = au_actor_type r,
      ae_ActorID = au_actor_id r, ae_Action = au_action r, ae_ResourceType = au_resource_type r,
      ae_ResourceID = au_resource_id r, ae_Metadata = au_metadata r\<rparr>"

definition AuditStore_Record :: "'r env \<Rightarrow> AuditEvent \<Rightarrow> ('r world, string + unit) state" where
  "AuditStore_Record E ev = do {
     r \<leftarrow> db_Exec E (InsertAuditEvent ev);
     State_Monad.return (map_sum (\<lambda>e. ''record audit event: '' @ sql_Error e) id r)
   }"

definition AuditStore_List :: "'r env \<Rightarrow> int \<Rightarrow> int \<Rightarrow> ('r world, string + AuditEvent list) state" where
  "AuditStore_List E offset limit = do {
     r \<leftarrow> db_Query E (\<lambda>d. Inr (ListAudit_sql limit offset d));
     State_Monad.return (map_sum (\<lambda>e. ''list audit events: '' @ sql_Error e) (map rowToEvent) r)
   }"

section \<open>Constraints\<close>

lemma InsertServiceAccount_ok: "db_ok d \<Longrightarrow> InsertServiceAccount a d = Inr (d', u) \<Longrightarrow> db_ok d'"
  by (auto simp: InsertServiceAccount_def db_ok_def users_ok_def idents_ok_def accounts_ok_def
      image_subset_iff split: if_splits)

lemma InsertCredential_ok: "db_ok d \<Longrightarrow> InsertCredential i a s t d = Inr (d', u) \<Longrightarrow> db_ok d'"
  by (auto simp: InsertCredential_def db_ok_def users_ok_def idents_ok_def accounts_ok_def
      image_subset_iff split: if_splits)

text \<open>The constraints depend on a few columns only.\<close>

lemma db_ok_columns:
  assumes "db_ok d" and "db_users d' = db_users d" and "db_idents d' = db_idents d"
    and "map ar_id (db_accounts d') = map ar_id (db_accounts d)"
    and "map ar_name (db_accounts d') = map ar_name (db_accounts d)"
    and "map cr_id (db_creds d') = map cr_id (db_creds d)"
    and "map cr_secret_hash (db_creds d') = map cr_secret_hash (db_creds d)"
    and "map cr_service_account_id (db_creds d') = map cr_service_account_id (db_creds d)"
    and "map sy_key (db_system d') = map sy_key (db_system d)" and "db_audit d' = db_audit d"
  shows "db_ok d'"
proof -
  have "ar_id ` set (db_accounts d') = ar_id ` set (db_accounts d)"
    and "cr_service_account_id ` set (db_creds d') = cr_service_account_id ` set (db_creds d)"
    using assms(4,8) by (metis list.set_map)+
  with assms show ?thesis
    by (simp add: db_ok_def users_ok_def idents_ok_def accounts_ok_def)
qed

lemma DisableAccount_ok: "db_ok d \<Longrightarrow> DisableAccount_sql i t d = Inr (d', n) \<Longrightarrow> db_ok d'"
  by (erule db_ok_columns) (auto simp: DisableAccount_sql_def Let_def)

lemma RevokeCredentials_ok: "db_ok d \<Longrightarrow> RevokeCredentials_sql i t d = Inr (d', u) \<Longrightarrow> db_ok d'"
  by (erule db_ok_columns) (auto simp: RevokeCredentials_sql_def)

lemma UpsertSystemState_ok:
  assumes "db_ok d" and "UpsertSystemState k v t d = Inr (d', u)"
  shows "db_ok d'"
proof (cases "k \<in> set (map sy_key (db_system d))")
  case True
  with assms show ?thesis
    by (intro db_ok_columns [OF assms(1)]) (auto simp: UpsertSystemState_def)
next
  case False
  then have d': "d' = d\<lparr>db_system := db_system d @ [\<lparr>sy_key = k, sy_value = v, sy_updated_at = t\<rparr>]\<rparr>"
    using assms(2) by (simp add: UpsertSystemState_def)
  show ?thesis
    using assms(1) False by (simp add: d' db_ok_def users_ok_def idents_ok_def accounts_ok_def)
qed

lemma InsertAuditEvent_ok: "db_ok d \<Longrightarrow> InsertAuditEvent ev d = Inr (d', u) \<Longrightarrow> db_ok d'"
  by (auto simp: InsertAuditEvent_def db_ok_def users_ok_def idents_ok_def accounts_ok_def
      image_subset_iff split: if_splits)

lemma db_safe_account_statements [frame]:
  "db_safe (db_Exec E (InsertServiceAccount a))" "db_safe (db_Exec E (InsertCredential i s h t))"
  "db_safe (db_Exec E (DisableAccount_sql i t))" "db_safe (db_Exec E (RevokeCredentials_sql i t))"
  "db_safe (db_Exec E (UpsertSystemState k v t))" "db_safe (db_Exec E (InsertAuditEvent ev))"
  by (rule maintains_db_Exec, blast dest: InsertServiceAccount_ok InsertCredential_ok DisableAccount_ok
      RevokeCredentials_ok UpsertSystemState_ok InsertAuditEvent_ok)+

lemma db_safe_insertServiceAccount [frame]: "db_safe (insertServiceAccount E record)"
  unfolding insertServiceAccount_def by (intro frame)

lemma db_safe_lookups [frame]:
  "db_safe (ServiceAccountStore_Authenticate E c s t)" "db_safe (ServiceAccountStore_GetByID E c)"
  "db_safe (ServiceAccountStore_List E)" "db_safe (findServiceAccountByName E n)"
  "db_safe (AuditStore_Record E ev)" "db_safe (AuditStore_List E off lim)"
  unfolding ServiceAccountStore_Authenticate_def ServiceAccountStore_GetByID_def ServiceAccountStore_List_def
    findServiceAccountByName_def AuditStore_Record_def AuditStore_List_def
  by (intro frame)+

lemma db_safe_account_changes [frame]:
  "db_safe (ServiceAccountStore_Create E record)" "db_safe (ServiceAccountStore_Disable E c t)"
  "db_safe (ServiceAccountStore_RotateCredential E c i s t)" "db_safe (bootstrap_write E record)"
  unfolding ServiceAccountStore_Create_def ServiceAccountStore_Disable_def
    ServiceAccountStore_RotateCredential_def bootstrap_write_def
  by (intro frame maintains_db_Transact)+

lemma db_safe_Bootstrap [frame]: "db_safe (ServiceAccountStore_Bootstrap E record ifNotExists force)"
  unfolding ServiceAccountStore_Bootstrap_def by (intro frame maintains_db_Transact)

end
