(* ===== verification/Service_Account.thy ===== *)
theory Service_Account
  imports Sqlite_Service_Accounts
begin

text \<open>
  The credential lifecycle of \<^verbatim>\<open>internal/serviceaccount/bootstrap.go\<close>, on the SQLite store that
  implements its \<^verbatim>\<open>Store\<close> interface in the program. SHA-256 is the parameter \<open>e_sha256\<close>.
\<close>

abbreviation clientIDPrefix :: string where "clientIDPrefix \<equiv> ''isa_''"
abbreviation credentialIDPrefix :: string where "credentialIDPrefix \<equiv> ''iac_''"
abbreviation clientSecretPrefix :: string where "clientSecretPrefix \<equiv> ''is_''"

section \<open>Scopes\<close>

text \<open>The regular expression \<^verbatim>\<open>^[a-zA-Z0-9][a-zA-Z0-9._:*/-]{0,127}$\<close>.\<close>

definition alnum :: "char \<Rightarrow> bool" where
  "alnum c \<longleftrightarrow> (let n = of_char c :: nat in (97 \<le> n \<and> n \<le> 122) \<or> (65 \<le> n \<and> n \<le> 90) \<or> (48 \<le> n \<and> n \<le> 57))"

definition scope_char :: "char \<Rightarrow> bool" where
  "scope_char c \<longleftrightarrow> alnum c \<or> c \<in> set ''._:*/-''"

fun scopePattern :: "string \<Rightarrow> bool" where
  "scopePattern [] = False"
| "scopePattern (c # cs) = (alnum c \<and> length cs \<le> 127 \<and> list_all scope_char cs)"

text \<open>The loop of \<^verbatim>\<open>normalizeScopes\<close>: the keys of the map so far are the list \<open>unique\<close>.\<close>

fun collect_scopes :: "(string \<Rightarrow> string) \<Rightarrow> string list \<Rightarrow> string list \<Rightarrow> string + string list" where
  "collect_scopes uni unique [] = Inr unique"
| "collect_scopes uni unique (value # vals) =
     (let scope = TrimSpace value
      in if \<not> scopePattern scope then Inl (''invalid scope '' @ Quote uni value)
         else collect_scopes uni (if scope \<in> set unique then unique else unique @ [scope]) vals)"

definition normalizeScopes :: "(string \<Rightarrow> string) \<Rightarrow> string list \<Rightarrow> string + string list" where
  "normalizeScopes uni vals =
     (case collect_scopes uni [] vals of
        Inl e \<Rightarrow> Inl e
      | Inr unique \<Rightarrow> if unique = [] then Inl ''at least one scope is required'' else Inr (sort unique))"

section \<open>Credentials\<close>

definition secretHash :: "'r env \<Rightarrow> string \<Rightarrow> string" where
  "secretHash E secret = b64_encode b64_url (e_sha256 E secret)"

definition randomValue :: "'r env \<Rightarrow> string \<Rightarrow> nat \<Rightarrow> ('r world, string + string) state" where
  "randomValue E pre len = do {
     value \<leftarrow> rand_Read E len;
     State_Monad.return
       (case value of None \<Rightarrow> Inl ''rand'' | Some b \<Rightarrow> Inr (pre @ b64_encode b64_url b))
   }"

definition check_name :: "string \<Rightarrow> string option" where
  "check_name name =
     (if name = '''' then Some ''service account name is required''
      else if 128 < length name then Some ''service account name must not exceed 128 characters''
      else None)"

definition new_account :: "string \<Rightarrow> string \<Rightarrow> string list \<Rightarrow> go_time \<Rightarrow> Account" where
  "new_account i name scopes now =
     \<lparr>ac_ID = i, ac_Name = name, ac_Scopes = scopes, ac_CreatedAt = now, ac_DisabledAt = None\<rparr>"

definition newRecord ::
  "'r env \<Rightarrow> string \<Rightarrow> string list \<Rightarrow> ('r world, sa_error + BootstrapRecord \<times> string) state" where
  "newRecord E name0 scopes = do {
     let name = TrimSpace name0;
     case check_name name of
       Some msg \<Rightarrow> State_Monad.return (Inl (SA_Error msg))
     | None \<Rightarrow>
         (case normalizeScopes (e_unicode_quote E) scopes of
            Inl e \<Rightarrow> State_Monad.return (Inl (SA_Error e))
          | Inr normalizedScopes \<Rightarrow> do {
              r1 \<leftarrow> randomValue E clientIDPrefix 18;
              case r1 of Inl e \<Rightarrow> State_Monad.return (Inl (SA_Error (''generate client ID: '' @ e)))
              | Inr clientID \<Rightarrow> do {
                  r2 \<leftarrow> randomValue E credentialIDPrefix 18;
                  case r2 of Inl e \<Rightarrow> State_Monad.return (Inl (SA_Error (''generate credential ID: '' @ e)))
                  | Inr credentialID \<Rightarrow> do {
                      r3 \<leftarrow> randomValue E clientSecretPrefix 32;
                      case r3 of Inl e \<Rightarrow> State_Monad.return (Inl (SA_Error (''generate client secret: '' @ e)))
                      | Inr clientSecret \<Rightarrow> do {
                          now \<leftarrow> time_Now E;
                          State_Monad.return (Inr
                            (\<lparr>br_Account = new_account clientID name normalizedScopes now,
                              br_CredentialID = credentialID, br_SecretHash = secretHash E clientSecret\<rparr>,
                             clientSecret))
                        }
                    }
                }
            })
   }"

record BootstrapRequest =
  bq_Name :: string
  bq_Scopes :: "string list"
  bq_ClientID :: string
  bq_ClientSecret :: string
  bq_IfNotExists :: bool
  bq_Force :: bool

record BootstrapResult =
  bs_Account :: Account
  bs_ClientSecret :: string
  bs_Created :: bool

definition newBootstrapRecord ::
  "'r env \<Rightarrow> BootstrapRequest \<Rightarrow> ('r world, sa_error + BootstrapRecord \<times> string) state" where
  "newBootstrapRecord E req = do {
     let clientID = TrimSpace (bq_ClientID req);
     let clientSecret = TrimSpace (bq_ClientSecret req);
     if clientID = '''' \<and> clientSecret = '''' then newRecord E (bq_Name req) (bq_Scopes req)
     else if clientID = '''' \<or> clientSecret = '''' then
       State_Monad.return (Inl (SA_Error ''bootstrap client ID and client secret must be provided together''))
     else if \<not> scopePattern clientID then State_Monad.return (Inl (SA_Error ''invalid bootstrap client ID''))
     else if length clientSecret < 32 then
       State_Monad.return (Inl (SA_Error ''bootstrap client secret must contain at least 32 characters''))
     else if 512 < length clientSecret then
       State_Monad.return (Inl (SA_Error ''bootstrap client secret must not exceed 512 characters''))
     else
       (let name = TrimSpace (bq_Name req)
        in case check_name name of
             Some msg \<Rightarrow> State_Monad.return (Inl (SA_Error msg))
           | None \<Rightarrow>
               (case normalizeScopes (e_unicode_quote E) (bq_Scopes req) of
                  Inl e \<Rightarrow> State_Monad.return (Inl (SA_Error e))
                | Inr scopes \<Rightarrow> do {
                    r \<leftarrow> randomValue E credentialIDPrefix 18;
                    case r of Inl e \<Rightarrow> State_Monad.return (Inl (SA_Error (''generate credential ID: '' @ e)))
                    | Inr credentialID \<Rightarrow> do {
                        now \<leftarrow> time_Now E;
                        State_Monad.return (Inr
                          (\<lparr>br_Account = new_account clientID name scopes now,
                            br_CredentialID = credentialID, br_SecretHash = secretHash E clientSecret\<rparr>,
                           clientSecret))
                      }
                  }))
   }"

definition Bootstrap :: "'r env \<Rightarrow> BootstrapRequest \<Rightarrow> ('r world, sa_error + BootstrapResult) state" where
  "Bootstrap E req = do {
     n \<leftarrow> newBootstrapRecord E req;
     case n of
       Inl e \<Rightarrow> State_Monad.return (Inl e)
     | Inr (record, clientSecret) \<Rightarrow> do {
         r \<leftarrow> ServiceAccountStore_Bootstrap E record (bq_IfNotExists req) (bq_Force req);
         State_Monad.return
           (case r of
              Inl e \<Rightarrow> Inl e
            | Inr (account, created) \<Rightarrow>
                Inr \<lparr>bs_Account = account, bs_ClientSecret = (if created then clientSecret else ''''),
                     bs_Created = created\<rparr>)
       }
   }"

definition Create :: "'r env \<Rightarrow> string \<Rightarrow> string list \<Rightarrow> ('r world, sa_error + BootstrapResult) state" where
  "Create E name scopes = do {
     n \<leftarrow> newRecord E name scopes;
     case n of
       Inl e \<Rightarrow> State_Monad.return (Inl e)
     | Inr (record, clientSecret) \<Rightarrow> do {
         r \<leftarrow> ServiceAccountStore_Create E record;
         State_Monad.return
           (case r of
              Inl e \<Rightarrow> Inl e
            | Inr _ \<Rightarrow> Inr \<lparr>bs_Account = br_Account record, bs_ClientSecret = clientSecret, bs_Created = True\<rparr>)
       }
   }"

definition Authenticate :: "'r env \<Rightarrow> string \<Rightarrow> string \<Rightarrow> ('r world, sa_error + Account) state" where
  "Authenticate E clientID0 clientSecret0 = do {
     let clientID = TrimSpace clientID0;
     let clientSecret = TrimSpace clientSecret0;
     if clientID = '''' \<or> clientSecret = '''' then State_Monad.return (Inl SA_ErrInvalidCredential)
     else do {
       now \<leftarrow> time_Now E;
       ServiceAccountStore_Authenticate E clientID (secretHash E clientSecret) now
     }
   }"

definition RotateCredential :: "'r env \<Rightarrow> string \<Rightarrow> ('r world, sa_error + string) state" where
  "RotateCredential E clientID = do {
     r1 \<leftarrow> randomValue E credentialIDPrefix 18;
     case r1 of Inl e \<Rightarrow> State_Monad.return (Inl (SA_Error (''generate credential ID: '' @ e)))
     | Inr credentialID \<Rightarrow> do {
         r2 \<leftarrow> randomValue E clientSecretPrefix 32;
         case r2 of Inl e \<Rightarrow> State_Monad.return (Inl (SA_Error (''generate client secret: '' @ e)))
         | Inr secret \<Rightarrow> do {
             now \<leftarrow> time_Now E;
             r3 \<leftarrow> ServiceAccountStore_RotateCredential E (TrimSpace clientID) credentialID
                    (secretHash E secret) now;
             State_Monad.return (case r3 of Inl e \<Rightarrow> Inl e | Inr _ \<Rightarrow> Inr secret)
           }
       }
   }"

section \<open>Scopes are normalised\<close>

lemma collect_scopes_Inr:
  "collect_scopes uni unique vals = Inr out \<Longrightarrow> distinct unique \<Longrightarrow>
   distinct out \<and> set out = set unique \<union> TrimSpace ` set vals \<and> (\<forall>v \<in> set vals. scopePattern (TrimSpace v))"
proof (induction uni unique vals arbitrary: out rule: collect_scopes.induct)
  case (2 uni unique v vs)
  let ?u = "if TrimSpace v \<in> set unique then unique else unique @ [TrimSpace v]"
  have pat: "scopePattern (TrimSpace v)" and rest: "collect_scopes uni ?u vs = Inr out"
    using "2.prems"(1) by (simp_all add: Let_def del: scopePattern.simps split: if_splits)
  have "distinct ?u" "set ?u = insert (TrimSpace v) (set unique)" using "2.prems"(2) by auto
  with "2.IH" [OF refl _ rest] pat show ?case by simp
qed simp

lemma collect_scopes_total:
  "\<forall>v \<in> set vals. scopePattern (TrimSpace v) \<Longrightarrow> \<exists>out. collect_scopes uni unique vals = Inr out"
  by (induction uni unique vals rule: collect_scopes.induct) (auto simp: Let_def)

lemma normalizeScopes_Inr:
  assumes "normalizeScopes uni vals = Inr out"
  shows "sorted out" and "distinct out" and "set out = TrimSpace ` set vals" and "out \<noteq> []"
    and "\<forall>s \<in> set out. scopePattern s"
proof -
  obtain u where u: "collect_scopes uni [] vals = Inr u" and out: "out = sort u" and ne: "u \<noteq> []"
    using assms by (auto simp: normalizeScopes_def split: sum.splits if_splits)
  have c: "distinct u" "set u = TrimSpace ` set vals" "\<forall>v \<in> set vals. scopePattern (TrimSpace v)"
    using collect_scopes_Inr [OF u] by auto
  show "sorted out" "distinct out" "set out = TrimSpace ` set vals" "\<forall>s \<in> set out. scopePattern s"
    using c by (auto simp: out)
  have "set out \<noteq> {}" using ne by (simp add: out)
  then show "out \<noteq> []" by auto
qed

lemma normalizeScopes_iff:
  "(\<exists>out. normalizeScopes uni vals = Inr out) \<longleftrightarrow>
     vals \<noteq> [] \<and> (\<forall>v \<in> set vals. scopePattern (TrimSpace v))"
proof
  assume "\<exists>out. normalizeScopes uni vals = Inr out"
  then obtain out where n: "normalizeScopes uni vals = Inr out" ..
  then obtain u where "collect_scopes uni [] vals = Inr u"
    by (auto simp: normalizeScopes_def split: sum.splits)
  then have "\<forall>v \<in> set vals. scopePattern (TrimSpace v)" using collect_scopes_Inr by auto
  moreover have "vals \<noteq> []" using normalizeScopes_Inr(3,4) [OF n] by auto
  ultimately show "vals \<noteq> [] \<and> (\<forall>v \<in> set vals. scopePattern (TrimSpace v))" by simp
next
  assume v: "vals \<noteq> [] \<and> (\<forall>v \<in> set vals. scopePattern (TrimSpace v))"
  then obtain u where u: "collect_scopes uni [] vals = Inr u" using collect_scopes_total by blast
  have "set u = TrimSpace ` set vals" using collect_scopes_Inr [OF u] by simp
  with v have "u \<noteq> []" by auto
  with u show "\<exists>out. normalizeScopes uni vals = Inr out" by (simp add: normalizeScopes_def)
qed

lemma normalizeScopes_fixed:
  assumes "normalizeScopes uni vals = Inr out"
  shows "normalizeScopes uni out = Inr out"
proof -
  note n = normalizeScopes_Inr [OF assms]
  have trim: "TrimSpace s = s" if "s \<in> set out" for s using that n(3) TrimSpace_idem by auto
  then obtain out' where out': "normalizeScopes uni out = Inr out'"
    using normalizeScopes_iff [of uni out] n(4,5) by auto
  have "set out' = set out" using normalizeScopes_Inr(3) [OF out'] trim by simp
  then have "out' = out" using normalizeScopes_Inr(1,2) [OF out'] n(1,2) by (simp add: sorted_distinct_set_unique)
  with out' show ?thesis by simp
qed

text \<open>
  (C20) Normalising scopes: it succeeds exactly on a non-empty list of scopes that all match the
  pattern after trimming; the result is sorted, has no duplicates, holds exactly the trimmed
  scopes, and normalising it once more changes nothing.
\<close>

theorem normalizeScopes_canonical:
  "((\<exists>out. normalizeScopes uni vals = Inr out) =
      (vals \<noteq> [] \<and> list_all (\<lambda>v. scopePattern (TrimSpace v)) vals)) \<and>
   (case normalizeScopes uni vals of
      Inl e \<Rightarrow> True
    | Inr out \<Rightarrow> sorted out \<and> distinct out \<and> set out = TrimSpace ` set vals \<and>
                 normalizeScopes uni out = Inr out)"
proof (cases "normalizeScopes uni vals")
  case (Inl e)
  then show ?thesis using normalizeScopes_iff [of uni vals] by (simp add: list_all_iff)
next
  case (Inr out)
  with normalizeScopes_Inr [OF Inr] normalizeScopes_fixed [OF Inr] show ?thesis
    using normalizeScopes_iff [of uni vals] by (simp add: list_all_iff)
qed

end
