(* ===== verification/Db_History.thy ===== *)
theory Db_History
  imports Service_Account
begin

text \<open>
  How the database may change over time. \<open>db_evolves d d'\<close> says that \<open>d'\<close> is a possible later
  state of \<open>d\<close>: no row of any table disappears or changes its identity, soft-deleted users, disabled
  service accounts and revoked credentials never change again, and the audit log and the external
  identities only grow. Every store operation, and so everything built from them, only ever moves
  the database along this order.
\<close>

section \<open>Tables that grow\<close>

definition grows :: "('a \<Rightarrow> 'a \<Rightarrow> bool) \<Rightarrow> 'a list \<Rightarrow> 'a list \<Rightarrow> bool" where
  "grows R xs ys \<longleftrightarrow> length xs \<le> length ys \<and> (\<forall>i < length xs. R (xs ! i) (ys ! i))"

lemma grows_refl: "(\<And>x. R x x) \<Longrightarrow> grows R xs xs"
  by (simp add: grows_def)

lemma grows_trans:
  "(\<And>x y z. R x y \<Longrightarrow> R y z \<Longrightarrow> R x z) \<Longrightarrow> grows R xs ys \<Longrightarrow> grows R ys zs \<Longrightarrow> grows R xs zs"
  by (fastforce simp: grows_def)

lemma grows_append: "(\<And>x. R x x) \<Longrightarrow> grows R xs (xs @ ys)"
  by (simp add: grows_def nth_append)

lemma grows_map: "(\<And>x. x \<in> set xs \<Longrightarrow> R x (f x)) \<Longrightarrow> grows R xs (map f xs)"
  by (simp add: grows_def)

lemma grows_mem: "grows R xs ys \<Longrightarrow> x \<in> set xs \<Longrightarrow> \<exists>y \<in> set ys. R x y"
  unfolding grows_def in_set_conv_nth by fastforce

lemma grows_image: "grows R xs ys \<Longrightarrow> (\<And>x y. R x y \<Longrightarrow> f y = f x) \<Longrightarrow> f ` set xs \<subseteq> f ` set ys"
  using grows_mem by (metis (no_types, lifting) image_eqI image_subsetI)

lemma grows_eq_prefix: "grows (=) xs ys \<Longrightarrow> prefix xs ys"
proof -
  assume g: "grows (=) xs ys"
  then have "take (length xs) ys = xs" by (intro nth_equalityI) (auto simp: grows_def)
  then show ?thesis using take_is_prefix by metis
qed

section \<open>The order on databases\<close>

definition user_succ :: "user_row \<Rightarrow> user_row \<Rightarrow> bool" where
  "user_succ u v \<longleftrightarrow>
     ur_id v = ur_id u \<and> ur_created_at v = ur_created_at u \<and> (ur_deleted_at u \<noteq> None \<longrightarrow> v = u)"

definition account_succ :: "account_row \<Rightarrow> account_row \<Rightarrow> bool" where
  "account_succ a b \<longleftrightarrow>
     ar_id b = ar_id a \<and> ar_name b = ar_name a \<and> ar_scopes b = ar_scopes a \<and>
     (ar_disabled_at a \<noteq> None \<longrightarrow> b = a)"

definition cred_succ :: "cred_row \<Rightarrow> cred_row \<Rightarrow> bool" where
  "cred_succ a b \<longleftrightarrow>
     cr_id b = cr_id a \<and> cr_service_account_id b = cr_service_account_id a \<and>
     cr_secret_hash b = cr_secret_hash a \<and> (cr_revoked_at a \<noteq> None \<longrightarrow> b = a)"

definition system_succ :: "system_row \<Rightarrow> system_row \<Rightarrow> bool" where
  "system_succ a b \<longleftrightarrow> sy_key b = sy_key a"

definition db_evolves :: "db \<Rightarrow> db \<Rightarrow> bool" where
  "db_evolves d d' \<longleftrightarrow>
     grows user_succ (db_users d) (db_users d') \<and> grows (=) (db_idents d) (db_idents d') \<and>
     grows account_succ (db_accounts d) (db_accounts d') \<and> grows cred_succ (db_creds d) (db_creds d') \<and>
     grows system_succ (db_system d) (db_system d') \<and> grows (=) (db_audit d) (db_audit d')"

lemmas succ_defs = user_succ_def account_succ_def cred_succ_def system_succ_def

lemma succ_refl [simp]: "user_succ u u" "account_succ a a" "cred_succ c c" "system_succ s s"
  by (simp_all add: succ_defs)

lemma db_evolves_refl [simp]: "db_evolves d d"
  by (simp add: db_evolves_def grows_refl)

lemma db_evolves_trans: "db_evolves d d' \<Longrightarrow> db_evolves d' d'' \<Longrightarrow> db_evolves d d''"
proof -
  have s: "user_succ u v \<Longrightarrow> user_succ v w \<Longrightarrow> user_succ u w"
    "account_succ a b \<Longrightarrow> account_succ b c \<Longrightarrow> account_succ a c"
    "cred_succ x y \<Longrightarrow> cred_succ y z \<Longrightarrow> cred_succ x z"
    "system_succ p q \<Longrightarrow> system_succ q r \<Longrightarrow> system_succ p r" for u v w a b c x y z p q r
    by (auto simp: succ_defs)
  show "db_evolves d d' \<Longrightarrow> db_evolves d' d'' \<Longrightarrow> db_evolves d d''"
    unfolding db_evolves_def by (auto elim!: grows_trans [rotated] intro: s)
qed

section \<open>Programs that only move forward\<close>

text \<open>Such a program also keeps the constraints of the schema.\<close>

definition evolves :: "('r world, 'a) state \<Rightarrow> bool" where
  "evolves m \<longleftrightarrow>
     (\<forall>w. db_evolves (w_db w) (w_db (snd (run_state m w))) \<and>
          (db_ok (w_db w) \<longrightarrow> db_ok (w_db (snd (run_state m w)))))"

named_theorems forward \<open>programs that only move the database forward\<close>

lemma evolvesI:
  "(\<And>w a w'. run_state m w = (a, w') \<Longrightarrow>
      db_evolves (w_db w) (w_db w') \<and> (db_ok (w_db w) \<longrightarrow> db_ok (w_db w'))) \<Longrightarrow> evolves m"
  unfolding evolves_def by (metis prod.collapse)

lemma evolvesD:
  "evolves m \<Longrightarrow> run_state m w = (a, w') \<Longrightarrow>
     db_evolves (w_db w) (w_db w') \<and> (db_ok (w_db w) \<longrightarrow> db_ok (w_db w'))"
  unfolding evolves_def by (metis snd_conv)

lemma evolves_db_safe: "evolves m \<Longrightarrow> db_safe m"
  by (simp add: evolves_def maintains_def)

lemma evolves_return [forward]: "evolves (State_Monad.return a)"
  by (simp add: evolves_def)

lemma evolves_bind [forward]: "evolves m \<Longrightarrow> (\<And>a. evolves (g a)) \<Longrightarrow> evolves (State_Monad.bind m g)"
  by (rule evolvesI) (auto split: prod.splits dest: evolvesD intro: db_evolves_trans)

lemma evolves_if [forward]: "evolves m \<Longrightarrow> evolves n \<Longrightarrow> evolves (if b then m else n)"
  by simp

lemma evolves_case_sum [forward]:
  "(\<And>e. evolves (g e)) \<Longrightarrow> (\<And>a. evolves (h a)) \<Longrightarrow> evolves (case x of Inl e \<Rightarrow> g e | Inr a \<Rightarrow> h a)"
  by (cases x) auto

lemma evolves_case_option [forward]:
  "evolves g \<Longrightarrow> (\<And>a. evolves (h a)) \<Longrightarrow> evolves (case x of None \<Rightarrow> g | Some a \<Rightarrow> h a)"
  by (cases x) auto

lemma evolves_case_prod [forward]: "(\<And>a b. evolves (g a b)) \<Longrightarrow> evolves (case x of (a, b) \<Rightarrow> g a b)"
  by (cases x) auto

lemma evolves_case_list [forward]:
  "evolves g \<Longrightarrow> (\<And>a as. evolves (h a as)) \<Longrightarrow> evolves (case x of [] \<Rightarrow> g | a # as \<Rightarrow> h a as)"
  by (cases x) auto

lemma evolves_Let [forward]: "(\<And>x. evolves (g x)) \<Longrightarrow> evolves (let x = t in g x)"
  by simp

lemma evolves_effects [forward]:
  "evolves (time_Now E)" "evolves (rand_Read E k)" "evolves (rand_Int E k)" "evolves (uuid_NewString E)"
  "evolves (db_Query E q)"
  by (simp_all add: evolves_def run_db_Query)

lemma keeps_evolves: "keeps w_db m \<Longrightarrow> evolves m"
  by (simp add: keeps_def evolves_def)

lemma evolves_redis_Run [forward]: "evolves (redis_Run E c)"
  by (intro keeps_evolves frame) simp_all

lemma evolves_send_Mail [forward]: "evolves (send_Mail E m)"
  by (intro keeps_evolves frame) simp_all

lemma evolves_db_Exec:
  assumes "\<And>d d' a. s d = Inr (d', a) \<Longrightarrow> db_evolves d d'" and "db_safe (db_Exec E s)"
  shows "evolves (db_Exec E s)"
proof (rule evolvesI)
  fix w a w' assume r: "run_state (db_Exec E s) w = (a, w')"
  then have "db_evolves (w_db w) (w_db w')"
    by (auto simp: db_Exec_def Let_def intro: assms(1) split: option.splits sum.splits)
  with maintainsD [OF assms(2) r] show "db_evolves (w_db w) (w_db w') \<and> (db_ok (w_db w) \<longrightarrow> db_ok (w_db w'))"
    by blast
qed

lemma evolves_db_Transact [forward]:
  assumes "evolves body"
  shows "evolves (db_Transact E be ce body)"
proof (rule evolvesI)
  fix w r w' assume r: "run_state (db_Transact E be ce body) w = (r, w')"
  show "db_evolves (w_db w) (w_db w') \<and> (db_ok (w_db w) \<longrightarrow> db_ok (w_db w'))"
  proof (cases r)
    case (Inl e)
    with r show ?thesis by (simp add: db_Transact_atomic)
  next
    case (Inr a)
    with r have "run_state (db_Transact E be ce body) w = (Inr a, w')" by simp
    then show ?thesis
      by (cases rule: db_Transact_success) (use assms in \<open>auto dest!: evolvesD\<close>)
  qed
qed

section \<open>Every store operation moves forward\<close>

lemma evolves_create_user [forward]: "evolves (db_Exec E (\<lambda>d. map_sum id (\<lambda>d'. (d', ())) (CreateUser arg d)))"
proof (rule evolves_db_Exec)
  fix d d' a assume "map_sum id (\<lambda>d'. (d', ())) (CreateUser arg d) = Inr (d', a)"
  then have "CreateUser arg d = Inr d'" by (cases "CreateUser arg d") auto
  then show "db_evolves d d'"
    by (auto simp: CreateUser_def db_evolves_def grows_refl grows_append split: if_splits)
qed (rule frame)

lemma evolves_create_identity [forward]:
  "evolves (db_Exec E (\<lambda>d. map_sum id (\<lambda>d'. (d', ())) (CreateExternalIdentity arg d)))"
proof (rule evolves_db_Exec)
  fix d d' a assume "map_sum id (\<lambda>d'. (d', ())) (CreateExternalIdentity arg d) = Inr (d', a)"
  then have "CreateExternalIdentity arg d = Inr d'" by (cases "CreateExternalIdentity arg d") auto
  then show "db_evolves d d'"
    by (auto simp: CreateExternalIdentity_def db_evolves_def grows_refl grows_append split: if_splits)
qed (rule frame)

lemma evolves_user_updates [forward]:
  "evolves (db_Exec E (UpdateUser i e hp h l t))" "evolves (db_Exec E (SoftDeleteUser i t t'))"
  "evolves (db_Exec E (SetUserPassword i pw t))"
  by (rule evolves_db_Exec [OF _ db_safe_updates(1)] evolves_db_Exec [OF _ db_safe_updates(2)]
        evolves_db_Exec [OF _ db_safe_updates(3)],
      auto simp: UpdateUser_def SoftDeleteUser_def SetUserPassword_def update_users_def
      live_user_def db_evolves_def grows_refl user_succ_def intro!: grows_map split: if_splits)+

lemma evolves_account_statements [forward]:
  "evolves (db_Exec E (InsertServiceAccount a))" "evolves (db_Exec E (InsertCredential i s h t))"
  "evolves (db_Exec E (DisableAccount_sql i t))" "evolves (db_Exec E (RevokeCredentials_sql i t))"
  "evolves (db_Exec E (UpsertSystemState k v t))" "evolves (db_Exec E (InsertAuditEvent ev))"
  by (rule db_safe_account_statements [THEN evolves_db_Exec [rotated]],
      auto simp: InsertServiceAccount_def InsertCredential_def DisableAccount_sql_def
      RevokeCredentials_sql_def UpsertSystemState_def InsertAuditEvent_def db_evolves_def grows_refl grows_append
      account_succ_def cred_succ_def system_succ_def Let_def intro!: grows_map split: if_splits)+

lemma evolves_user_store [forward]:
  "evolves (UserStore_Create E user)" "evolves (UserStore_GetByID E i)" "evolves (UserStore_GetByEmail E e)"
  "evolves (UserStore_Update E user)" "evolves (UserStore_Delete E i)" "evolves (UserStore_SetPassword E i pw)"
  "evolves (UserStore_List E off lim)" "evolves (UserStore_Count E)"
  "evolves (ExternalIdentityStore_Create E ident)" "evolves (ExternalIdentityStore_GetByProviderID E p k)"
  "evolves (ExternalIdentityStore_GetByUserID E i)"
  unfolding UserStore_Create_def UserStore_GetByID_def UserStore_GetByEmail_def UserStore_Update_def
    UserStore_Delete_def UserStore_SetPassword_def UserStore_List_def UserStore_Count_def
    ExternalIdentityStore_Create_def ExternalIdentityStore_GetByProviderID_def
    ExternalIdentityStore_GetByUserID_def
  by (intro forward)+

lemma evolves_insertServiceAccount [forward]: "evolves (insertServiceAccount E record)"
  unfolding insertServiceAccount_def by (intro forward)

lemma evolves_account_lookups [forward]:
  "evolves (ServiceAccountStore_Authenticate E c s t)" "evolves (ServiceAccountStore_GetByID E c)"
  "evolves (ServiceAccountStore_List E)" "evolves (findServiceAccountByName E n)"
  "evolves (AuditStore_Record E ev)" "evolves (AuditStore_List E off lim)"
  unfolding ServiceAccountStore_Authenticate_def ServiceAccountStore_GetByID_def ServiceAccountStore_List_def
    findServiceAccountByName_def AuditStore_Record_def AuditStore_List_def
  by (intro forward)+

lemma evolves_account_changes [forward]:
  "evolves (ServiceAccountStore_Create E record)" "evolves (ServiceAccountStore_Disable E c t)"
  "evolves (ServiceAccountStore_RotateCredential E c i s t)" "evolves (bootstrap_write E record)"
  unfolding ServiceAccountStore_Create_def ServiceAccountStore_Disable_def
    ServiceAccountStore_RotateCredential_def bootstrap_write_def
  by (intro forward)+

lemma evolves_Bootstrap_store [forward]: "evolves (ServiceAccountStore_Bootstrap E record ifNotExists force)"
  unfolding ServiceAccountStore_Bootstrap_def by (intro forward)

lemma evolves_randomValue [forward]: "evolves (randomValue E p k)"
  unfolding randomValue_def by (intro forward)

lemma evolves_newRecord [forward]: "evolves (newRecord E n sc)"
  unfolding newRecord_def by (intro forward)

lemma evolves_newBootstrapRecord [forward]: "evolves (newBootstrapRecord E req)"
  unfolding newBootstrapRecord_def by (intro forward)

lemma evolves_service_account [forward]:
  "evolves (Bootstrap E req)" "evolves (Create E n sc)" "evolves (Authenticate E c s)" "evolves (RotateCredential E c)"
  unfolding Bootstrap_def Create_def Authenticate_def RotateCredential_def by (intro forward)+

section \<open>Consequences\<close>

text \<open>A soft-deleted user's row stays, and so keeps its email address taken.\<close>

lemma evolves_deleted_user:
  "db_evolves d d' \<Longrightarrow> u \<in> set (db_users d) \<Longrightarrow> ur_deleted_at u \<noteq> None \<Longrightarrow> u \<in> set (db_users d')"
  unfolding db_evolves_def by (metis grows_mem user_succ_def)

lemma evolves_disabled_account:
  "db_evolves d d' \<Longrightarrow> a \<in> set (db_accounts d) \<Longrightarrow> ar_disabled_at a \<noteq> None \<Longrightarrow> a \<in> set (db_accounts d')"
  unfolding db_evolves_def by (metis grows_mem account_succ_def)

lemma evolves_revoked_credential:
  "db_evolves d d' \<Longrightarrow> c \<in> set (db_creds d) \<Longrightarrow> cr_revoked_at c \<noteq> None \<Longrightarrow> c \<in> set (db_creds d')"
  unfolding db_evolves_def by (metis grows_mem cred_succ_def)

lemma evolves_marker:
  assumes "db_evolves d d'" and "k \<in> set (map sy_key (db_system d))"
  shows "k \<in> set (map sy_key (db_system d'))"
proof -
  obtain x where "x \<in> set (db_system d)" "k = sy_key x" using assms(2) by auto
  moreover have "grows system_succ (db_system d) (db_system d')" using assms(1) by (simp add: db_evolves_def)
  ultimately show ?thesis by (auto dest!: grows_mem simp: system_succ_def) (metis imageI)
qed

lemma evolves_audit: "db_evolves d d' \<Longrightarrow> prefix (db_audit d) (db_audit d')"
  by (simp add: db_evolves_def grows_eq_prefix)

lemma evolves_identities: "db_evolves d d' \<Longrightarrow> prefix (db_idents d) (db_idents d')"
  by (simp add: db_evolves_def grows_eq_prefix)

section \<open>Credentials over time\<close>

lemma db_Exec_success:
  assumes "run_state (db_Exec E s) w = (Inr a, w')"
  shows "s (w_db w) = Inr (w_db w', a)" and "w_tick w' = Suc (w_tick w)"
  using assms by (auto simp: db_Exec_def Let_def split: option.splits sum.splits)

lemma db_Query_success:
  assumes "run_state (db_Query E q) w = (Inr a, w')"
  shows "q (w_db w) = Inr a" and "w' = w\<lparr>w_tick := Suc (w_tick w)\<rparr>"
  using assms by (auto simp: run_db_Query split: option.splits)

section \<open>What a successful store call did\<close>

lemma UserStore_Create_success:
  assumes "run_state (UserStore_Create E user) w = (Inr u, w')"
  shows "\<exists>row. CreateUser row (w_db w) = Inr (w_db w') \<and> ur_id row = um_ID u \<and> ur_email row = um_Email user \<and>
           ur_hashed_password row = um_HashedPassword user \<and> ur_hash row = um_VerificationHash user \<and>
           ur_created_at row = um_CreatedAt u \<and> ur_deleted_at row = None \<and> ur_last_login_at row = um_LastLoginAt user \<and>
           ur_updated_at row = um_UpdatedAt u"
    and "u = user\<lparr>um_ID := um_ID u, um_CreatedAt := um_CreatedAt u, um_UpdatedAt := um_UpdatedAt u\<rparr>"
    and "w_redis w' = w_redis w"
proof -
  from assms obtain i now created w1 where
    r: "run_state (db_Exec E (\<lambda>d. map_sum id (\<lambda>d'. (d', ()))
            (CreateUser \<lparr>ur_id = i, ur_created_at = created, ur_updated_at = now, ur_deleted_at = None,
                         ur_email = um_Email user, ur_hashed_password = um_HashedPassword user,
                         ur_hash = um_VerificationHash user, ur_last_login_at = um_LastLoginAt user\<rparr> d))) w1 = (Inr (), w')"
      and u: "u = user\<lparr>um_ID := i, um_CreatedAt := created, um_UpdatedAt := now\<rparr>"
      and w1: "w_db w1 = w_db w" "w_redis w1 = w_redis w"
    unfolding UserStore_Create_def
    by (elim bind_runE) (auto split: if_splits sum.splits prod.splits)
  let ?row = "\<lparr>ur_id = i, ur_created_at = created, ur_updated_at = now, ur_deleted_at = None,
                         ur_email = um_Email user, ur_hashed_password = um_HashedPassword user,
                         ur_hash = um_VerificationHash user, ur_last_login_at = um_LastLoginAt user\<rparr>"
  have "CreateUser ?row (w_db w) = Inr (w_db w')"
    using db_Exec_success(1) [OF r] w1 by (cases "CreateUser ?row (w_db w)") auto
  then show "\<exists>row. CreateUser row (w_db w) = Inr (w_db w') \<and> ur_id row = um_ID u \<and> ur_email row = um_Email user \<and>
           ur_hashed_password row = um_HashedPassword user \<and> ur_hash row = um_VerificationHash user \<and>
           ur_created_at row = um_CreatedAt u \<and> ur_deleted_at row = None \<and> ur_last_login_at row = um_LastLoginAt user \<and>
           ur_updated_at row = um_UpdatedAt u"
    by (intro exI [of _ ?row]) (simp add: u)
  show "u = user\<lparr>um_ID := um_ID u, um_CreatedAt := um_CreatedAt u, um_UpdatedAt := um_UpdatedAt u\<rparr>"
    by (simp add: u)
  show "w_redis w' = w_redis w"
    using keepsD [OF keeps_db_Exec [of w_redis] r] w1 by simp
qed

lemma UserStore_GetByEmail_success:
  assumes "run_state (UserStore_GetByEmail E email) w = (Inr u, w')"
  shows "\<exists>row. GetUserByEmail email (w_db w) = Inr row \<and> u = userToDomain row"
    and "w' = w\<lparr>w_tick := Suc (w_tick w)\<rparr>"
proof -
  have "w' = w\<lparr>w_tick := Suc (w_tick w)\<rparr> \<and> (\<exists>row. GetUserByEmail email (w_db w) = Inr row \<and> u = userToDomain row)"
    using assms by (cases "GetUserByEmail email (w_db w)")
      (auto simp: UserStore_GetByEmail_def run_db_Query split: option.splits)
  then show "\<exists>row. GetUserByEmail email (w_db w) = Inr row \<and> u = userToDomain row"
    "w' = w\<lparr>w_tick := Suc (w_tick w)\<rparr>" by auto
qed

lemma UserStore_GetByID_success:
  assumes "run_state (UserStore_GetByID E i) w = (Inr u, w')"
  shows "\<exists>row. GetUserByID i (w_db w) = Inr row \<and> u = userToDomain row"
    and "w' = w\<lparr>w_tick := Suc (w_tick w)\<rparr>"
proof -
  have "w' = w\<lparr>w_tick := Suc (w_tick w)\<rparr> \<and> (\<exists>row. GetUserByID i (w_db w) = Inr row \<and> u = userToDomain row)"
    using assms by (cases "GetUserByID i (w_db w)")
      (auto simp: UserStore_GetByID_def run_db_Query split: option.splits)
  then show "\<exists>row. GetUserByID i (w_db w) = Inr row \<and> u = userToDomain row"
    "w' = w\<lparr>w_tick := Suc (w_tick w)\<rparr>" by auto
qed

section \<open>Rotation\<close>

definition revoke_for :: "string \<Rightarrow> go_time \<Rightarrow> cred_row \<Rightarrow> cred_row" where
  "revoke_for c now r = (if cr_service_account_id r = c \<and> cr_revoked_at r = None then r\<lparr>cr_revoked_at := Some now\<rparr> else r)"

lemma Rotate_store_success:
  assumes "run_state (ServiceAccountStore_RotateCredential E c i h now) w = (Inr u, w')"
  shows "\<exists>r \<in> set (db_accounts (w_db w)). ar_id r = c \<and> ar_disabled_at r = None"
    and "db_accounts (w_db w') = db_accounts (w_db w)"
    and "db_creds (w_db w') = map (revoke_for c now) (db_creds (w_db w)) @
           [\<lparr>cr_id = i, cr_service_account_id = c, cr_secret_hash = h, cr_created_at = now,
             cr_expires_at = None, cr_revoked_at = None\<rparr>]"
proof -
  let ?w0 = "w\<lparr>w_tick := Suc (w_tick w)\<rparr>"
  from assms obtain w1 w2 w3 row
    where q: "run_state (db_Query E (SelectAccountBy (\<lambda>row. ar_id row = c \<and> ar_disabled_at row = None))) ?w0 = (Inr row, w1)"
      and r: "run_state (db_Exec E (RevokeCredentials_sql c now)) w1 = (Inr (), w2)"
      and n: "run_state (db_Exec E (InsertCredential i c h now)) w2 = (Inr (), w3)"
      and w': "w_db w' = w_db w3"
    unfolding ServiceAccountStore_RotateCredential_def
    by (cases rule: db_Transact_success) (auto split: prod.splits sum.splits if_splits)
  note q' = db_Query_success [OF q] and r' = db_Exec_success [OF r] and n' = db_Exec_success [OF n]
  show "\<exists>r \<in> set (db_accounts (w_db w)). ar_id r = c \<and> ar_disabled_at r = None"
    using q'(1) by (auto simp: SelectAccountBy_def dest: find_Some_iff_mem split: option.splits)
  have creds: "w_db w2 = (w_db w)\<lparr>db_creds := map (revoke_for c now) (db_creds (w_db w))\<rparr>"
    using r'(1) q'(2) by (simp add: RevokeCredentials_sql_def revoke_for_def [abs_def])
  have "w_db w3 = (w_db w2)\<lparr>db_creds := db_creds (w_db w2) @
       [\<lparr>cr_id = i, cr_service_account_id = c, cr_secret_hash = h, cr_created_at = now,
         cr_expires_at = None, cr_revoked_at = None\<rparr>]\<rparr>"
    using n'(1) by (auto simp: InsertCredential_def split: if_splits)
  then show "db_accounts (w_db w') = db_accounts (w_db w)"
    "db_creds (w_db w') = map (revoke_for c now) (db_creds (w_db w)) @
       [\<lparr>cr_id = i, cr_service_account_id = c, cr_secret_hash = h, cr_created_at = now,
         cr_expires_at = None, cr_revoked_at = None\<rparr>]"
    by (simp_all add: w' creds)
qed

text \<open>Which secrets open an account at an instant.\<close>

definition opens :: "string \<Rightarrow> string \<Rightarrow> go_time \<Rightarrow> db \<Rightarrow> bool" where
  "opens clientID hash now d \<longleftrightarrow>
     (\<exists>r \<in> set (db_accounts d). ar_id r = clientID \<and> ar_disabled_at r = None) \<and>
     (\<exists>c \<in> set (db_creds d). live_credential clientID hash now c)"

lemma SelectAuthenticated_opens:
  "(\<exists>r. SelectAuthenticated c h t d = Inr r) = opens c h t d"
  unfolding SelectAuthenticated_def opens_def
  by (fastforce simp: find_None_all dest: find_Some_iff_mem split: option.splits)

lemma Rotate_opens:
  assumes "run_state (ServiceAccountStore_RotateCredential E c i h now) w = (Inr u, w')"
  shows "opens c h' t (w_db w') = (h' = h)"
    and "c' \<noteq> c \<Longrightarrow> opens c' h' t (w_db w') = opens c' h' t (w_db w)"
  using Rotate_store_success [OF assms]
  by (auto simp: opens_def live_credential_def revoke_for_def split: option.splits)

lemma RotateCredential_store:
  assumes "run_state (RotateCredential E c) w = (Inr secret, w')"
  obtains w1 i now where "run_state (ServiceAccountStore_RotateCredential E (TrimSpace c) i (secretHash E secret) now) w1
      = (Inr (), w')" and "w_db w1 = w_db w"
  using assms
  by (auto simp: RotateCredential_def randomValue_def split: prod.splits sum.splits option.splits)

text \<open>
  (C10) Rotating a credential: once a rotation has succeeded, the returned secret is the one and
  only secret that opens the account at any time (every earlier secret is dead), and nothing
  changes for any other account.
\<close>

theorem rotation_replaces_secrets:
  assumes "run_state (RotateCredential E clientID) w = (Inr secret, w')"
  shows "(\<forall>h t. opens (TrimSpace clientID) h t (w_db w') = (h = secretHash E secret)) \<and>
         (\<forall>c h t. c \<noteq> TrimSpace clientID \<longrightarrow> opens c h t (w_db w') = opens c h t (w_db w))"
proof -
  obtain w1 i now where r: "run_state (ServiceAccountStore_RotateCredential E (TrimSpace clientID) i
      (secretHash E secret) now) w1 = (Inr (), w')" and w1: "w_db w1 = w_db w"
    using RotateCredential_store [OF assms] by metis
  show ?thesis using Rotate_opens [OF r] w1 by auto
qed

definition sample_account_world :: "mem_redis_state world" where
  "sample_account_world = sample_world\<lparr>w_db := db_empty\<lparr>
     db_accounts := [\<lparr>ar_id = ''isa_1'', ar_name = ''ops'', ar_scopes = [''identra.admin''], ar_created_at = 1,
                      ar_updated_at = 1, ar_disabled_at = None\<rparr>],
     db_creds := [\<lparr>cr_id = ''cred-1'', cr_service_account_id = ''isa_1'', cr_secret_hash = ''old'',
                   cr_created_at = 1, cr_expires_at = None, cr_revoked_at = None\<rparr>]\<rparr>\<rparr>"

lemma TrimSpace_isa_1: "TrimSpace ''isa_1'' = ''isa_1''"
  by (simp add: TrimSpace_def strip_tokens_id lead_token_def space_runes_def)

theorem rotation_replaces_secrets_witness:
  "\<exists>secret. fst (run_state (RotateCredential sample_env ''isa_1'') sample_account_world) = Inr secret \<and>
     \<not> opens ''isa_1'' ''old'' 5 (w_db (snd (run_state (RotateCredential sample_env ''isa_1'') sample_account_world))) \<and>
     opens ''isa_1'' (secretHash sample_env secret) 5
       (w_db (snd (run_state (RotateCredential sample_env ''isa_1'') sample_account_world)))"
proof -
  have hash: "secretHash sample_env (''is_'' @ b) \<noteq> ''old''" for b
    by (simp add: secretHash_def b64_url_def)
  let ?sec = "''is_'' @ b64_encode b64_url (sample_bytes (Suc 0) 32)"
  have s: "fst (run_state (RotateCredential sample_env ''isa_1'') sample_account_world) = Inr ?sec"
    using hash [of "b64_encode b64_url (sample_bytes (Suc 0) 32)"]
    by (simp add: RotateCredential_def randomValue_def TrimSpace_isa_1 ServiceAccountStore_RotateCredential_def
        db_Transact_def db_get_def db_restore_def db_Query_def db_Exec_def Let_def SelectAccountBy_def
        RevokeCredentials_sql_def InsertCredential_def sample_account_world_def db_empty_def
        del: b64_encode.simps)
  then show ?thesis
    using rotation_replaces_secrets [of sample_env "''isa_1''" sample_account_world ?sec
        "snd (run_state (RotateCredential sample_env ''isa_1'') sample_account_world)"]
      hash [of "b64_encode b64_url (sample_bytes (Suc 0) 32)"]
    by (auto simp: TrimSpace_isa_1 prod_eq_iff)
qed

end
