(* ===== verification/Service_Base.thy ===== *)
theory Service_Base
  imports Db_History OAuth_State Tokens Password
begin

text \<open>
  The frame of the gRPC service in \<^verbatim>\<open>internal/identra\<close>: status errors, request metadata, the
  \<^verbatim>\<open>Service\<close> struct and its factory (\<^verbatim>\<open>service.go\<close>, \<^verbatim>\<open>service_factory.go\<close>, \<^verbatim>\<open>config.go\<close>), the
  rate-limit helpers (\<^verbatim>\<open>service_rate_limit.go\<close>), bearer tokens (\<^verbatim>\<open>service_login_info.go\<close>), and
  the recording of a login (\<^verbatim>\<open>service_user.go\<close>). The stores of the service are the ones the program
  wires in: the SQLite stores and the Redis-backed ones. Log output is not modelled.
\<close>

section \<open>Replies\<close>

datatype code =
    InvalidArgument | NotFound | AlreadyExists | PermissionDenied | ResourceExhausted
  | FailedPrecondition | Internal | Unauthenticated

datatype rpc_error = Status code string | Panicked

type_synonym ('r, 'a) rpc = "('r world, rpc_error + 'a) state"

definition fail :: "code \<Rightarrow> string \<Rightarrow> ('r, 'a) rpc" where
  "fail c msg = State_Monad.return (Inl (Status c msg))"

definition reply :: "'a \<Rightarrow> ('r, 'a) rpc" where
  "reply a = State_Monad.return (Inr a)"

text \<open>\<^verbatim>\<open>x, err := m; if err != nil { return nil, err }\<close>, and the form that turns the error.\<close>

definition andthen :: "('r world, 'e + 'a) state \<Rightarrow> ('a \<Rightarrow> ('r world, 'e + 'b) state) \<Rightarrow> ('r world, 'e + 'b) state" where
  "andthen m f = do { r \<leftarrow> m; case r of Inl e \<Rightarrow> State_Monad.return (Inl e) | Inr a \<Rightarrow> f a }"

definition on_error :: "('r world, 'e + 'a) state \<Rightarrow> ('e \<Rightarrow> rpc_error) \<Rightarrow> ('r, 'a) rpc" where
  "on_error m f = do { r \<leftarrow> m; State_Monad.return (map_sum f id r) }"

lemma run_andthen:
  "run_state (andthen m f) w =
     (case run_state m w of (Inl e, w') \<Rightarrow> (Inl e, w') | (Inr a, w') \<Rightarrow> run_state (f a) w')"
  by (simp add: andthen_def split: prod.splits sum.splits)

lemma run_on_error:
  "run_state (on_error m f) w = (map_sum f id (fst (run_state m w)), snd (run_state m w))"
  by (simp add: on_error_def split: prod.splits)

lemma run_fail [simp]: "run_state (fail c msg) w = (Inl (Status c msg), w)"
  by (simp add: fail_def)

lemma run_reply [simp]: "run_state (reply a) w = (Inr a, w)"
  by (simp add: reply_def)

lemma andthen_InrE:
  assumes "run_state (andthen m f) w = (Inr b, w')"
  obtains a w1 where "run_state m w = (Inr a, w1)" and "run_state (f a) w1 = (Inr b, w')"
  using assms by (auto simp: run_andthen split: prod.splits sum.splits)

lemma on_error_InrE:
  assumes "run_state (on_error m f) w = (Inr a, w')"
  shows "run_state m w = (Inr a, w')"
  using assms by (cases "run_state m w") (auto simp: run_on_error map_sum_def split: sum.splits)

lemma rpc_frame [frame]:
  "maintains I (fail c msg)" "maintains I (reply a)"
  "maintains I m \<Longrightarrow> (\<And>a. maintains I (f a)) \<Longrightarrow> maintains I (andthen m f)"
  "maintains I m \<Longrightarrow> maintains I (on_error m g)"
  unfolding fail_def reply_def andthen_def on_error_def by (intro frame | assumption)+

lemma rpc_forward [forward]:
  "evolves (fail c msg)" "evolves (reply a)"
  "evolves m \<Longrightarrow> (\<And>a. evolves (f a)) \<Longrightarrow> evolves (andthen m f)"
  "evolves m \<Longrightarrow> evolves (on_error m g)"
  unfolding fail_def reply_def andthen_def on_error_def by (intro forward | assumption)+

lemma rpc_keeps [frame]:
  "keeps g (fail c msg)" "keeps g (reply a)"
  "keeps g m \<Longrightarrow> (\<And>a. keeps g (f a)) \<Longrightarrow> keeps g (andthen m f)"
  "keeps g m \<Longrightarrow> keeps g (on_error m h)"
  unfolding fail_def reply_def andthen_def on_error_def by (intro frame | assumption)+

section \<open>The service\<close>

record ServerInfo =
  si_Version :: string
  si_Commit :: string
  si_BuildDate :: string
  si_SchemaVersion :: nat
  si_Capabilities :: "string list"

text \<open>
  The collaborators with the fields the program gives them; a nil interface is \<open>None\<close>. The SQLite
  stores have no field of their own, and the mail server is part of the environment, so for these
  only presence is kept.
\<close>

record Service =
  sv_emailCodeStore :: redisEmailCodeStore
  sv_oauthStateStore :: redisOAuthStateStore
  sv_keyManager :: KeyManager
  sv_tokenCfg :: TokenConfig
  sv_githubOAuthConfig :: oauth2_Config
  sv_oauthFetchEmailIfMissing :: bool
  sv_mailer :: bool
  sv_loginRateLimiter :: "redisRateLimiter option"
  sv_sendCodeRateLimiter :: "redisRateLimiter option"
  sv_refreshTokenRevocations :: "redisRevocationStore option"
  sv_serviceTokenRateLimiter :: "redisRateLimiter option"
  sv_serverInfo :: ServerInfo

record Dependencies =
  dp_EmailCodeStore :: "redisEmailCodeStore option"
  dp_OAuthStateStore :: "redisOAuthStateStore option"
  dp_UserStore :: bool
  dp_ExternalIdentityStore :: bool
  dp_ServiceAccountStore :: bool
  dp_KeyManager :: "KeyManager option"
  dp_TokenConfig :: TokenConfig
  dp_GithubOAuthConfig :: "oauth2_Config option"
  dp_OAuthFetchEmailIfMissing :: bool
  dp_Mailer :: bool
  dp_LoginRateLimiter :: "redisRateLimiter option"
  dp_SendCodeRateLimiter :: "redisRateLimiter option"
  dp_RefreshTokenRevocations :: "redisRevocationStore option"
  dp_ServiceTokenRateLimiter :: "redisRateLimiter option"
  dp_AuditStore :: bool
  dp_ServerInfo :: ServerInfo

definition NewService :: "Dependencies \<Rightarrow> string + Service" where
  "NewService deps =
     (case dp_EmailCodeStore deps of
        None \<Rightarrow> Inl ''email code store is required''
      | Some codes \<Rightarrow>
     (case dp_OAuthStateStore deps of
        None \<Rightarrow> Inl ''oauth state store is required''
      | Some states \<Rightarrow>
     (if \<not> dp_UserStore deps then Inl ''user store is required''
      else if \<not> dp_ExternalIdentityStore deps then Inl ''external identity store is required''
      else if \<not> dp_ServiceAccountStore deps then Inl ''service account store is required''
      else if \<not> dp_AuditStore deps then Inl ''audit store is required''
      else
     (case dp_KeyManager deps of
        None \<Rightarrow> Inl ''key manager is required''
      | Some km \<Rightarrow>
     (if tc_PrivateKey (dp_TokenConfig deps) = None \<or> tc_PublicKey (dp_TokenConfig deps) = None
      then Inl ''token keys are not initialized''
      else
     (case dp_GithubOAuthConfig deps of
        None \<Rightarrow> Inl ''github oauth config is required''
      | Some github \<Rightarrow>
          Inr \<lparr>sv_emailCodeStore = codes, sv_oauthStateStore = states, sv_keyManager = km,
               sv_tokenCfg = dp_TokenConfig deps, sv_githubOAuthConfig = github,
               sv_oauthFetchEmailIfMissing = dp_OAuthFetchEmailIfMissing deps, sv_mailer = dp_Mailer deps,
               sv_loginRateLimiter = dp_LoginRateLimiter deps,
               sv_sendCodeRateLimiter = dp_SendCodeRateLimiter deps,
               sv_refreshTokenRevocations = dp_RefreshTokenRevocations deps,
               sv_serviceTokenRateLimiter = dp_ServiceTokenRateLimiter deps,
               sv_serverInfo = dp_ServerInfo deps\<rparr>))))))"

abbreviation DefaultOAuthStateExpiration :: go_duration where "DefaultOAuthStateExpiration \<equiv> 10 * minute"
abbreviation DefaultAccessTokenExpiration :: go_duration where "DefaultAccessTokenExpiration \<equiv> 15 * minute"
abbreviation DefaultRefreshTokenExpiration :: go_duration where "DefaultRefreshTokenExpiration \<equiv> 7 * 24 * hour"
abbreviation DefaultTokenIssuer :: string where "DefaultTokenIssuer \<equiv> ''identra''"
abbreviation DefaultLoginMaxAttempts :: int where "DefaultLoginMaxAttempts \<equiv> 5"
abbreviation DefaultLoginLockoutDuration :: go_duration where "DefaultLoginLockoutDuration \<equiv> 15 * minute"
abbreviation DefaultSendCodeMaxAttempts :: int where "DefaultSendCodeMaxAttempts \<equiv> 5"
abbreviation DefaultSendCodeWindow :: go_duration where "DefaultSendCodeWindow \<equiv> 1 * hour"

definition GetServerInfo :: "Service \<Rightarrow> ServerInfo" where
  "GetServerInfo S = sv_serverInfo S"

definition Service_ListSigningKeys :: "Service \<Rightarrow> SigningKey list" where
  "Service_ListSigningKeys S = ListSigningKeys (sv_keyManager S)"

section \<open>Request metadata\<close>

text \<open>The incoming metadata of a call: the values of each header, by its lower-case name.\<close>

type_synonym rpc_ctx = "string \<Rightarrow> string list"

definition bearerToken :: "string \<Rightarrow> string" where
  "bearerToken header =
     (let parts = Fields (TrimSpace header)
      in if length parts \<noteq> 2 \<or> \<not> EqualFold_ascii (parts ! 0) ''Bearer'' then '''' else parts ! 1)"

fun first_nonempty :: "(string \<Rightarrow> string) \<Rightarrow> string list \<Rightarrow> string" where
  "first_nonempty f [] = ''''"
| "first_nonempty f (x # xs) = (if f x \<noteq> '''' then f x else first_nonempty f xs)"

definition accessTokenFromMetadata :: "rpc_ctx \<Rightarrow> string" where
  "accessTokenFromMetadata ctx = first_nonempty bearerToken (ctx ''authorization'')"

definition firstHeaderValue :: "string \<Rightarrow> string" where
  "firstHeaderValue value0 =
     (let value = TrimSpace value0
      in if value = '''' then ''''
         else TrimSpace (takeWhile (\<lambda>c. c \<noteq> CHR '','') value))"

definition clientRateLimitIdentity :: "rpc_ctx \<Rightarrow> string" where
  "clientRateLimitIdentity ctx =
     first_nonempty (\<lambda>key. first_nonempty firstHeaderValue (ctx key))
       [''x-forwarded-for'', ''x-real-ip'', ''x-client-id'']"

section \<open>Rate limiting\<close>

definition emailRateLimitKey :: "'r env \<Rightarrow> string \<Rightarrow> string \<Rightarrow> string" where
  "emailRateLimitKey E scope email = scope @ '':email:'' @ ToLower (e_unicode_lower E) (TrimSpace email)"

definition rateLimitKeys :: "'r env \<Rightarrow> rpc_ctx \<Rightarrow> string \<Rightarrow> string \<Rightarrow> string list" where
  "rateLimitKeys E ctx scope email =
     (let client = clientRateLimitIdentity ctx
      in [emailRateLimitKey E scope email] @ (if client \<noteq> '''' then [scope @ '':client:'' @ client] else []))"

fun rateLimitAllowed :: "'r env \<Rightarrow> redisRateLimiter \<Rightarrow> string list \<Rightarrow> ('r world, string + bool) state" where
  "rateLimitAllowed E limiter [] = State_Monad.return (Inr True)"
| "rateLimitAllowed E limiter (key # keys) =
     andthen (IsAllowed E limiter key)
       (\<lambda>allowed. if \<not> allowed then State_Monad.return (Inr False) else rateLimitAllowed E limiter keys)"

fun recordRateLimit :: "'r env \<Rightarrow> redisRateLimiter \<Rightarrow> string list \<Rightarrow> ('r world, string + unit) state" where
  "recordRateLimit E limiter [] = State_Monad.return (Inr ())"
| "recordRateLimit E limiter (key # keys) =
     andthen (Record E limiter key) (\<lambda>_. recordRateLimit E limiter keys)"

text \<open>The three places a handler consults an optional limiter: before, on failure, on success.\<close>

definition limited :: "'r env \<Rightarrow> redisRateLimiter option \<Rightarrow> string list \<Rightarrow> ('r world, bool) state" where
  "limited E limiter keys =
     (case limiter of
        None \<Rightarrow> State_Monad.return False
      | Some rl \<Rightarrow> do {
          r \<leftarrow> rateLimitAllowed E rl keys;
          State_Monad.return (case r of Inl e \<Rightarrow> False | Inr allowed \<Rightarrow> \<not> allowed)
        })"

definition record_failure :: "'r env \<Rightarrow> redisRateLimiter option \<Rightarrow> string list \<Rightarrow> ('r world, unit) state" where
  "record_failure E limiter keys =
     (case limiter of
        None \<Rightarrow> State_Monad.return ()
      | Some rl \<Rightarrow> do { r \<leftarrow> recordRateLimit E rl keys; State_Monad.return () })"

definition reset_limit :: "'r env \<Rightarrow> redisRateLimiter option \<Rightarrow> string \<Rightarrow> ('r world, unit) state" where
  "reset_limit E limiter key =
     (case limiter of
        None \<Rightarrow> State_Monad.return ()
      | Some rl \<Rightarrow> do { r \<leftarrow> Reset E rl key; State_Monad.return () })"

section \<open>Recording a login\<close>

text \<open>
  The user struct is updated in place before the store is called, and the store's error is only
  logged: the struct that comes back carries the new login time in any case.
\<close>

definition recordLogin :: "'r env \<Rightarrow> UserModel \<Rightarrow> ('r world, UserModel) state" where
  "recordLogin E usr = do {
     now \<leftarrow> time_Now E;
     let usr1 = usr\<lparr>um_LastLoginAt := Some now\<rparr>;
     r \<leftarrow> UserStore_Update E usr1;
     State_Monad.return (case r of Inl e \<Rightarrow> usr1 | Inr usr2 \<Rightarrow> usr2)
   }"

definition issue_pair :: "'r env \<Rightarrow> Service \<Rightarrow> string \<Rightarrow> ('r, TokenPair) rpc" where
  "issue_pair E S userID =
     on_error (NewTokenPair E userID (sv_tokenCfg S)) (\<lambda>_. Status Internal ''failed to create token pair'')"

definition new_user :: "string \<Rightarrow> string option \<Rightarrow> UserModel" where
  "new_user email hash =
     \<lparr>um_ID = '''', um_CreatedAt = 0, um_UpdatedAt = 0, um_Email = email, um_HashedPassword = hash,
      um_VerificationHash = None, um_LastLoginAt = None\<rparr>"

section \<open>Frames\<close>

lemma evolves_IsAllowed [forward]: "evolves (IsAllowed E rl k)"
  and evolves_Record [forward]: "evolves (Record E rl k)"
  and evolves_Reset [forward]: "evolves (Reset E rl k)"
  and evolves_Revoke [forward]: "evolves (Revoke E s i t)"
  and evolves_IsRevoked [forward]: "evolves (IsRevoked E s i)"
  and evolves_code_Set [forward]: "evolves (EmailCodeStore_Set E c e v)"
  and evolves_code_Consume [forward]: "evolves (EmailCodeStore_Consume E c e v)"
  and evolves_state_Add [forward]: "evolves (OAuthStateStore_Add E st k p u)"
  and evolves_state_Consume [forward]: "evolves (OAuthStateStore_Consume E st k)"
  unfolding IsAllowed_def Record_def Reset_def Revoke_def IsRevoked_def EmailCodeStore_Set_def
    EmailCodeStore_Consume_def OAuthStateStore_Add_def OAuthStateStore_Consume_def
  by (intro forward)+

lemma evolves_rateLimitAllowed [forward]: "evolves (rateLimitAllowed E rl keys)"
  by (induction keys) (auto intro!: forward)

lemma evolves_recordRateLimit [forward]: "evolves (recordRateLimit E rl keys)"
  by (induction keys) (auto intro!: forward)

lemma evolves_limiter [forward]:
  "evolves (limited E l keys)" "evolves (record_failure E l keys)" "evolves (reset_limit E l k)"
  unfolding limited_def record_failure_def reset_limit_def by (intro forward)+

lemma evolves_NewStandardClaims [forward]: "evolves (NewStandardClaims E u ty iss x)"
  unfolding NewStandardClaims_def by (intro forward)

lemma evolves_tokens [forward]:
  "evolves (NewTokenPair E u cfg)" "evolves (NewServiceToken E u sc cfg)" "evolves (ValidateToken E t pk)"
  unfolding NewTokenPair_def NewServiceToken_def ValidateToken_def by (intro forward)+

lemma evolves_validate [forward]:
  "evolves (ValidateAccessToken E t pk)" "evolves (ValidateRefreshToken E t pk)" "evolves (ValidateServiceToken E t pk)"
  unfolding ValidateAccessToken_def ValidateRefreshToken_def ValidateServiceToken_def by (intro forward)+

lemma evolves_HashPassword [forward]: "evolves (HashPassword E pw)"
  unfolding HashPassword_def by (intro forward)

lemma evolves_recordLogin [forward]: "evolves (recordLogin E usr)"
  unfolding recordLogin_def by (intro forward)

lemma evolves_issue_pair [forward]: "evolves (issue_pair E S u)"
  unfolding issue_pair_def by (intro forward)

end
