(* ===== verification/Service_Auth.thy ===== *)
theory Service_Auth
  imports Service_Base
begin

text \<open>
  The handlers that log users in and manage their sessions: \<^verbatim>\<open>service_password.go\<close>,
  \<^verbatim>\<open>service_email_code.go\<close>, \<^verbatim>\<open>service_tokens.go\<close> and \<^verbatim>\<open>service_login_info.go\<close> of
  \<^verbatim>\<open>internal/identra\<close>.
\<close>

section \<open>Passwords\<close>

definition pw_status :: "string \<Rightarrow> pw_error \<Rightarrow> rpc_error" where
  "pw_status msg e = (case e of PwError _ \<Rightarrow> Status Internal msg | PwPanic \<Rightarrow> Panicked)"

definition RegisterWithPassword :: "'r env \<Rightarrow> Service \<Rightarrow> string \<Rightarrow> string \<Rightarrow> ('r, TokenPair) rpc" where
  "RegisterWithPassword E S req_email password = do {
     let email = TrimSpace req_email;
     if email = '''' \<or> password = '''' then fail InvalidArgument ''email and password are required''
     else do {
       g \<leftarrow> UserStore_GetByEmail E email;
       case g of
         Inr _ \<Rightarrow> fail AlreadyExists ''user already exists''
       | Inl err \<Rightarrow>
           if err \<noteq> ErrNotFound then fail Internal ''failed to fetch user''
           else andthen (on_error (HashPassword E password) (pw_status ''failed to process password'')) (\<lambda>hash.
             andthen (on_error (UserStore_Create E (new_user email (Some hash)))
               (\<lambda>e. if e = ErrAlreadyExists then Status AlreadyExists ''user already exists''
                    else Status Internal ''failed to create user'')) (\<lambda>usr. do {
               usr' \<leftarrow> recordLogin E usr;
               issue_pair E S (um_ID usr')
             }))
     }
   }"

definition LoginWithPassword ::
  "'r env \<Rightarrow> Service \<Rightarrow> rpc_ctx \<Rightarrow> string \<Rightarrow> string \<Rightarrow> ('r, TokenPair) rpc" where
  "LoginWithPassword E S ctx req_email password = do {
     let email = TrimSpace req_email;
     if email = '''' \<or> password = '''' then fail InvalidArgument ''email and password are required''
     else do {
       blocked \<leftarrow> limited E (sv_loginRateLimiter S) (rateLimitKeys E ctx ''login'' email);
       if blocked then fail ResourceExhausted ''too many failed attempts, please try again later''
       else
         andthen (on_error (UserStore_GetByEmail E email)
           (\<lambda>e. if e = ErrNotFound then Status NotFound ''user not found''
                else Status Internal ''failed to fetch user'')) (\<lambda>usr.
           case um_HashedPassword usr of
             None \<Rightarrow> fail FailedPrecondition ''password login not set up for this account''
           | Some hash \<Rightarrow>
               (case VerifyPassword E password hash of
                  Inl e \<Rightarrow> State_Monad.return (Inl (pw_status ''failed to verify password'' e))
                | Inr valid \<Rightarrow>
                    if \<not> valid then do {
                      record_failure E (sv_loginRateLimiter S) (rateLimitKeys E ctx ''login'' email);
                      fail Unauthenticated ''invalid credentials''
                    } else do {
                      reset_limit E (sv_loginRateLimiter S) (emailRateLimitKey E ''login'' email);
                      usr' \<leftarrow> recordLogin E usr;
                      issue_pair E S (um_ID usr')
                    }))
     }
   }"

section \<open>Email codes\<close>

definition generateEmailCode :: "'r env \<Rightarrow> ('r world, string option) state" where
  "generateEmailCode E = do {
     num \<leftarrow> rand_Int E 1000000;
     State_Monad.return (map_option (\<lambda>n. pad0 6 (Itoa (int n))) num)
   }"

text \<open>The text of the HTML body, line by line with its indentation in tabs, around its two holes.\<close>

definition html_before :: "(nat \<times> string) list" where
  "html_before =
     [(0, ''''),
      (0, ''<!DOCTYPE html>''),
      (0, ''<html>''),
      (0, ''<head>''),
      (1, ''<meta charset=\"UTF-8\">''),
      (1, ''<style>''),
      (2, ''body { font-family: Arial, sans-serif; line-height: 1.6; color: #333; }''),
      (2, ''.container { max-width: 600px; margin: 0 auto; padding: 20px; }''),
      (2, ''.header { background-color: #4CAF50; color: white; padding: 20px; text-align: center; }''),
      (2, ''.content { background-color: #f9f9f9; padding: 30px; border-radius: 5px; margin-top: 20px; }''),
      (2, ''.code { font-size: 32px; font-weight: bold; color: #4CAF50; text-align: center; letter-spacing: 5px; padding: 20px; background-color: #fff; border-radius: 5px; margin: 20px 0; }''),
      (2, ''.footer { text-align: center; margin-top: 20px; color: #666; font-size: 12px; }''),
      (1, ''</style>''),
      (0, ''</head>''),
      (0, ''<body>''),
      (1, ''<div class=\"container\">''),
      (2, ''<div class=\"header\">''),
      (3, ''<h1>Verification Code</h1>''),
      (2, ''</div>''),
      (2, ''<div class=\"content\">''),
      (3, ''<p>Hello,</p>''),
      (3, ''<p>You have requested a verification code. Please use the code below to complete your verification:</p>''),
      (3, ''<div class=\"code\">'')]"

definition html_middle :: "(nat \<times> string) list" where
  "html_middle =
     [(0, ''</div>''),
      (3, ''<p>This code will expire in <strong>'')]"

definition html_after :: "(nat \<times> string) list" where
  "html_after =
     [(0, '' minutes</strong>.</p>''),
      (3, ''<p>If you did not request this code, please ignore this email.</p>''),
      (2, ''</div>''),
      (2, ''<div class=\"footer\">''),
      (3, ''<p>This is an automated message, please do not reply.</p>''),
      (2, ''</div>''),
      (1, ''</div>''),
      (0, ''</body>''),
      (0, ''</html>''),
      (0, '''')]"

fun text_lines :: "(nat \<times> string) list \<Rightarrow> string" where
  "text_lines [] = ''''"
| "text_lines [(n, l)] = replicate n (CHR 0x09) @ l"
| "text_lines ((n, l) # r) = replicate n (CHR 0x09) @ l @ [CHR 0x0A] @ text_lines r"

definition html_body :: "string \<Rightarrow> int \<Rightarrow> string" where
  "html_body code minutes =
     text_lines html_before @ code @ text_lines html_middle @ Itoa minutes @ text_lines html_after"

definition text_body :: "string \<Rightarrow> int \<Rightarrow> string" where
  "text_body code minutes =
     ''Your verification code is: '' @ code @ '' (valid for '' @ Itoa minutes @ '' minutes)''"

definition sendVerificationCode ::
  "'r env \<Rightarrow> string \<Rightarrow> string \<Rightarrow> int \<Rightarrow> bool \<Rightarrow> ('r world, string option) state" where
  "sendVerificationCode E recipient code expiryMinutes useHTML =
     (let subject = ''Your Verification Code''
      in if useHTML
         then send_Mail E \<lparr>em_ToEmails = [recipient], em_Subject = subject,
                           em_Body = html_body code expiryMinutes, em_IsHTML = True\<rparr>
         else send_Mail E \<lparr>em_ToEmails = [recipient], em_Subject = subject,
                           em_Body = text_body code expiryMinutes, em_IsHTML = False\<rparr>)"

text \<open>A code request counts as an attempt whether or not it succeeds, unless the limiter fails.\<close>

definition send_code_limited :: "'r env \<Rightarrow> redisRateLimiter option \<Rightarrow> string list \<Rightarrow> ('r world, bool) state" where
  "send_code_limited E limiter keys =
     (case limiter of
        None \<Rightarrow> State_Monad.return False
      | Some rl \<Rightarrow> do {
          r \<leftarrow> rateLimitAllowed E rl keys;
          case r of
            Inl e \<Rightarrow> State_Monad.return False
          | Inr allowed \<Rightarrow>
              if \<not> allowed then State_Monad.return True
              else do { x \<leftarrow> recordRateLimit E rl keys; State_Monad.return False }
        })"

definition RequestEmailLoginCode ::
  "'r env \<Rightarrow> Service \<Rightarrow> rpc_ctx \<Rightarrow> string \<Rightarrow> bool \<Rightarrow> ('r, unit) rpc" where
  "RequestEmailLoginCode E S ctx req_email use_html =
     (if \<not> sv_mailer S then fail FailedPrecondition ''mail service is disabled''
      else do {
        let email = TrimSpace req_email;
        if email = '''' then fail InvalidArgument ''email is required''
        else do {
          blocked \<leftarrow> send_code_limited E (sv_sendCodeRateLimiter S) (rateLimitKeys E ctx ''send_code'' email);
          if blocked then fail ResourceExhausted ''too many verification code requests, please try again later''
          else do {
            c \<leftarrow> generateEmailCode E;
            case c of
              None \<Rightarrow> fail Internal ''failed to generate code''
            | Some code \<Rightarrow>
                andthen (on_error (EmailCodeStore_Set E (sv_emailCodeStore S) email code)
                  (\<lambda>_. Status Internal ''failed to store verification code'')) (\<lambda>_. do {
                  m \<leftarrow> sendVerificationCode E email code 10 use_html;
                  case m of
                    Some e \<Rightarrow> fail Internal ''failed to send verification email''
                  | None \<Rightarrow> reply ()
                })
          }
        }
      })"

definition LoginWithEmailCode ::
  "'r env \<Rightarrow> Service \<Rightarrow> rpc_ctx \<Rightarrow> string \<Rightarrow> string \<Rightarrow> ('r, TokenPair) rpc" where
  "LoginWithEmailCode E S ctx req_email req_code = do {
     let email = TrimSpace req_email;
     let code = TrimSpace req_code;
     if email = '''' \<or> code = '''' then fail InvalidArgument ''email and code are required''
     else do {
       blocked \<leftarrow> limited E (sv_loginRateLimiter S) (rateLimitKeys E ctx ''login'' email);
       if blocked then fail ResourceExhausted ''too many failed attempts, please try again later''
       else
         andthen (on_error (EmailCodeStore_Consume E (sv_emailCodeStore S) email code)
           (\<lambda>_. Status Internal ''failed to validate code'')) (\<lambda>ok.
           if \<not> ok then do {
             record_failure E (sv_loginRateLimiter S) (rateLimitKeys E ctx ''login'' email);
             fail Unauthenticated ''invalid or expired code''
           } else do {
             g \<leftarrow> UserStore_GetByEmail E email;
             andthen
               (case g of
                  Inr usr \<Rightarrow> reply usr
                | Inl err \<Rightarrow>
                    if err = ErrNotFound
                    then on_error (UserStore_Create E (new_user email None)) (\<lambda>_. Status Internal ''failed to create user'')
                    else fail Internal ''failed to fetch user'')
               (\<lambda>usr. do {
                  reset_limit E (sv_loginRateLimiter S) (emailRateLimitKey E ''login'' email);
                  usr' \<leftarrow> recordLogin E usr;
                  issue_pair E S (um_ID usr')
                })
           })
     }
   }"

section \<open>Sessions\<close>

definition ensureRefreshTokenActive :: "'r env \<Rightarrow> Service \<Rightarrow> StandardClaims \<Rightarrow> ('r, unit) rpc" where
  "ensureRefreshTokenActive E S claims =
     (case sv_refreshTokenRevocations S of
        None \<Rightarrow> reply ()
      | Some store \<Rightarrow>
          andthen (on_error (IsRevoked E store (cl_TokenID claims))
            (\<lambda>_. Status Internal ''failed to validate refresh token''))
            (\<lambda>revoked. if revoked then fail Unauthenticated ''refresh token has been revoked'' else reply ()))"

definition revokeRefreshClaims :: "'r env \<Rightarrow> Service \<Rightarrow> StandardClaims \<Rightarrow> ('r, unit) rpc" where
  "revokeRefreshClaims E S claims =
     (case sv_refreshTokenRevocations S of
        None \<Rightarrow> reply ()
      | Some store \<Rightarrow>
          (case rc_ExpiresAt claims of
             None \<Rightarrow> reply ()
           | Some expiresAt \<Rightarrow>
               on_error (Revoke E store (cl_TokenID claims) expiresAt)
                 (\<lambda>_. Status Internal ''failed to revoke refresh token'')))"

definition RefreshSession :: "'r env \<Rightarrow> Service \<Rightarrow> string \<Rightarrow> ('r, TokenPair) rpc" where
  "RefreshSession E S req_token = do {
     let refreshToken = TrimSpace req_token;
     if refreshToken = '''' then fail InvalidArgument ''refresh token is required''
     else
       andthen (on_error (ValidateRefreshToken E refreshToken (tc_PublicKey (sv_tokenCfg S)))
         (\<lambda>_. Status Unauthenticated ''invalid refresh token'')) (\<lambda>claims.
       andthen (ensureRefreshTokenActive E S claims) (\<lambda>_.
       andthen (on_error (UserStore_GetByID E (cl_UserID claims))
         (\<lambda>e. if e = ErrNotFound then Status Unauthenticated ''user is inactive''
              else Status Internal ''failed to validate refresh token'')) (\<lambda>_.
       andthen (on_error (NewTokenPair E (cl_UserID claims) (sv_tokenCfg S))
         (\<lambda>_. Status Internal ''failed to refresh token'')) (\<lambda>tokenPair.
       andthen (revokeRefreshClaims E S claims) (\<lambda>_. reply tokenPair)))))
   }"

definition RevokeSession :: "'r env \<Rightarrow> Service \<Rightarrow> string \<Rightarrow> ('r, unit) rpc" where
  "RevokeSession E S req_token = do {
     let refreshToken = TrimSpace req_token;
     if refreshToken = '''' then fail InvalidArgument ''refresh token is required''
     else
       andthen (on_error (ValidateRefreshToken E refreshToken (tc_PublicKey (sv_tokenCfg S)))
         (\<lambda>_. Status Unauthenticated ''invalid refresh token'')) (\<lambda>claims.
       andthen (ensureRefreshTokenActive E S claims) (\<lambda>_.
       andthen (revokeRefreshClaims E S claims) (\<lambda>_. reply ())))
   }"

section \<open>The current user\<close>

datatype AuthProvider = AUTH_PROVIDER_UNSPECIFIED | AUTH_PROVIDER_GITHUB

definition authProviderValue :: "'r env \<Rightarrow> string \<Rightarrow> AuthProvider" where
  "authProviderValue E provider =
     (if ToLower (e_unicode_lower E) (TrimSpace provider) = ''github'' then AUTH_PROVIDER_GITHUB
      else AUTH_PROVIDER_UNSPECIFIED)"

record LinkedOAuthAccount =
  lo_Provider :: AuthProvider
  lo_ProviderUserId :: string

record pb_User =
  pu_Id :: string
  pu_Email :: string
  pu_PasswordLoginEnabled :: bool
  pu_LinkedOauthAccounts :: "LinkedOAuthAccount list"

definition GetCurrentUser :: "'r env \<Rightarrow> Service \<Rightarrow> rpc_ctx \<Rightarrow> ('r, pb_User) rpc" where
  "GetCurrentUser E S ctx = do {
     let accessToken = accessTokenFromMetadata ctx;
     if accessToken = '''' then fail Unauthenticated ''access token is required''
     else
       andthen (on_error (ValidateAccessToken E accessToken (tc_PublicKey (sv_tokenCfg S)))
         (\<lambda>_. Status Unauthenticated ''invalid access token'')) (\<lambda>claims.
       andthen (on_error (UserStore_GetByID E (cl_UserID claims))
         (\<lambda>e. if e = ErrNotFound then Status NotFound ''user not found''
              else Status Internal ''failed to fetch user'')) (\<lambda>usr. do {
         ids \<leftarrow> ExternalIdentityStore_GetByUserID E (um_ID usr);
         reply \<lparr>pu_Id = um_ID usr, pu_Email = um_Email usr,
                pu_PasswordLoginEnabled =
                  (case um_HashedPassword usr of None \<Rightarrow> False | Some h \<Rightarrow> TrimSpace h \<noteq> ''''),
                pu_LinkedOauthAccounts =
                  (case ids of Inl e \<Rightarrow> []
                   | Inr identities \<Rightarrow>
                       map (\<lambda>i. \<lparr>lo_Provider = authProviderValue E (xi_Provider i),
                                 lo_ProviderUserId = xi_ProviderUserID i\<rparr>) identities)\<rparr>
       }))
   }"

section \<open>Frames\<close>

lemma evolves_send_code_limited [forward]: "evolves (send_code_limited E l keys)"
  unfolding send_code_limited_def by (intro forward)

lemma evolves_generateEmailCode [forward]: "evolves (generateEmailCode E)"
  unfolding generateEmailCode_def by (intro forward)

lemma evolves_sendVerificationCode [forward]: "evolves (sendVerificationCode E r c m h)"
  unfolding sendVerificationCode_def by (intro forward)

lemma evolves_refresh_parts [forward]:
  "evolves (ensureRefreshTokenActive E S c)" "evolves (revokeRefreshClaims E S c)"
  unfolding ensureRefreshTokenActive_def revokeRefreshClaims_def by (intro forward)+

lemma evolves_auth_handlers [forward]:
  "evolves (RegisterWithPassword E S e p)" "evolves (LoginWithPassword E S ctx e p)"
  "evolves (RequestEmailLoginCode E S ctx e h)" "evolves (LoginWithEmailCode E S ctx e c)"
  "evolves (RefreshSession E S t)" "evolves (RevokeSession E S t)" "evolves (GetCurrentUser E S ctx)"
  unfolding RegisterWithPassword_def LoginWithPassword_def RequestEmailLoginCode_def LoginWithEmailCode_def
    RefreshSession_def RevokeSession_def GetCurrentUser_def
  by (intro forward)+

section \<open>What a successful call went through\<close>

text \<open>The common end of every login: counters reset, login recorded, tokens issued.\<close>

definition finish_login :: "'r env \<Rightarrow> Service \<Rightarrow> string \<Rightarrow> UserModel \<Rightarrow> ('r, TokenPair) rpc" where
  "finish_login E S email usr = do {
     reset_limit E (sv_loginRateLimiter S) (emailRateLimitKey E ''login'' email);
     usr' \<leftarrow> recordLogin E usr;
     issue_pair E S (um_ID usr')
   }"

lemma RegisterWithPassword_success:
  assumes "run_state (RegisterWithPassword E S req pw) w = (Inr p, w')"
  obtains w1 hash w2 usr w3 usr' w4 where
    "run_state (UserStore_GetByEmail E (TrimSpace req)) w = (Inl ErrNotFound, w1)"
    "run_state (HashPassword E pw) w1 = (Inr hash, w2)"
    "run_state (UserStore_Create E (new_user (TrimSpace req) (Some hash))) w2 = (Inr usr, w3)"
    "run_state (recordLogin E usr) w3 = (usr', w4)"
    "run_state (issue_pair E S (um_ID usr')) w4 = (Inr p, w')"
    "TrimSpace req \<noteq> ''''" "pw \<noteq> ''''"
  using assms unfolding RegisterWithPassword_def run_Let
  by (auto split: if_splits sum.splits elim!: bind_runE andthen_InrE dest!: on_error_InrE
      simp del: State_Monad.run_state_bind)

lemma LoginWithPassword_success:
  assumes "run_state (LoginWithPassword E S ctx req pw) w = (Inr p, w')"
  obtains w1 usr w2 hash where
    "run_state (limited E (sv_loginRateLimiter S) (rateLimitKeys E ctx ''login'' (TrimSpace req))) w = (False, w1)"
    "run_state (UserStore_GetByEmail E (TrimSpace req)) w1 = (Inr usr, w2)"
    "um_HashedPassword usr = Some hash" "VerifyPassword E pw hash = Inr True"
    "run_state (finish_login E S (TrimSpace req) usr) w2 = (Inr p, w')"
  using assms unfolding LoginWithPassword_def run_Let finish_login_def [symmetric]
  by (auto split: if_splits sum.splits option.splits elim!: bind_runE andthen_InrE dest!: on_error_InrE
      simp del: State_Monad.run_state_bind)

lemma LoginWithEmailCode_success:
  assumes "run_state (LoginWithEmailCode E S ctx req req_code) w = (Inr p, w')"
  obtains w1 w2 g w3 usr w4 where
    "run_state (limited E (sv_loginRateLimiter S) (rateLimitKeys E ctx ''login'' (TrimSpace req))) w = (False, w1)"
    "run_state (EmailCodeStore_Consume E (sv_emailCodeStore S) (TrimSpace req) (TrimSpace req_code)) w1 = (Inr True, w2)"
    "run_state (UserStore_GetByEmail E (TrimSpace req)) w2 = (g, w3)"
    "(g = Inr usr \<and> w4 = w3) \<or>
     (g = Inl ErrNotFound \<and> run_state (UserStore_Create E (new_user (TrimSpace req) None)) w3 = (Inr usr, w4))"
    "run_state (finish_login E S (TrimSpace req) usr) w4 = (Inr p, w')"
  using assms unfolding LoginWithEmailCode_def run_Let finish_login_def [symmetric]
  by (auto split: if_splits sum.splits option.splits elim!: bind_runE andthen_InrE dest!: on_error_InrE
      simp del: State_Monad.run_state_bind)

lemma RefreshSession_success:
  assumes "run_state (RefreshSession E S req) w = (Inr p, w')"
  obtains claims w1 w2 usr w3 w4 where
    "run_state (ValidateRefreshToken E (TrimSpace req) (tc_PublicKey (sv_tokenCfg S))) w = (Inr claims, w1)"
    "run_state (ensureRefreshTokenActive E S claims) w1 = (Inr (), w2)"
    "run_state (UserStore_GetByID E (cl_UserID claims)) w2 = (Inr usr, w3)"
    "run_state (NewTokenPair E (cl_UserID claims) (sv_tokenCfg S)) w3 = (Inr p, w4)"
    "run_state (revokeRefreshClaims E S claims) w4 = (Inr (), w')"
  using assms unfolding RefreshSession_def run_Let
  by (auto split: if_splits sum.splits option.splits elim!: bind_runE andthen_InrE dest!: on_error_InrE
      simp del: State_Monad.run_state_bind)

lemma RevokeSession_success:
  assumes "run_state (RevokeSession E S req) w = (Inr u, w')"
  obtains claims w1 w2 where
    "run_state (ValidateRefreshToken E (TrimSpace req) (tc_PublicKey (sv_tokenCfg S))) w = (Inr claims, w1)"
    "run_state (ensureRefreshTokenActive E S claims) w1 = (Inr (), w2)"
    "run_state (revokeRefreshClaims E S claims) w2 = (Inr (), w')"
  using assms unfolding RevokeSession_def run_Let
  by (auto split: if_splits sum.splits option.splits elim!: bind_runE andthen_InrE dest!: on_error_InrE
      simp del: State_Monad.run_state_bind)

end
