(* ===== verification/Service_OAuth.thy ===== *)
theory Service_OAuth
  imports Service_Auth
begin

text \<open>
  OAuth login and account linking of \<^verbatim>\<open>internal/identra/service_oauth.go\<close> with the GitHub user
  provider of \<^verbatim>\<open>user_info_provider.go\<close>. The OAuth2 code exchange and the two GitHub endpoints are
  parameters of the environment; \<open>None\<close> is an error of the call.
\<close>

section \<open>The user provider\<close>

record UserInfo =
  ui_Provider :: string
  ui_ID :: string
  ui_Email :: string
  ui_Username :: string
  ui_AvatarURL :: string

datatype UserInfoProvider = GitHubUserInfoProvider

definition GetUserProvider :: "string \<Rightarrow> string + UserInfoProvider" where
  "GetUserProvider name =
     (if name = ''github'' then Inr GitHubUserInfoProvider else Inl (''provider '' @ name @ '' not supported''))"

definition GetUserInfo :: "'r env \<Rightarrow> string \<Rightarrow> ('r world, UserInfo option) state" where
  "GetUserInfo E token = do {
     n \<leftarrow> next_tick;
     State_Monad.return
       (map_option (\<lambda>user. \<lparr>ui_Provider = ''github'', ui_ID = Itoa (gu_ID user), ui_Email = gu_Email user,
                             ui_Username = gu_Login user, ui_AvatarURL = gu_AvatarURL user\<rparr>)
         (e_github_user E n token))
   }"

text \<open>The loop over the addresses, with its two fallbacks so far.\<close>

fun pick_email :: "string \<Rightarrow> string \<Rightarrow> github_Email list \<Rightarrow> string" where
  "pick_email firstVerified firstAny [] = (if firstVerified \<noteq> '''' then firstVerified else firstAny)"
| "pick_email firstVerified firstAny (e # es) =
     (let email = ge_Email e
      in if email = '''' then pick_email firstVerified firstAny es
         else
           (let firstAny' = (if firstAny = '''' then email else firstAny)
            in if ge_Primary e \<and> ge_Verified e then email
               else pick_email (if firstVerified = '''' \<and> ge_Verified e then email else firstVerified) firstAny' es))"

definition GetEmail :: "'r env \<Rightarrow> string \<Rightarrow> ('r world, string option) state" where
  "GetEmail E token = do {
     n \<leftarrow> next_tick;
     State_Monad.return (map_option (pick_email '''' '''') (e_github_emails E n token))
   }"

section \<open>Starting a login\<close>

datatype UnavailableReason = REASON_UNSPECIFIED | MISSING_CLIENT_ID | MISSING_CLIENT_SECRET

record AuthProviderStatus =
  ap_Provider :: AuthProvider
  ap_Enabled :: bool
  ap_UnavailableReason :: UnavailableReason

definition ListOAuthProviders :: "Service \<Rightarrow> AuthProviderStatus list" where
  "ListOAuthProviders S =
     (let github = \<lparr>ap_Provider = AUTH_PROVIDER_GITHUB, ap_Enabled = False, ap_UnavailableReason = REASON_UNSPECIFIED\<rparr>;
          cfg = sv_githubOAuthConfig S
      in [if oc_ClientID cfg = '''' then github\<lparr>ap_UnavailableReason := MISSING_CLIENT_ID\<rparr>
          else if oc_ClientSecret cfg = '''' then github\<lparr>ap_UnavailableReason := MISSING_CLIENT_SECRET\<rparr>
          else github\<lparr>ap_Enabled := True\<rparr>])"

fun authProviderName :: "AuthProvider \<Rightarrow> string option" where
  "authProviderName AUTH_PROVIDER_GITHUB = Some ''github''"
| "authProviderName AUTH_PROVIDER_UNSPECIFIED = None"

definition oauthConfigForRedirect :: "Service \<Rightarrow> string \<Rightarrow> oauth2_Config" where
  "oauthConfigForRedirect S redirectURL = (sv_githubOAuthConfig S)\<lparr>oc_RedirectURL := redirectURL\<rparr>"

definition generateOAuthState :: "'r env \<Rightarrow> ('r world, string option) state" where
  "generateOAuthState E = do { buf \<leftarrow> rand_Read E 32; State_Monad.return (map_option hex_EncodeToString buf) }"

definition StartOAuthLogin ::
  "'r env \<Rightarrow> Service \<Rightarrow> AuthProvider \<Rightarrow> string \<Rightarrow> ('r, string \<times> string) rpc" where
  "StartOAuthLogin E S req_provider req_redirect =
     (case authProviderName req_provider of
        None \<Rightarrow> fail InvalidArgument ''provider is required and must be supported''
      | Some provider \<Rightarrow> do {
          let redirectURL = TrimSpace req_redirect;
          if redirectURL = '''' then fail InvalidArgument ''redirect URL is required''
          else if oc_ClientID (sv_githubOAuthConfig S) = '''' \<or> oc_ClientSecret (sv_githubOAuthConfig S) = ''''
          then fail FailedPrecondition ''GitHub OAuth is not configured''
          else do {
            g \<leftarrow> generateOAuthState E;
            case g of
              None \<Rightarrow> fail Internal ''failed to generate oauth state''
            | Some state \<Rightarrow>
                andthen (on_error (OAuthStateStore_Add E (sv_oauthStateStore S) state provider redirectURL)
                  (\<lambda>_. Status Internal ''failed to store oauth state''))
                  (\<lambda>_. reply (e_auth_code_url E (oauthConfigForRedirect S redirectURL) state, state))
          }
        })"

section \<open>The user behind an identity\<close>

definition new_identity :: "string \<Rightarrow> string \<Rightarrow> string \<Rightarrow> ExternalIdentityModel" where
  "new_identity userID provider providerUserID =
     \<lparr>xi_ID = '''', xi_UserID = userID, xi_Provider = provider, xi_ProviderUserID = providerUserID,
      xi_CreatedAt = 0, xi_UpdatedAt = 0\<rparr>"

definition updateEmailIfNeeded :: "'r env \<Rightarrow> UserModel \<Rightarrow> string \<Rightarrow> ('r, UserModel) rpc" where
  "updateEmailIfNeeded E usr email =
     (if um_Email usr = email \<or> email = '''' then reply usr
      else on_error (UserStore_Update E (usr\<lparr>um_Email := email\<rparr>))
             (\<lambda>_. Status Internal ''failed to update user email''))"

text \<open>Linking the identity to the user its email address names.\<close>

definition merge_by_email :: "'r env \<Rightarrow> UserInfo \<Rightarrow> UserModel \<Rightarrow> ('r, UserModel) rpc" where
  "merge_by_email E info byEmail = do {
     c \<leftarrow> ExternalIdentityStore_Create E (new_identity (um_ID byEmail) (ui_Provider info) (ui_ID info));
     case c of
       Inr _ \<Rightarrow> reply byEmail
     | Inl createErr \<Rightarrow>
         if createErr = ErrAlreadyExists then do {
           g \<leftarrow> ExternalIdentityStore_GetByProviderID E (ui_Provider info) (ui_ID info);
           case g of
             Inl _ \<Rightarrow> fail Internal ''failed to verify oauth account link''
           | Inr existingIdentity \<Rightarrow>
               if xi_UserID existingIdentity = um_ID byEmail then reply byEmail
               else fail AlreadyExists ''oauth account already linked to another user''
         } else fail Internal ''failed to link oauth account''
   }"

text \<open>A new user with the identity; when the identity cannot be created, the user is deleted again.\<close>

definition create_oauth_user :: "'r env \<Rightarrow> UserInfo \<Rightarrow> ('r, UserModel) rpc" where
  "create_oauth_user E info =
     andthen (on_error (UserStore_Create E (new_user (ui_Email info) None))
       (\<lambda>e. if e = ErrAlreadyExists then Status AlreadyExists ''user already exists''
            else Status Internal ''failed to create user'')) (\<lambda>userModel. do {
       c \<leftarrow> ExternalIdentityStore_Create E (new_identity (um_ID userModel) (ui_Provider info) (ui_ID info));
       case c of
         Inr _ \<Rightarrow> reply userModel
       | Inl createErr \<Rightarrow> do {
           let isConflict = (createErr = ErrAlreadyExists);
           x \<leftarrow> UserStore_Delete E (um_ID userModel);
           if isConflict then fail AlreadyExists ''oauth account already linked''
           else fail Internal ''failed to create oauth identity''
         }
     })"

definition ensureOAuthUser :: "'r env \<Rightarrow> UserInfo \<Rightarrow> ('r, UserModel) rpc" where
  "ensureOAuthUser E info =
     (if ui_ID info = '''' then fail Internal ''provider user id is empty''
      else if ui_Provider info = '''' then fail Internal ''provider name is empty''
      else do {
        g \<leftarrow> ExternalIdentityStore_GetByProviderID E (ui_Provider info) (ui_ID info);
        case g of
          Inr existing \<Rightarrow>
            andthen (on_error (UserStore_GetByID E (xi_UserID existing))
              (\<lambda>_. Status Internal ''failed to fetch user linked to oauth identity''))
              (\<lambda>usr. updateEmailIfNeeded E usr (ui_Email info))
        | Inl err \<Rightarrow>
            if err \<noteq> ErrNotFound then fail Internal ''failed to fetch user by provider id''
            else if TrimSpace (ui_Email info) = ''''
            then fail FailedPrecondition ''oauth provider did not supply an email address''
            else do {
              b \<leftarrow> UserStore_GetByEmail E (ui_Email info);
              case b of
                Inr byEmail \<Rightarrow> merge_by_email E info byEmail
              | Inl emailErr \<Rightarrow>
                  if emailErr = ErrNotFound then create_oauth_user E info
                  else fail Internal ''failed to fetch user by email''
            }
      })"

definition maybeFillOAuthEmail :: "'r env \<Rightarrow> Service \<Rightarrow> string \<Rightarrow> UserInfo \<Rightarrow> ('r world, UserInfo) state" where
  "maybeFillOAuthEmail E S accessToken info =
     (if ui_Email info \<noteq> '''' \<or> \<not> sv_oauthFetchEmailIfMissing S then State_Monad.return info
      else if TrimSpace accessToken = '''' then State_Monad.return info
      else do {
        e \<leftarrow> GetEmail E accessToken;
        State_Monad.return
          (case e of None \<Rightarrow> info
           | Some email \<Rightarrow> if TrimSpace email = '''' then info else info\<lparr>ui_Email := TrimSpace email\<rparr>)
      })"

section \<open>Logging in and linking\<close>

text \<open>
  The part both handlers share: redeem the state, exchange the code, ask the provider who the user
  is.
\<close>

definition oauth_Exchange :: "'r env \<Rightarrow> oauth2_Config \<Rightarrow> string \<Rightarrow> ('r world, string option) state" where
  "oauth_Exchange E cfg authcode = do { n \<leftarrow> next_tick; State_Monad.return (e_oauth_exchange E n cfg authcode) }"

definition redeem_state :: "'r env \<Rightarrow> Service \<Rightarrow> string \<Rightarrow> string \<Rightarrow> ('r, string \<times> string \<times> UserInfo) rpc" where
  "redeem_state E S req_state req_code =
     andthen (on_error (OAuthStateStore_Consume E (sv_oauthStateStore S) req_state)
       (\<lambda>_. Status Internal ''failed to validate oauth state'')) (\<lambda>c.
       case c of
         None \<Rightarrow> fail InvalidArgument ''invalid or expired state''
       | Some stateData \<Rightarrow> do {
           t \<leftarrow> oauth_Exchange E (oauthConfigForRedirect S (os_RedirectURL stateData)) req_code;
           case t of
             None \<Rightarrow> fail Unauthenticated ''failed to exchange authorization code''
           | Some token \<Rightarrow>
               (case GetUserProvider (os_Provider stateData) of
                  Inl _ \<Rightarrow> fail Internal ''failed to get user provider''
                | Inr _ \<Rightarrow> do {
                    u \<leftarrow> GetUserInfo E token;
                    case u of
                      None \<Rightarrow> fail Unauthenticated ''failed to fetch user info''
                    | Some info \<Rightarrow> reply (os_Provider stateData, token, info)
                  })
         })"

record OAuthUserProfile =
  op_Username :: string
  op_AvatarUrl :: string
  op_Email :: string

definition profile_of :: "UserInfo \<Rightarrow> OAuthUserProfile" where
  "profile_of info = \<lparr>op_Username = ui_Username info, op_AvatarUrl = ui_AvatarURL info, op_Email = ui_Email info\<rparr>"

definition LoginWithOAuth ::
  "'r env \<Rightarrow> Service \<Rightarrow> string \<Rightarrow> string \<Rightarrow> ('r, TokenPair \<times> OAuthUserProfile) rpc" where
  "LoginWithOAuth E S req_code req_state =
     (if TrimSpace req_code = '''' then fail InvalidArgument ''code is required''
      else if TrimSpace req_state = '''' then fail InvalidArgument ''state is required''
      else
        andthen (redeem_state E S req_state req_code) (\<lambda>(provider, token, info0). do {
          info \<leftarrow> maybeFillOAuthEmail E S token info0;
          andthen (ensureOAuthUser E info) (\<lambda>authUser. do {
            usr \<leftarrow> recordLogin E authUser;
            andthen (issue_pair E S (um_ID usr)) (\<lambda>tokenPair. reply (tokenPair, profile_of info))
          })
        }))"

definition link_identity :: "'r env \<Rightarrow> string \<Rightarrow> string \<Rightarrow> string \<Rightarrow> ('r, unit) rpc" where
  "link_identity E provider providerUserID bindingUserID = do {
     g \<leftarrow> ExternalIdentityStore_GetByProviderID E provider providerUserID;
     case g of
       Inr providerIdentity \<Rightarrow>
         if xi_UserID providerIdentity \<noteq> bindingUserID
         then fail AlreadyExists ''oauth account already linked to another user''
         else reply ()
     | Inl err \<Rightarrow>
         if err \<noteq> ErrNotFound then fail Internal ''failed to check existing oauth link''
         else do {
           c \<leftarrow> ExternalIdentityStore_Create E (new_identity bindingUserID provider providerUserID);
           case c of
             Inr _ \<Rightarrow> reply ()
           | Inl createErr \<Rightarrow>
               if createErr = ErrAlreadyExists then
                 andthen (on_error (ExternalIdentityStore_GetByProviderID E provider providerUserID)
                   (\<lambda>_. Status Internal ''failed to verify oauth link'')) (\<lambda>existing.
                   if xi_UserID existing \<noteq> bindingUserID
                   then fail AlreadyExists ''oauth account already linked to another user''
                   else reply ())
               else fail Internal ''failed to link oauth account''
         }
   }"

definition LinkOAuthAccount ::
  "'r env \<Rightarrow> Service \<Rightarrow> rpc_ctx \<Rightarrow> string \<Rightarrow> string \<Rightarrow> ('r, TokenPair \<times> OAuthUserProfile) rpc" where
  "LinkOAuthAccount E S ctx req_code req_state = do {
     let accessToken = accessTokenFromMetadata ctx;
     if accessToken = '''' then fail Unauthenticated ''access token is required''
     else if TrimSpace req_code = '''' then fail InvalidArgument ''code is required''
     else if TrimSpace req_state = '''' then fail InvalidArgument ''state is required''
     else
       andthen (on_error (ValidateAccessToken E accessToken (tc_PublicKey (sv_tokenCfg S)))
         (\<lambda>_. Status Unauthenticated ''invalid access token'')) (\<lambda>claims.
       andthen (on_error (UserStore_GetByID E (cl_UserID claims))
         (\<lambda>e. if e = ErrNotFound then Status NotFound ''user not found''
              else Status Internal ''failed to fetch user'')) (\<lambda>bindingUser.
       andthen (redeem_state E S req_state req_code) (\<lambda>(provider, token, info).
         if ui_ID info = '''' then fail Internal ''provider returned empty user id''
         else
           andthen (link_identity E provider (ui_ID info) (um_ID bindingUser)) (\<lambda>_. do {
             usr \<leftarrow> recordLogin E bindingUser;
             andthen (issue_pair E S (um_ID usr)) (\<lambda>tokenPair. reply (tokenPair, profile_of info))
           }))))
   }"

section \<open>Frames\<close>

lemma evolves_next_tick [forward]: "evolves next_tick"
  by (intro keeps_evolves frame) simp

lemma evolves_provider [forward]:
  "evolves (GetUserInfo E t)" "evolves (GetEmail E t)" "evolves (generateOAuthState E)" "evolves (oauth_Exchange E cfg c)"
  unfolding GetUserInfo_def GetEmail_def generateOAuthState_def oauth_Exchange_def by (intro forward)+

lemma evolves_oauth_parts [forward]:
  "evolves (updateEmailIfNeeded E usr e)" "evolves (merge_by_email E info usr)" "evolves (create_oauth_user E info)"
  "evolves (maybeFillOAuthEmail E S t info)" "evolves (redeem_state E S st c)" "evolves (link_identity E p i u)"
  unfolding updateEmailIfNeeded_def merge_by_email_def create_oauth_user_def maybeFillOAuthEmail_def
    redeem_state_def link_identity_def
  by (intro forward)+

lemma evolves_ensureOAuthUser [forward]: "evolves (ensureOAuthUser E info)"
  unfolding ensureOAuthUser_def by (intro forward)

lemma evolves_oauth_handlers [forward]:
  "evolves (StartOAuthLogin E S p u)" "evolves (LoginWithOAuth E S c st)" "evolves (LinkOAuthAccount E S ctx c st)"
  unfolding StartOAuthLogin_def LoginWithOAuth_def LinkOAuthAccount_def by (intro forward)+

end
