(* ===== verification/Service_Management.thy ===== *)
theory Service_Management
  imports Service_OAuth
begin

text \<open>
  The management interface of \<^verbatim>\<open>internal/identra\<close>: service accounts (\<^verbatim>\<open>service_accounts.go\<close>), users
  (\<^verbatim>\<open>user_management.go\<close>) and the audit log (\<^verbatim>\<open>audit.go\<close>). Every handler but the token exchange is
  guarded by a service token whose account has the required scope.
\<close>

abbreviation ScopeAdmin :: string where "ScopeAdmin \<equiv> ''identra.admin''"
abbreviation ScopeServiceAccountsRead :: string where "ScopeServiceAccountsRead \<equiv> ''identra.service_accounts.read''"
abbreviation ScopeServiceAccountsManage :: string where "ScopeServiceAccountsManage \<equiv> ''identra.service_accounts.manage''"
abbreviation ScopeUsersRead :: string where "ScopeUsersRead \<equiv> ''identra.users.read''"
abbreviation ScopeUsersManage :: string where "ScopeUsersManage \<equiv> ''identra.users.manage''"
abbreviation ScopeAuditRead :: string where "ScopeAuditRead \<equiv> ''identra.audit.read''"
abbreviation AuditActorServiceAccount :: string where "AuditActorServiceAccount \<equiv> ''service_account''"

section \<open>Authorization\<close>

fun hasServiceScope :: "string list \<Rightarrow> string \<Rightarrow> bool" where
  "hasServiceScope [] required = False"
| "hasServiceScope (scope # scopes) required =
     (if scope = ScopeAdmin \<or> scope = required then True
      else if HasSuffix scope ''*'' \<and> HasPrefix required (TrimSuffix scope ''*'') then True
      else hasServiceScope scopes required)"

definition authorizeServiceAccount :: "'r env \<Rightarrow> Service \<Rightarrow> rpc_ctx \<Rightarrow> string list \<Rightarrow> ('r, Account) rpc" where
  "authorizeServiceAccount E S ctx requiredScopes = do {
     let token = accessTokenFromMetadata ctx;
     if token = '''' then fail Unauthenticated ''service token is required''
     else
       andthen (on_error (ValidateServiceToken E token (tc_PublicKey (sv_tokenCfg S)))
         (\<lambda>_. Status Unauthenticated ''invalid service token'')) (\<lambda>claims. do {
         g \<leftarrow> ServiceAccountStore_GetByID E (cl_ServiceAccountID claims);
         case g of
           Inl _ \<Rightarrow> fail Unauthenticated ''service account is inactive''
         | Inr account \<Rightarrow>
             if ac_DisabledAt account \<noteq> None then fail Unauthenticated ''service account is inactive''
             else if list_ex (hasServiceScope (ac_Scopes account)) requiredScopes then reply account
             else fail PermissionDenied ''service account lacks the required scope''
       })
   }"

definition recordManagementAudit ::
  "'r env \<Rightarrow> Account \<Rightarrow> string \<Rightarrow> string \<Rightarrow> string \<Rightarrow> ('r world, unit) state" where
  "recordManagementAudit E actor action resourceType resourceID = do {
     i \<leftarrow> uuid_NewString E;
     now \<leftarrow> time_Now E;
     r \<leftarrow> AuditStore_Record E
            \<lparr>ae_ID = i, ae_OccurredAt = now, ae_ActorType = AuditActorServiceAccount, ae_ActorID = ac_ID actor,
             ae_Action = action, ae_ResourceType = resourceType, ae_ResourceID = resourceID, ae_Metadata = []\<rparr>;
     State_Monad.return ()
   }"

section \<open>Service accounts\<close>

definition ExchangeServiceToken :: "'r env \<Rightarrow> Service \<Rightarrow> string \<Rightarrow> string \<Rightarrow> ('r, Token) rpc" where
  "ExchangeServiceToken E S req_client_id req_client_secret = do {
     let clientID = TrimSpace req_client_id;
     let rateLimitKey = (if clientID = '''' then ''client_id:missing'' else ''client_id:'' @ clientID);
     andthen
       (case sv_serviceTokenRateLimiter S of
          None \<Rightarrow> reply True
        | Some rl \<Rightarrow> on_error (IsAllowed E rl rateLimitKey) (\<lambda>_. Status Internal ''failed to check service-token rate limit''))
       (\<lambda>allowed.
          if \<not> allowed then fail ResourceExhausted ''too many service-token attempts''
          else do {
            a \<leftarrow> Authenticate E req_client_id req_client_secret;
            case a of
              Inl err \<Rightarrow>
                if err = SA_ErrInvalidCredential \<or> err = SA_ErrNotFound then do {
                  record_failure E (sv_serviceTokenRateLimiter S) [rateLimitKey];
                  fail Unauthenticated ''invalid service-account credential''
                } else fail Internal ''failed to authenticate service account''
            | Inr account \<Rightarrow> do {
                reset_limit E (sv_serviceTokenRateLimiter S) rateLimitKey;
                on_error (NewServiceToken E (ac_ID account) (ac_Scopes account) (sv_tokenCfg S))
                  (\<lambda>_. Status Internal ''failed to issue service token'')
              }
          })
   }"

fun sa_text :: "sa_error \<Rightarrow> string" where
  "sa_text SA_ErrAlreadyExists = ''service account already exists''"
| "sa_text SA_ErrBootstrapCompleted = ''service-account bootstrap has already completed''"
| "sa_text SA_ErrNotFound = ''service account not found''"
| "sa_text SA_ErrInvalidCredential = ''invalid service-account credential''"
| "sa_text (SA_Error msg) = msg"

definition create_status :: "sa_error \<Rightarrow> rpc_error" where
  "create_status err =
     (if err = SA_ErrAlreadyExists then Status AlreadyExists ''service account already exists''
      else if Contains (sa_text err) ''required'' \<or> Contains (sa_text err) ''invalid scope'' \<or>
              Contains (sa_text err) ''must not exceed''
      then Status InvalidArgument (sa_text err)
      else Status Internal ''failed to create service account'')"

record pb_ServiceAccount =
  sp_ClientId :: string
  sp_Name :: string
  sp_Scopes :: "string list"
  sp_CreatedAt :: go_time
  sp_DisabledAt :: "go_time option"

definition serviceAccountProto :: "Account \<Rightarrow> pb_ServiceAccount" where
  "serviceAccountProto account =
     \<lparr>sp_ClientId = ac_ID account, sp_Name = ac_Name account, sp_Scopes = ac_Scopes account,
      sp_CreatedAt = ac_CreatedAt account, sp_DisabledAt = ac_DisabledAt account\<rparr>"

text \<open>A \<^verbatim>\<open>ServiceAccountCredential\<close> is the pair of client ID and client secret.\<close>

definition CreateServiceAccount ::
  "'r env \<Rightarrow> Service \<Rightarrow> rpc_ctx \<Rightarrow> string \<Rightarrow> string list \<Rightarrow> ('r, pb_ServiceAccount \<times> string \<times> string) rpc" where
  "CreateServiceAccount E S ctx req_name req_scopes =
     andthen (authorizeServiceAccount E S ctx [ScopeServiceAccountsManage]) (\<lambda>actor.
     andthen (on_error (Create E req_name req_scopes) create_status) (\<lambda>result. do {
       recordManagementAudit E actor ''service_account.create'' ''service_account'' (ac_ID (bs_Account result));
       reply (serviceAccountProto (bs_Account result), ac_ID (bs_Account result), bs_ClientSecret result)
     }))"

definition ListServiceAccounts :: "'r env \<Rightarrow> Service \<Rightarrow> rpc_ctx \<Rightarrow> ('r, pb_ServiceAccount list) rpc" where
  "ListServiceAccounts E S ctx =
     andthen (authorizeServiceAccount E S ctx [ScopeServiceAccountsRead, ScopeServiceAccountsManage]) (\<lambda>_.
     andthen (on_error (ServiceAccountStore_List E) (\<lambda>_. Status Internal ''failed to list service accounts'')) (\<lambda>accounts.
     reply (map serviceAccountProto accounts)))"

definition DisableServiceAccount :: "'r env \<Rightarrow> Service \<Rightarrow> rpc_ctx \<Rightarrow> string \<Rightarrow> ('r, pb_ServiceAccount) rpc" where
  "DisableServiceAccount E S ctx req_client_id =
     andthen (authorizeServiceAccount E S ctx [ScopeServiceAccountsManage]) (\<lambda>actor. do {
       let clientID = TrimSpace req_client_id;
       if clientID = '''' then fail InvalidArgument ''client ID is required''
       else if clientID = ac_ID actor then fail FailedPrecondition ''a service account cannot disable itself''
       else do {
         now \<leftarrow> time_Now E;
         andthen (on_error (ServiceAccountStore_Disable E clientID now)
           (\<lambda>e. if e = SA_ErrNotFound then Status NotFound ''active service account not found''
                else Status Internal ''failed to disable service account'')) (\<lambda>account. do {
           recordManagementAudit E actor ''service_account.disable'' ''service_account'' (ac_ID account);
           reply (serviceAccountProto account)
         })
       }
     })"

definition RotateServiceAccountSecret ::
  "'r env \<Rightarrow> Service \<Rightarrow> rpc_ctx \<Rightarrow> string \<Rightarrow> ('r, string \<times> string) rpc" where
  "RotateServiceAccountSecret E S ctx req_client_id =
     andthen (authorizeServiceAccount E S ctx [ScopeServiceAccountsManage]) (\<lambda>actor. do {
       let clientID = TrimSpace req_client_id;
       if clientID = '''' then fail InvalidArgument ''client ID is required''
       else
         andthen (on_error (RotateCredential E clientID)
           (\<lambda>e. if e = SA_ErrNotFound then Status NotFound ''active service account not found''
                else Status Internal ''failed to rotate service-account secret'')) (\<lambda>secret. do {
           recordManagementAudit E actor ''service_account.rotate_secret'' ''service_account'' clientID;
           reply (clientID, secret)
         })
     })"

section \<open>Users\<close>

record ManagedUser =
  mu_Id :: string
  mu_Email :: string
  mu_PasswordLoginEnabled :: bool
  mu_CreatedAt :: go_time
  mu_UpdatedAt :: go_time
  mu_LastLoginAt :: "go_time option"

definition managedUserProto :: "UserModel \<Rightarrow> ManagedUser" where
  "managedUserProto user =
     \<lparr>mu_Id = um_ID user, mu_Email = um_Email user, mu_PasswordLoginEnabled = (um_HashedPassword user \<noteq> None),
      mu_CreatedAt = um_CreatedAt user, mu_UpdatedAt = um_UpdatedAt user, mu_LastLoginAt = um_LastLoginAt user\<rparr>"

definition pageOffset :: "string \<Rightarrow> rpc_error + int" where
  "pageOffset token =
     (if TrimSpace token = '''' then Inr 0
      else case Atoi token of
             None \<Rightarrow> Inl (Status InvalidArgument ''invalid page token'')
           | Some offset \<Rightarrow> if offset < 0 then Inl (Status InvalidArgument ''invalid page token'') else Inr offset)"

text \<open>\<^verbatim>\<open>int\<close> addition at 64 bits.\<close>

definition int64_add :: "int \<Rightarrow> int \<Rightarrow> int" where
  "int64_add a b = sint (word_of_int (a + b) :: 64 word)"

text \<open>One page out of the rows that were fetched for it, and the token of the next page.\<close>

definition page_of :: "int \<Rightarrow> int \<Rightarrow> 'a list \<Rightarrow> 'a list \<times> string" where
  "page_of offset pageSize rows =
     (if pageSize < int (length rows)
      then (take (nat pageSize) rows, Itoa (int64_add offset pageSize))
      else (rows, ''''))"

definition ListUsers ::
  "'r env \<Rightarrow> Service \<Rightarrow> rpc_ctx \<Rightarrow> 32 word \<Rightarrow> string \<Rightarrow> ('r, ManagedUser list \<times> string) rpc" where
  "ListUsers E S ctx req_page_size req_page_token =
     andthen (authorizeServiceAccount E S ctx [ScopeUsersRead, ScopeUsersManage]) (\<lambda>_. do {
       let pageSize = (if sint req_page_size = 0 then 50 else sint req_page_size);
       if pageSize < 0 \<or> 200 < pageSize then fail InvalidArgument ''page size must be between 1 and 200''
       else case pageOffset req_page_token of
              Inl e \<Rightarrow> State_Monad.return (Inl e)
            | Inr offset \<Rightarrow>
                andthen (on_error (UserStore_List E offset (pageSize + 1)) (\<lambda>_. Status Internal ''failed to list users''))
                  (\<lambda>users. case page_of offset pageSize users of (page, nxt) \<Rightarrow>
                     reply (map managedUserProto page, nxt))
     })"

definition CreatePasswordUser ::
  "'r env \<Rightarrow> Service \<Rightarrow> rpc_ctx \<Rightarrow> string \<Rightarrow> string \<Rightarrow> ('r, ManagedUser) rpc" where
  "CreatePasswordUser E S ctx req_email req_password =
     andthen (authorizeServiceAccount E S ctx [ScopeUsersManage]) (\<lambda>actor. do {
       let email = TrimSpace req_email;
       if email = '''' \<or> req_password = '''' then fail InvalidArgument ''email and password are required''
       else
         andthen (on_error (HashPassword E req_password) (pw_status ''failed to process password'')) (\<lambda>hash.
         andthen (on_error (UserStore_Create E (new_user email (Some hash)))
           (\<lambda>e. if e = ErrAlreadyExists then Status AlreadyExists ''user already exists''
                else Status Internal ''failed to create user'')) (\<lambda>user. do {
           recordManagementAudit E actor ''user.create'' ''user'' (um_ID user);
           reply (managedUserProto user)
         }))
     })"

definition DeleteUser :: "'r env \<Rightarrow> Service \<Rightarrow> rpc_ctx \<Rightarrow> string \<Rightarrow> ('r, unit) rpc" where
  "DeleteUser E S ctx req_user_id =
     andthen (authorizeServiceAccount E S ctx [ScopeUsersManage]) (\<lambda>actor. do {
       let userID = TrimSpace req_user_id;
       if userID = '''' then fail InvalidArgument ''user ID is required''
       else
         andthen (on_error (UserStore_Delete E userID)
           (\<lambda>e. if e = ErrNotFound then Status NotFound ''user not found''
                else Status Internal ''failed to delete user'')) (\<lambda>_. do {
           recordManagementAudit E actor ''user.delete'' ''user'' userID;
           reply ()
         })
     })"

definition ResetUserPassword ::
  "'r env \<Rightarrow> Service \<Rightarrow> rpc_ctx \<Rightarrow> string \<Rightarrow> string \<Rightarrow> ('r, ManagedUser) rpc" where
  "ResetUserPassword E S ctx req_user_id req_password =
     andthen (authorizeServiceAccount E S ctx [ScopeUsersManage]) (\<lambda>actor. do {
       let userID = TrimSpace req_user_id;
       if userID = '''' \<or> req_password = '''' then fail InvalidArgument ''user ID and password are required''
       else
         andthen (on_error (HashPassword E req_password) (pw_status ''failed to process password'')) (\<lambda>hash.
         andthen (on_error (UserStore_SetPassword E userID hash)
           (\<lambda>e. if e = ErrNotFound then Status NotFound ''user not found''
                else Status Internal ''failed to reset password'')) (\<lambda>_.
         andthen (on_error (UserStore_GetByID E userID) (\<lambda>_. Status Internal ''failed to read user'')) (\<lambda>user. do {
           recordManagementAudit E actor ''user.reset_password'' ''user'' userID;
           reply (managedUserProto user)
         })))
     })"

section \<open>The audit log\<close>

datatype AuditActorType = AUDIT_ACTOR_UNSPECIFIED | AUDIT_ACTOR_SYSTEM | AUDIT_ACTOR_SERVICE_ACCOUNT

record pb_AuditEvent =
  pa_Id :: string
  pa_OccurredAt :: go_time
  pa_ActorType :: AuditActorType
  pa_ActorId :: string
  pa_Action :: string
  pa_ResourceType :: string
  pa_ResourceId :: string
  pa_Metadata :: "(string \<times> string) list"

definition auditEventProto :: "AuditEvent \<Rightarrow> pb_AuditEvent" where
  "auditEventProto event =
     \<lparr>pa_Id = ae_ID event, pa_OccurredAt = ae_OccurredAt event,
      pa_ActorType =
        (if ae_ActorType event = AuditActorSystem then AUDIT_ACTOR_SYSTEM
         else if ae_ActorType event = AuditActorServiceAccount then AUDIT_ACTOR_SERVICE_ACCOUNT
         else AUDIT_ACTOR_UNSPECIFIED),
      pa_ActorId = ae_ActorID event, pa_Action = ae_Action event, pa_ResourceType = ae_ResourceType event,
      pa_ResourceId = ae_ResourceID event, pa_Metadata = ae_Metadata event\<rparr>"

definition ListAuditEvents ::
  "'r env \<Rightarrow> Service \<Rightarrow> rpc_ctx \<Rightarrow> 32 word \<Rightarrow> string \<Rightarrow> ('r, pb_AuditEvent list \<times> string) rpc" where
  "ListAuditEvents E S ctx req_page_size req_page_token =
     andthen (authorizeServiceAccount E S ctx [ScopeAuditRead]) (\<lambda>_. do {
       let pageSize = (if uint req_page_size = 0 then 50 else uint req_page_size);
       if 200 < pageSize then fail InvalidArgument ''page size must not exceed 200''
       else
         (let token = TrimSpace req_page_token;
              parsed = (if token = '''' then Some 0
                        else case Atoi token of None \<Rightarrow> None
                             | Some v \<Rightarrow> if v < 0 then None else Some v)
          in case parsed of
               None \<Rightarrow> fail InvalidArgument ''invalid page token''
             | Some offset \<Rightarrow>
                 andthen (on_error (AuditStore_List E offset (pageSize + 1)) (\<lambda>_. Status Internal ''failed to list audit events''))
                   (\<lambda>events. case page_of offset pageSize events of (page, nxt) \<Rightarrow>
                      reply (map auditEventProto page, nxt)))
     })"

section \<open>Frames\<close>

lemma evolves_authorize [forward]: "evolves (authorizeServiceAccount E S ctx scs)"
  unfolding authorizeServiceAccount_def by (intro forward)

lemma evolves_recordManagementAudit [forward]: "evolves (recordManagementAudit E a act ty i)"
  unfolding recordManagementAudit_def by (intro forward)

lemma evolves_management_handlers [forward]:
  "evolves (ExchangeServiceToken E S c s)" "evolves (CreateServiceAccount E S ctx n scs)"
  "evolves (ListServiceAccounts E S ctx)" "evolves (DisableServiceAccount E S ctx c)"
  "evolves (RotateServiceAccountSecret E S ctx c)" "evolves (ListUsers E S ctx sz t)"
  "evolves (CreatePasswordUser E S ctx em pw)" "evolves (DeleteUser E S ctx i)"
  "evolves (ResetUserPassword E S ctx i pw)" "evolves (ListAuditEvents E S ctx sz t)"
  unfolding ExchangeServiceToken_def CreateServiceAccount_def ListServiceAccounts_def DisableServiceAccount_def
    RotateServiceAccountSecret_def ListUsers_def CreatePasswordUser_def DeleteUser_def ResetUserPassword_def
    ListAuditEvents_def
  by (intro forward)+

section \<open>What a successful management call went through\<close>

lemmas success_elims = bind_runE andthen_InrE

lemma CreateServiceAccount_success:
  assumes "run_state (CreateServiceAccount E S ctx n scs) w = (Inr x, w')"
  obtains actor w1 result w2 where
    "run_state (authorizeServiceAccount E S ctx [ScopeServiceAccountsManage]) w = (Inr actor, w1)"
    "run_state (Create E n scs) w1 = (Inr result, w2)"
    "run_state (recordManagementAudit E actor ''service_account.create'' ''service_account'' (ac_ID (bs_Account result))) w2 = ((), w')"
    "x = (serviceAccountProto (bs_Account result), ac_ID (bs_Account result), bs_ClientSecret result)"
  using assms unfolding CreateServiceAccount_def
  by (auto elim!: success_elims dest!: on_error_InrE simp del: State_Monad.run_state_bind)

lemma DisableServiceAccount_success:
  assumes "run_state (DisableServiceAccount E S ctx c) w = (Inr x, w')"
  obtains actor w1 now w2 account w3 where
    "run_state (authorizeServiceAccount E S ctx [ScopeServiceAccountsManage]) w = (Inr actor, w1)"
    "TrimSpace c \<noteq> ac_ID actor" "run_state (time_Now E) w1 = (now, w2)"
    "run_state (ServiceAccountStore_Disable E (TrimSpace c) now) w2 = (Inr account, w3)"
    "run_state (recordManagementAudit E actor ''service_account.disable'' ''service_account'' (ac_ID account)) w3 = ((), w')"
    "x = serviceAccountProto account"
  using assms unfolding DisableServiceAccount_def
  by (auto split: if_splits elim!: success_elims dest!: on_error_InrE simp: Let_def simp del: State_Monad.run_state_bind run_time_Now)

lemma RotateServiceAccountSecret_success:
  assumes "run_state (RotateServiceAccountSecret E S ctx c) w = (Inr x, w')"
  obtains actor w1 secret w2 where
    "run_state (authorizeServiceAccount E S ctx [ScopeServiceAccountsManage]) w = (Inr actor, w1)"
    "run_state (RotateCredential E (TrimSpace c)) w1 = (Inr secret, w2)"
    "run_state (recordManagementAudit E actor ''service_account.rotate_secret'' ''service_account'' (TrimSpace c)) w2 = ((), w')"
    "x = (TrimSpace c, secret)"
  using assms unfolding RotateServiceAccountSecret_def
  by (auto split: if_splits elim!: success_elims dest!: on_error_InrE simp: Let_def simp del: State_Monad.run_state_bind)

lemma CreatePasswordUser_success:
  assumes "run_state (CreatePasswordUser E S ctx em pw) w = (Inr x, w')"
  obtains actor w1 hash w2 user w3 where
    "run_state (authorizeServiceAccount E S ctx [ScopeUsersManage]) w = (Inr actor, w1)"
    "run_state (HashPassword E pw) w1 = (Inr hash, w2)"
    "run_state (UserStore_Create E (new_user (TrimSpace em) (Some hash))) w2 = (Inr user, w3)"
    "run_state (recordManagementAudit E actor ''user.create'' ''user'' (um_ID user)) w3 = ((), w')"
    "x = managedUserProto user"
  using assms unfolding CreatePasswordUser_def
  by (auto split: if_splits elim!: success_elims dest!: on_error_InrE simp: Let_def simp del: State_Monad.run_state_bind)

lemma DeleteUser_success:
  assumes "run_state (DeleteUser E S ctx i) w = (Inr x, w')"
  obtains actor w1 w2 where
    "run_state (authorizeServiceAccount E S ctx [ScopeUsersManage]) w = (Inr actor, w1)"
    "run_state (UserStore_Delete E (TrimSpace i)) w1 = (Inr (), w2)"
    "run_state (recordManagementAudit E actor ''user.delete'' ''user'' (TrimSpace i)) w2 = ((), w')"
  using assms unfolding DeleteUser_def
  by (auto split: if_splits elim!: success_elims dest!: on_error_InrE simp: Let_def simp del: State_Monad.run_state_bind)

lemma ResetUserPassword_success:
  assumes "run_state (ResetUserPassword E S ctx i pw) w = (Inr x, w')"
  obtains actor w1 hash w2 w3 user w4 where
    "run_state (authorizeServiceAccount E S ctx [ScopeUsersManage]) w = (Inr actor, w1)"
    "run_state (HashPassword E pw) w1 = (Inr hash, w2)"
    "run_state (UserStore_SetPassword E (TrimSpace i) hash) w2 = (Inr (), w3)"
    "run_state (UserStore_GetByID E (TrimSpace i)) w3 = (Inr user, w4)"
    "run_state (recordManagementAudit E actor ''user.reset_password'' ''user'' (TrimSpace i)) w4 = ((), w')"
  using assms unfolding ResetUserPassword_def
  by (auto split: if_splits elim!: success_elims dest!: on_error_InrE simp: Let_def simp del: State_Monad.run_state_bind)

lemmas management_successes = CreateServiceAccount_success DisableServiceAccount_success
  RotateServiceAccountSecret_success CreatePasswordUser_success DeleteUser_success ResetUserPassword_success

end
