(* ===== verification/Sample_Service.thy ===== *)
theory Sample_Service
  imports Service_Management
begin

text \<open>
  A concrete service, database and service token in the sample surrounding, for the witnesses: the
  account \<^verbatim>\<open>isa_1\<close> has the administrator scope and presents a bearer token signed by the service's
  key. Nothing about the program rests on this theory.
\<close>

section \<open>Text without white space\<close>

definition plain :: "string \<Rightarrow> bool" where
  "plain s \<longleftrightarrow> (\<forall>c \<in> set s. 33 \<le> (of_char c :: nat) \<and> (of_char c :: nat) \<le> 126)"

lemma plain_append [simp]: "plain (s @ t) \<longleftrightarrow> plain s \<and> plain t"
  by (auto simp: plain_def)

lemma plain_Cons [simp]: "plain (c # s) \<longleftrightarrow> 33 \<le> (of_char c :: nat) \<and> (of_char c :: nat) \<le> 126 \<and> plain s"
  by (auto simp: plain_def)

lemma plain_Nil [simp]: "plain []"
  by (simp add: plain_def)

lemma plain_dec_digits [simp]: "plain (dec_digits n)"
  unfolding plain_def
proof
  fix c assume "c \<in> set (dec_digits n)"
  then obtain d where "d < 10" "c = digit_char d" using dec_digits_all by blast
  then show "33 \<le> (of_char c :: nat) \<and> (of_char c :: nat) \<le> 126" using of_char_digit [of d] by simp
qed

lemma plain_wr_string: "plain s \<Longrightarrow> plain (wr_string s)"
  by (induction s) auto

lemma plain_wr_all: "list_all plain xs \<Longrightarrow> plain (wr_all xs)"
  unfolding wr_all_def by (induction xs) (auto simp: plain_wr_string)

lemma plain_wr_time [simp]: "plain (wr_time t)"
  by (cases t) (auto simp: wr_time_def)

lemma space_runes_ends:
  "t \<in> set space_runes \<Longrightarrow>
   t \<noteq> [] \<and> ((of_char (hd t) :: nat) < 33 \<or> 126 < (of_char (hd t) :: nat)) \<and>
   ((of_char (last t) :: nat) < 33 \<or> 126 < (of_char (last t) :: nat))"
  by (auto simp: space_runes_def)

lemma plain_no_lead:
  assumes "33 \<le> (of_char c :: nat)" and "(of_char c :: nat) \<le> 126"
  shows "lead_token space_runes (c # s) = None" and "lead_token (map rev space_runes) (c # s) = None"
proof -
  have "\<not> prefix t (c # s)" if "t \<in> set space_runes" for t
    using space_runes_ends [OF that] assms by (cases t) auto
  then show "lead_token space_runes (c # s) = None"
    by (auto simp: lead_token_None_iff)
  have "\<not> prefix (rev t) (c # s)" if "t \<in> set space_runes" for t
    using space_runes_ends [OF that] assms by (cases t rule: rev_cases) auto
  then show "lead_token (map rev space_runes) (c # s) = None"
    by (auto simp: lead_token_None_iff)
qed

lemma fields_plain: "plain s \<Longrightarrow> s \<noteq> [] \<or> acc \<noteq> [] \<Longrightarrow> fields_from acc s = [rev acc @ s]"
proof (induction s arbitrary: acc)
  case Nil
  then show ?case by (subst fields_from.simps) simp
next
  case (Cons c s)
  then show ?case by (subst fields_from.simps) (simp add: plain_no_lead)
qed

lemma fields_word:
  "plain s \<Longrightarrow> s \<noteq> [] \<or> acc \<noteq> [] \<Longrightarrow> fields_from acc (s @ CHR '' '' # r) = (rev acc @ s) # fields_from [] r"
proof (induction s arbitrary: acc)
  case Nil
  have "lead_token space_runes (CHR '' '' # r) = Some '' ''"
    by (simp add: lead_token_def space_runes_def)
  then show ?case using Nil by (subst fields_from.simps) simp
next
  case (Cons c s)
  then show ?case by (simp, subst fields_from.simps) (simp add: plain_no_lead)
qed

lemma TrimSpace_plain_ends:
  assumes "33 \<le> (of_char c :: nat)" "(of_char c :: nat) \<le> 126" "33 \<le> (of_char d :: nat)" "(of_char d :: nat) \<le> 126"
  shows "TrimSpace (c # s @ [d]) = c # s @ [d]"
  using assms by (simp add: TrimSpace_def strip_tokens_id plain_no_lead)

lemma TrimSpace_plain: "plain s \<Longrightarrow> TrimSpace s = s"
proof (cases s rule: rev_cases)
  case (snoc r d)
  moreover assume "plain s"
  ultimately show ?thesis
    by (cases r) (simp_all add: TrimSpace_plain_ends, simp add: TrimSpace_def strip_tokens_id plain_no_lead)
qed simp

lemma bearer_plain:
  assumes "plain tok" and "tok \<noteq> []"
  shows "bearerToken (''Bearer '' @ tok) = tok"
proof -
  obtain r d where t: "tok = r @ [d]" using assms(2) by (cases tok rule: rev_cases) auto
  have "TrimSpace (''Bearer '' @ tok) = ''Bearer '' @ tok"
    using TrimSpace_plain_ends [of "CHR ''B''" d "''earer '' @ r"] assms(1) by (simp add: t)
  moreover have "fields_from [] (''Bearer '' @ tok) = [''Bearer'', tok]"
    using fields_word [of "''Bearer''" "[]" tok] fields_plain [OF assms(1), of "[]"] assms(2) by simp
  ultimately show ?thesis
    by (simp add: bearerToken_def Fields_def EqualFold_ascii_def Let_def)
qed

section \<open>The service\<close>

definition sample_service :: Service where
  "sample_service =
     \<lparr>sv_emailCodeStore = \<lparr>ecs_ttl = 10 * minute, ecs_prefix = ''identra:email_code:''\<rparr>,
      sv_oauthStateStore = \<lparr>rs_ttl = 10 * minute, rs_prefix = ''identra:oauth_state:''\<rparr>,
      sv_keyManager = two_keys, sv_tokenCfg = sample_cfg,
      sv_githubOAuthConfig = \<lparr>oc_ClientID = ''cid'', oc_ClientSecret = ''cs'', oc_Scopes = [], oc_RedirectURL = ''''\<rparr>,
      sv_oauthFetchEmailIfMissing = True, sv_mailer = True,
      sv_loginRateLimiter = Some \<lparr>rl_prefix = ''identra:rl:'', rl_maxAttempts = 5, rl_window = 15 * minute\<rparr>,
      sv_sendCodeRateLimiter = None,
      sv_refreshTokenRevocations = Some \<lparr>rv_prefix = ''identra:revoked_refresh:''\<rparr>,
      sv_serviceTokenRateLimiter = None,
      sv_serverInfo = \<lparr>si_Version = ''dev'', si_Commit = ''none'', si_BuildDate = ''unknown'', si_SchemaVersion = 3, si_Capabilities = []\<rparr>\<rparr>"

lemma sample_service_sel [simp]:
  "sv_tokenCfg sample_service = sample_cfg"
  "sv_emailCodeStore sample_service = \<lparr>ecs_ttl = 10 * minute, ecs_prefix = ''identra:email_code:''\<rparr>"
  "sv_loginRateLimiter sample_service = Some \<lparr>rl_prefix = ''identra:rl:'', rl_maxAttempts = 5, rl_window = 15 * minute\<rparr>"
  "sv_refreshTokenRevocations sample_service = Some \<lparr>rv_prefix = ''identra:revoked_refresh:''\<rparr>"
  "sv_serviceTokenRateLimiter sample_service = None"
  by (simp_all add: sample_service_def)

lemma sample_cfg_sel [simp]:
  "tc_PrivateKey sample_cfg = Some sample_key" "tc_PublicKey sample_cfg = Some (rsa_PublicKey sample_key)"
  "tc_KeyID sample_cfg = ''kid''"
  by (simp_all add: sample_cfg_def)

section \<open>A service token\<close>

definition sample_claims :: StandardClaims where
  "sample_claims =
     \<lparr>rc_Issuer = ''identra'', rc_Subject = ''isa_1'', rc_ExpiresAt = Some (63900000900 * second),
      rc_IssuedAt = Some (63900000000 * second), rc_NotBefore = Some (63900000000 * second), rc_ID = ''t'',
      cl_UserID = '''', cl_TokenType = ServiceTokenType, cl_TokenID = ''t'', cl_ServiceAccountID = ''isa_1'',
      cl_Scopes = [''identra.admin'']\<rparr>"

definition sample_token :: string where
  "sample_token = wr_all ([''RS256'', ''kid'', key_text (rsa_PublicKey sample_key)] @ claims_text sample_claims)"

lemma sample_token_signed:
  "jwt_SignedString sample_jwt ''RS256'' ''kid'' sample_claims (Some sample_key) = Some sample_token"
  by (simp add: sample_jwt_def sample_token_def)

lemma sample_token_plain: "plain sample_token" "sample_token \<noteq> ''''"
proof -
  show "plain sample_token"
    unfolding sample_token_def
    by (rule plain_wr_all) (simp add: claims_text_def sample_claims_def key_text_def plain_wr_all)
  show "sample_token \<noteq> ''''"
    by (simp add: sample_token_def wr_all_def)
qed

definition sample_ctx :: rpc_ctx where
  "sample_ctx = (\<lambda>k. if k = ''authorization'' then [''Bearer '' @ sample_token] else [])"

lemma sample_ctx_token: "accessTokenFromMetadata sample_ctx = sample_token"
  using bearer_plain [OF sample_token_plain] sample_token_plain(2)
  by (simp add: accessTokenFromMetadata_def sample_ctx_def)

lemma sample_validate:
  assumes "w_tick w < 900"
  shows "run_state (ValidateServiceToken sample_env sample_token (Some (rsa_PublicKey sample_key))) w =
    (Inr (sample_claims\<lparr>rc_ID := ''''\<rparr>), w\<lparr>w_tick := Suc (w_tick w)\<rparr>)"
proof -
  have "run_state (ValidateToken sample_env sample_token (Some (rsa_PublicKey sample_key))) w =
     (Inr (sample_claims\<lparr>rc_ID := ''''\<rparr>), w\<lparr>w_tick := Suc (w_tick w)\<rparr>)"
    using assms run_ValidateToken_signed [of sample_env "''kid''" sample_claims sample_key sample_token
        "63900000900 * second" "63900000000 * second" "rsa_PublicKey sample_key" w] sample_token_signed
    by (simp add: sample_claims_def)
  then show ?thesis by (simp add: ValidateServiceToken_def sample_claims_def)
qed

definition sample_account :: account_row where
  "sample_account = \<lparr>ar_id = ''isa_1'', ar_name = ''ops'', ar_scopes = [''identra.admin''], ar_created_at = 1,
     ar_updated_at = 1, ar_disabled_at = None\<rparr>"

lemma sample_authorize:
  assumes "w_tick w < 900" and "db_accounts (w_db w) = [sample_account]" and "scs \<noteq> []"
  shows "run_state (authorizeServiceAccount sample_env sample_service sample_ctx scs) w =
    (Inr (rowToAccount sample_account), w\<lparr>w_tick := Suc (Suc (w_tick w))\<rparr>)"
proof -
  obtain r rs where "scs = r # rs" using assms(3) by (cases scs) auto
  then show ?thesis
    using assms(1,2)
    by (simp add: authorizeServiceAccount_def sample_ctx_token sample_token_plain run_andthen run_on_error
        sample_validate ServiceAccountStore_GetByID_def run_db_Query SelectAccountBy_def)
       (simp add: sample_claims_def sample_account_def rowToAccount_def)
qed

section \<open>A user that is deleted\<close>

definition sample_user :: user_row where
  "sample_user = \<lparr>ur_id = ''u1'', ur_created_at = 1, ur_updated_at = 1, ur_deleted_at = None,
     ur_email = ''a@b.c'', ur_hashed_password = None, ur_hash = None, ur_last_login_at = None\<rparr>"

definition sample_db :: db where
  "sample_db = db_empty\<lparr>db_users := [sample_user], db_accounts := [sample_account]\<rparr>"

definition sample_db_world :: "mem_redis_state world" where
  "sample_db_world = sample_world\<lparr>w_db := sample_db\<rparr>"

lemma sample_db_world_sel [simp]: "w_tick sample_db_world = 0" "w_db sample_db_world = sample_db"
  by (simp_all add: sample_db_world_def)

lemma sample_db_ok: "db_ok sample_db"
  by (simp add: sample_db_def db_ok_def users_ok_def idents_ok_def accounts_ok_def db_empty_def)

definition sample_gone_db :: db where
  "sample_gone_db = db_empty\<lparr>db_users := [sample_user\<lparr>ur_deleted_at := Some 2\<rparr>],
     db_accounts := [sample_account\<lparr>ar_disabled_at := Some 2\<rparr>]\<rparr>"

lemma sample_gone_db_ok: "db_ok sample_gone_db"
  by (simp add: sample_gone_db_def db_ok_def users_ok_def idents_ok_def accounts_ok_def db_empty_def)

lemma sample_DeleteUser:
  "fst (run_state (DeleteUser sample_env sample_service sample_ctx ''u1'') sample_db_world) = Inr ()"
proof -
  have "TrimSpace ''u1'' = ''u1''" by (simp add: TrimSpace_plain)
  then show ?thesis
    using sample_authorize [of sample_db_world "[ScopeUsersManage]"]
    by (simp add: DeleteUser_def run_andthen run_on_error sample_db_def UserStore_Delete_def db_Exec_def
        SoftDeleteUser_def update_users_def live_user_def sample_user_def Let_def split: prod.splits)
qed

end
