(* ===== verification/Service_History.thy ===== *)
theory Service_History
  imports Sample_Service
begin

text \<open>
  The service as a state machine: a step is one call of any handler (or the bootstrap command), and
  the properties here hold along every sequence of calls, whatever their arguments and whatever the
  outside world does in between.
\<close>

datatype rpc_call =
    CallRegister string string
  | CallLoginPassword rpc_ctx string string
  | CallRequestCode rpc_ctx string bool
  | CallLoginCode rpc_ctx string string
  | CallRefresh string
  | CallRevoke string
  | CallCurrentUser rpc_ctx
  | CallStartOAuth AuthProvider string
  | CallLoginOAuth string string
  | CallLinkOAuth rpc_ctx string string
  | CallExchange string string
  | CallCreateAccount rpc_ctx string "string list"
  | CallListAccounts rpc_ctx
  | CallDisableAccount rpc_ctx string
  | CallRotate rpc_ctx string
  | CallListUsers rpc_ctx "32 word" string
  | CallCreateUser rpc_ctx string string
  | CallDeleteUser rpc_ctx string
  | CallResetPassword rpc_ctx string string
  | CallListAudit rpc_ctx "32 word" string
  | CallBootstrap BootstrapRequest

definition effect_of :: "('r world, 'a) state \<Rightarrow> 'r world \<Rightarrow> 'r world" where
  "effect_of m w = snd (run_state m w)"

fun serve :: "'r env \<Rightarrow> Service \<Rightarrow> rpc_call \<Rightarrow> 'r world \<Rightarrow> 'r world" where
  "serve E S (CallRegister e p) = effect_of (RegisterWithPassword E S e p)"
| "serve E S (CallLoginPassword ctx e p) = effect_of (LoginWithPassword E S ctx e p)"
| "serve E S (CallRequestCode ctx e h) = effect_of (RequestEmailLoginCode E S ctx e h)"
| "serve E S (CallLoginCode ctx e c) = effect_of (LoginWithEmailCode E S ctx e c)"
| "serve E S (CallRefresh t) = effect_of (RefreshSession E S t)"
| "serve E S (CallRevoke t) = effect_of (RevokeSession E S t)"
| "serve E S (CallCurrentUser ctx) = effect_of (GetCurrentUser E S ctx)"
| "serve E S (CallStartOAuth p u) = effect_of (StartOAuthLogin E S p u)"
| "serve E S (CallLoginOAuth c st) = effect_of (LoginWithOAuth E S c st)"
| "serve E S (CallLinkOAuth ctx c st) = effect_of (LinkOAuthAccount E S ctx c st)"
| "serve E S (CallExchange c s) = effect_of (ExchangeServiceToken E S c s)"
| "serve E S (CallCreateAccount ctx n scs) = effect_of (CreateServiceAccount E S ctx n scs)"
| "serve E S (CallListAccounts ctx) = effect_of (ListServiceAccounts E S ctx)"
| "serve E S (CallDisableAccount ctx c) = effect_of (DisableServiceAccount E S ctx c)"
| "serve E S (CallRotate ctx c) = effect_of (RotateServiceAccountSecret E S ctx c)"
| "serve E S (CallListUsers ctx sz t) = effect_of (ListUsers E S ctx sz t)"
| "serve E S (CallCreateUser ctx e p) = effect_of (CreatePasswordUser E S ctx e p)"
| "serve E S (CallDeleteUser ctx i) = effect_of (DeleteUser E S ctx i)"
| "serve E S (CallResetPassword ctx i p) = effect_of (ResetUserPassword E S ctx i p)"
| "serve E S (CallListAudit ctx sz t) = effect_of (ListAuditEvents E S ctx sz t)"
| "serve E S (CallBootstrap req) = effect_of (Bootstrap E req)"

text \<open>The states that follow one another under calls.\<close>

inductive served :: "'r env \<Rightarrow> Service \<Rightarrow> 'r world \<Rightarrow> 'r world \<Rightarrow> bool" for E S where
  start: "served E S w w"
| call: "served E S w w1 \<Longrightarrow> served E S w (serve E S c w1)"

inductive_cases servedE: "served E S w w'"

lemma effect_of_evolves:
  "evolves m \<Longrightarrow> db_evolves (w_db w) (w_db (effect_of m w)) \<and> (db_ok (w_db w) \<longrightarrow> db_ok (w_db (effect_of m w)))"
  by (simp add: evolves_def effect_of_def)

lemma serve_evolves:
  "db_evolves (w_db w) (w_db (serve E S c w)) \<and> (db_ok (w_db w) \<longrightarrow> db_ok (w_db (serve E S c w)))"
  by (cases c; simp only: serve.simps; intro effect_of_evolves forward)

lemma served_evolves:
  "served E S w w' \<Longrightarrow> db_evolves (w_db w) (w_db w') \<and> (db_ok (w_db w) \<longrightarrow> db_ok (w_db w'))"
proof (induction rule: served.induct)
  case (call w w1 c)
  with serve_evolves [of w1 E S c] show ?case by (blast intro: db_evolves_trans)
qed simp

lemma served_trans: "served E S w w1 \<Longrightarrow> served E S w1 w2 \<Longrightarrow> served E S w w2"
  by (rotate_tac, induction rule: served.induct) (auto intro: served.intros)

text \<open>
  (C1) The history of the database. Along any sequence of calls the schema's constraints keep
  holding, the audit log and the linked identities are only ever appended to, no user, service
  account or credential disappears, an account never changes its name or scopes nor a credential
  its secret, and a soft-deleted user, a disabled service account and a revoked credential stay
  exactly as they were.
\<close>

theorem database_history:
  assumes "served E S w w'" and "db_ok (w_db w)"
  shows "db_ok (w_db w') \<and> prefix (db_audit (w_db w)) (db_audit (w_db w')) \<and>
         prefix (db_idents (w_db w)) (db_idents (w_db w')) \<and>
         {u \<in> set (db_users (w_db w)). ur_deleted_at u \<noteq> None} \<subseteq> set (db_users (w_db w')) \<and>
         {a \<in> set (db_accounts (w_db w)). ar_disabled_at a \<noteq> None} \<subseteq> set (db_accounts (w_db w')) \<and>
         {c \<in> set (db_creds (w_db w)). cr_revoked_at c \<noteq> None} \<subseteq> set (db_creds (w_db w')) \<and>
         ur_id ` set (db_users (w_db w)) \<subseteq> ur_id ` set (db_users (w_db w')) \<and>
         (\<lambda>a. (ar_id a, ar_name a, ar_scopes a)) ` set (db_accounts (w_db w)) \<subseteq>
           (\<lambda>a. (ar_id a, ar_name a, ar_scopes a)) ` set (db_accounts (w_db w')) \<and>
         (\<lambda>c. (cr_id c, cr_service_account_id c, cr_secret_hash c)) ` set (db_creds (w_db w)) \<subseteq>
           (\<lambda>c. (cr_id c, cr_service_account_id c, cr_secret_hash c)) ` set (db_creds (w_db w'))"
proof -
  have e: "db_evolves (w_db w) (w_db w')" and ok: "db_ok (w_db w')"
    using served_evolves [OF assms(1)] assms(2) by auto
  from e have g: "grows user_succ (db_users (w_db w)) (db_users (w_db w'))"
    "grows account_succ (db_accounts (w_db w)) (db_accounts (w_db w'))"
    "grows cred_succ (db_creds (w_db w)) (db_creds (w_db w'))" by (simp_all add: db_evolves_def)
  have "ur_id ` set (db_users (w_db w)) \<subseteq> ur_id ` set (db_users (w_db w'))"
    by (rule grows_image [OF g(1)]) (simp add: user_succ_def)
  moreover have "(\<lambda>a. (ar_id a, ar_name a, ar_scopes a)) ` set (db_accounts (w_db w)) \<subseteq>
      (\<lambda>a. (ar_id a, ar_name a, ar_scopes a)) ` set (db_accounts (w_db w'))"
    by (rule grows_image [OF g(2)]) (simp add: account_succ_def)
  moreover have "(\<lambda>c. (cr_id c, cr_service_account_id c, cr_secret_hash c)) ` set (db_creds (w_db w)) \<subseteq>
      (\<lambda>c. (cr_id c, cr_service_account_id c, cr_secret_hash c)) ` set (db_creds (w_db w'))"
    by (rule grows_image [OF g(3)]) (simp add: cred_succ_def)
  moreover have "{u \<in> set (db_users (w_db w)). ur_deleted_at u \<noteq> None} \<subseteq> set (db_users (w_db w'))"
    "{a \<in> set (db_accounts (w_db w)). ar_disabled_at a \<noteq> None} \<subseteq> set (db_accounts (w_db w'))"
    "{c \<in> set (db_creds (w_db w)). cr_revoked_at c \<noteq> None} \<subseteq> set (db_creds (w_db w'))"
    using evolves_deleted_user [OF e] evolves_disabled_account [OF e] evolves_revoked_credential [OF e] by auto
  ultimately show ?thesis
    using ok evolves_audit [OF e] evolves_identities [OF e] by (intro conjI)
qed

definition sample_gone_world :: "mem_redis_state world" where
  "sample_gone_world = sample_world\<lparr>w_db := sample_gone_db\<rparr>"

lemma sample_gone_world_db [simp]: "w_db sample_gone_world = sample_gone_db"
  by (simp add: sample_gone_world_def)

theorem database_history_witness:
  "sample_user\<lparr>ur_deleted_at := Some 2\<rparr>
     \<in> set (db_users (w_db (serve sample_env sample_service (CallRegister ''x@y.z'' ''pw'') sample_gone_world))) \<and>
   db_ok (w_db (serve sample_env sample_service (CallRegister ''x@y.z'' ''pw'') sample_gone_world))"
  using database_history [OF call [OF start, of sample_env sample_service sample_gone_world "CallRegister ''x@y.z'' ''pw''"]]
    sample_gone_db_ok
  by (auto simp: sample_gone_db_def simp del: serve.simps)

section \<open>Disabled accounts\<close>

lemma disabled_not_open:
  assumes "db_ok d" and "a \<in> set (db_accounts d)" and "ar_disabled_at a \<noteq> None"
  shows "\<not> opens (ar_id a) h t d"
proof
  assume "opens (ar_id a) h t d"
  then obtain r where r: "r \<in> set (db_accounts d)" "ar_id r = ar_id a" "ar_disabled_at r = None"
    by (auto simp: opens_def)
  have "distinct (map ar_id (db_accounts d))" using assms(1) by (simp add: db_ok_def accounts_ok_def)
  with r(1,2) assms(2) have "r = a" by (auto simp: distinct_map inj_on_def)
  with r(3) assms(3) show False by simp
qed

lemma Authenticate_opens:
  assumes "run_state (Authenticate E c s) w = (Inr acc, w')"
  shows "opens (TrimSpace c) (secretHash E (TrimSpace s)) (e_now E (w_tick w)) (w_db w)"
    and "ac_ID acc = TrimSpace c"
    and "\<exists>r \<in> set (db_accounts (w_db w)). ar_id r = TrimSpace c \<and> ar_scopes r = ac_Scopes acc"
proof -
  from assms obtain r where r: "SelectAuthenticated (TrimSpace c) (secretHash E (TrimSpace s)) (e_now E (w_tick w)) (w_db w) = Inr r"
      and acc: "acc = (rowToAccount r)\<lparr>ac_DisabledAt := None\<rparr>"
    by (auto simp: Authenticate_def ServiceAccountStore_Authenticate_def run_db_Query
        split: if_splits option.splits sum.splits)
  then show "opens (TrimSpace c) (secretHash E (TrimSpace s)) (e_now E (w_tick w)) (w_db w)"
    using SelectAuthenticated_opens by blast
  have "r \<in> set (db_accounts (w_db w)) \<and> ar_id r = TrimSpace c"
    using r by (auto simp: SelectAuthenticated_def dest: find_Some_iff_mem split: option.splits)
  then show "ac_ID acc = TrimSpace c"
    "\<exists>r \<in> set (db_accounts (w_db w)). ar_id r = TrimSpace c \<and> ar_scopes r = ac_Scopes acc"
    by (auto simp: acc rowToAccount_def)
qed

lemma keeps_IsAllowed [frame]: "keeps w_db (IsAllowed E rl k)"
  unfolding IsAllowed_def by (intro frame) simp_all

lemma Exchange_opens:
  assumes "run_state (ExchangeServiceToken E S c s) w = (Inr tok, w')"
  shows "\<exists>t. opens (TrimSpace c) (secretHash E (TrimSpace s)) t (w_db w)"
proof -
  define check where "check key = (case sv_serviceTokenRateLimiter S of
      None \<Rightarrow> reply True
    | Some rl \<Rightarrow> on_error (IsAllowed E rl key) (\<lambda>_. Status Internal ''failed to check service-token rate limit''))" for key
  have keep: "keeps w_db (check key)" for key unfolding check_def by (intro frame)
  from assms obtain key allowed w1 where "run_state (check key) w = (Inr allowed, w1)"
    and rest: "\<exists>acc w2. run_state (Authenticate E c s) w1 = (Inr acc, w2)"
    unfolding ExchangeServiceToken_def check_def [symmetric] run_Let
    by (elim andthen_InrE) (auto split: prod.splits sum.splits if_splits)
  then have "w_db w1 = w_db w" using keepsD [OF keep] by blast
  with rest show ?thesis using Authenticate_opens(1) by metis
qed

lemma authorize_account:
  assumes "run_state (authorizeServiceAccount E S ctx scs) w = (Inr acc, w')"
  shows "\<exists>claims r. fst (run_state (ValidateServiceToken E (accessTokenFromMetadata ctx) (tc_PublicKey (sv_tokenCfg S))) w) = Inr claims \<and>
     r \<in> set (db_accounts (w_db w)) \<and> ar_id r = cl_ServiceAccountID claims \<and> ar_disabled_at r = None \<and>
     acc = rowToAccount r \<and> (\<exists>required \<in> set scs. hasServiceScope (ar_scopes r) required)"
proof -
  from assms obtain claims w1
    where v: "run_state (ValidateServiceToken E (accessTokenFromMetadata ctx) (tc_PublicKey (sv_tokenCfg S))) w = (Inr claims, w1)"
      and g: "run_state (ServiceAccountStore_GetByID E (cl_ServiceAccountID claims)) w1 = (Inr acc, w')"
      and a: "ac_DisabledAt acc = None" "list_ex (hasServiceScope (ac_Scopes acc)) scs"
    unfolding authorizeServiceAccount_def run_Let
    by (auto split: if_splits elim!: andthen_InrE dest!: on_error_InrE split: prod.splits sum.splits)
  have "w_db w1 = w_db w"
    using v by (auto simp: ValidateServiceToken_def ValidateToken_def)
  then obtain r where "SelectAccountBy (\<lambda>row. ar_id row = cl_ServiceAccountID claims) (w_db w) = Inr r" "acc = rowToAccount r"
    using g by (auto simp: ServiceAccountStore_GetByID_def run_db_Query split: option.splits sum.splits)
  then show ?thesis
    using v a by (auto simp: SelectAccountBy_def rowToAccount_def list_ex_iff dest: find_Some_iff_mem split: option.splits)
qed

lemma authorize_keeps_db: "keeps w_db (authorizeServiceAccount E S ctx scs)"
  unfolding authorizeServiceAccount_def ValidateServiceToken_def ValidateToken_def ServiceAccountStore_GetByID_def
  by (intro frame) simp_all

text \<open>
  (C4) Disabling is final. Once a service account is disabled, whatever calls follow, no secret is
  ever exchanged for a token of that account again, and no service token it still holds passes the
  authorization of a management call.
\<close>

theorem disabled_account_locked_out:
  assumes "served E S w w'" and "db_ok (w_db w)"
    and "a \<in> set (db_accounts (w_db w))" and "ar_disabled_at a \<noteq> None" and "TrimSpace clientID = ar_id a"
  shows "fst (run_state (ExchangeServiceToken E S clientID secret) w') \<noteq> Inr token \<and>
         (\<forall>acc. fst (run_state (authorizeServiceAccount E S ctx scopes) w') = Inr acc \<longrightarrow> ac_ID acc \<noteq> ar_id a)"
proof -
  have e: "db_evolves (w_db w) (w_db w')" and ok: "db_ok (w_db w')"
    using served_evolves [OF assms(1)] assms(2) by auto
  have a': "a \<in> set (db_accounts (w_db w'))" by (rule evolves_disabled_account [OF e assms(3,4)])
  have "fst (run_state (ExchangeServiceToken E S clientID secret) w') \<noteq> Inr token"
  proof
    assume "fst (run_state (ExchangeServiceToken E S clientID secret) w') = Inr token"
    then have "run_state (ExchangeServiceToken E S clientID secret) w' =
        (Inr token, snd (run_state (ExchangeServiceToken E S clientID secret) w'))" by (simp add: prod_eq_iff)
    then show False using Exchange_opens disabled_not_open [OF ok a' assms(4)] assms(5) by metis
  qed
  moreover have "ac_ID acc \<noteq> ar_id a"
    if "fst (run_state (authorizeServiceAccount E S ctx scopes) w') = Inr acc" for acc
  proof
    assume id: "ac_ID acc = ar_id a"
    from that have "run_state (authorizeServiceAccount E S ctx scopes) w' =
        (Inr acc, snd (run_state (authorizeServiceAccount E S ctx scopes) w'))" by (simp add: prod_eq_iff)
    from authorize_account [OF this] obtain r where r: "r \<in> set (db_accounts (w_db w'))" "ar_disabled_at r = None"
      and acc: "acc = rowToAccount r" by blast
    have "distinct (map ar_id (db_accounts (w_db w')))" using ok by (simp add: db_ok_def accounts_ok_def)
    with r(1) a' id have "r = a" by (auto simp: acc rowToAccount_def distinct_map inj_on_def)
    with r(2) assms(4) show False by simp
  qed
  ultimately show ?thesis by blast
qed

theorem disabled_account_locked_out_witness:
  "\<nexists>token. fst (run_state (ExchangeServiceToken sample_env sample_service ''isa_1'' ''guess'')
      (serve sample_env sample_service (CallRotate sample_ctx ''isa_1'') sample_gone_world)) = Inr token"
  using disabled_account_locked_out [OF call [OF start, of sample_env sample_service sample_gone_world "CallRotate sample_ctx ''isa_1''"],
      of "sample_account\<lparr>ar_disabled_at := Some 2\<rparr>" "''isa_1''"]
    sample_gone_db_ok
  by (simp add: sample_gone_db_def sample_account_def TrimSpace_isa_1 del: serve.simps)

section \<open>Deleted users\<close>

definition email_burnt :: "string \<Rightarrow> db \<Rightarrow> bool" where
  "email_burnt e d \<longleftrightarrow> (\<exists>u \<in> set (db_users d). ur_email u = e \<and> ur_deleted_at u \<noteq> None) \<and> db_ok d"

lemma burnt_not_found: "email_burnt e d \<Longrightarrow> GetUserByEmail e d = Inl ErrNoRows"
proof -
  assume b: "email_burnt e d"
  then obtain u where u: "u \<in> set (db_users d)" "ur_email u = e" "ur_deleted_at u \<noteq> None"
    by (auto simp: email_burnt_def)
  have d: "distinct (map ur_email (db_users d))" using b by (simp add: email_burnt_def db_ok_def users_ok_def)
  have "\<not> (ur_email v = e \<and> ur_deleted_at v = None)" if "v \<in> set (db_users d)" for v
    using that u d by (auto simp: distinct_map inj_on_def)
  then have "find (\<lambda>u. ur_email u = e \<and> ur_deleted_at u = None) (db_users d) = None"
    by (simp add: find_None_all)
  then show ?thesis by (simp add: GetUserByEmail_def)
qed

lemma burnt_no_user: "email_burnt e (w_db w) \<Longrightarrow> fst (run_state (UserStore_GetByEmail E e) w) \<noteq> Inr u"
  by (simp add: UserStore_GetByEmail_def run_db_Query burnt_not_found split: option.splits)

lemma burnt_no_create:
  assumes "email_burnt (um_Email usr) (w_db w)"
  shows "run_state (UserStore_Create E usr) w \<noteq> (Inr u, w')"
proof
  assume "run_state (UserStore_Create E usr) w = (Inr u, w')"
  then obtain row where "CreateUser row (w_db w) = Inr (w_db w')" "ur_email row = um_Email usr"
    using UserStore_Create_success(1) by blast
  with assms show False by (auto simp: CreateUser_def email_burnt_def image_iff split: if_splits)
qed

lemma keeps_db_lookup [frame]: "keeps w_db (UserStore_GetByEmail E e)" "keeps w_db (UserStore_GetByID E i)"
  unfolding UserStore_GetByEmail_def UserStore_GetByID_def by (intro frame, simp)+

lemma keeps_db_redis [frame]:
  "keeps w_db (EmailCodeStore_Consume E c e v)" "keeps w_db (Record E rl k)" "keeps w_db (Reset E rl k)"
  "keeps w_db (HashPassword E pw)"
  unfolding EmailCodeStore_Consume_def Record_def Reset_def HashPassword_def by (intro frame, simp_all)+

lemma keeps_rateLimitAllowed [frame]: "keeps w_db (rateLimitAllowed E rl keys)"
  by (induction keys) (auto intro!: frame)

lemma keeps_limited [frame]: "keeps w_db (limited E l keys)"
  unfolding limited_def by (intro frame)

lemma keeps_run: "keeps f m \<Longrightarrow> f (snd (run_state m w)) = f w"
  by (simp add: keeps_def)

text \<open>
  (C18) A deleted user's address is gone for good. After a user has been soft-deleted, whatever calls
  follow, nobody can register with that email address, log in with it by password, or log in with
  it by email code (which would create an account): the row keeps the address taken.
\<close>

theorem deleted_email_unusable:
  assumes "served E S w w'" and "db_ok (w_db w)"
    and "u \<in> set (db_users (w_db w))" and "ur_deleted_at u \<noteq> None" and "TrimSpace req = ur_email u"
  shows "fst (run_state (RegisterWithPassword E S req pw) w') \<noteq> Inr p \<and>
         fst (run_state (LoginWithPassword E S ctx req pw) w') \<noteq> Inr p \<and>
         fst (run_state (LoginWithEmailCode E S ctx req code) w') \<noteq> Inr p"
proof -
  have e: "db_evolves (w_db w) (w_db w')" and ok: "db_ok (w_db w')"
    using served_evolves [OF assms(1)] assms(2) by auto
  have b: "email_burnt (TrimSpace req) d" if "d = w_db w'" for d
    using evolves_deleted_user [OF e assms(3,4)] ok assms(4,5) that by (auto simp: email_burnt_def)
  have noget: "run_state (UserStore_GetByEmail E (TrimSpace req)) v \<noteq> (Inr x, v')" if "w_db v = w_db w'" for v v' x
    using burnt_no_user [OF b [OF that]] by (metis fst_conv)
  have nocreate: "run_state (UserStore_Create E (new_user (TrimSpace req) h)) v \<noteq> (Inr x, v')" if "w_db v = w_db w'" for v v' x h
    using burnt_no_create [of "new_user (TrimSpace req) h" v E x v'] b [OF that] by (simp add: new_user_def)
  note db = keepsD [OF keeps_db_lookup(1)] keepsD [OF keeps_db_redis(4)] keepsD [OF keeps_limited]
    keepsD [OF keeps_db_redis(1)]
  have "run_state (RegisterWithPassword E S req pw) w' \<noteq> (Inr p, v)" for v
    by (rule notI, erule RegisterWithPassword_success) (use db nocreate in metis)
  moreover have "run_state (LoginWithPassword E S ctx req pw) w' \<noteq> (Inr p, v)" for v
    by (rule notI, erule LoginWithPassword_success) (use db noget in metis)
  moreover have "run_state (LoginWithEmailCode E S ctx req code) w' \<noteq> (Inr p, v)" for v
    by (rule notI, erule LoginWithEmailCode_success) (use db noget nocreate in metis)
  ultimately show ?thesis by (metis prod.collapse)
qed

theorem deleted_email_unusable_witness:
  "\<nexists>p. fst (run_state (RegisterWithPassword sample_env sample_service ''a@b.c'' ''pw'')
     (serve sample_env sample_service (CallLoginCode sample_ctx ''a@b.c'' ''123456'') sample_gone_world)) = Inr p"
proof -
  have "TrimSpace ''a@b.c'' = ''a@b.c''" by (simp add: TrimSpace_plain)
  then show ?thesis
    using deleted_email_unusable [OF call [OF start, of sample_env sample_service sample_gone_world
          "CallLoginCode sample_ctx ''a@b.c'' ''123456''"], of "sample_user\<lparr>ur_deleted_at := Some 2\<rparr>" "''a@b.c''"]
      sample_gone_db_ok
    by (simp add: sample_gone_db_def sample_user_def del: serve.simps)
qed

end
