(* ===== verification/Service_Authorization.thy ===== *)
theory Service_Authorization
  imports Service_History
begin

text \<open>
  Who may do what: the meaning of scopes, the guard in front of every management call, and the
  audit record behind every one that succeeded.
\<close>

section \<open>Scopes\<close>

lemma star_suffix: "suffix ''*'' s \<longleftrightarrow> (\<exists>p. s = p @ ''*'')"
  by (auto simp: suffix_def)

text \<open>
  (C21) A scope list grants a required scope exactly when it holds the administrator scope, the
  required scope itself, or a wildcard \<open>p*\<close> with \<open>p\<close> a prefix of the required scope.
\<close>

theorem hasServiceScope_iff:
  "hasServiceScope scopes required \<longleftrightarrow>
     ScopeAdmin \<in> set scopes \<or> required \<in> set scopes \<or> (\<exists>p. p @ ''*'' \<in> set scopes \<and> prefix p required)"
proof (induction scopes)
  case (Cons s scopes)
  have "HasSuffix s ''*'' \<and> HasPrefix required (TrimSuffix s ''*'') \<longleftrightarrow> (\<exists>p. s = p @ ''*'' \<and> prefix p required)"
    by (auto simp: HasSuffix_def HasPrefix_def TrimSuffix_def star_suffix)
  with Cons.IH show ?case by auto
qed simp

section \<open>The guard\<close>

definition permitted :: "'r env \<Rightarrow> Service \<Rightarrow> rpc_ctx \<Rightarrow> string list \<Rightarrow> 'r world \<Rightarrow> bool" where
  "permitted E S ctx scopes w \<longleftrightarrow> (\<exists>acc. fst (run_state (authorizeServiceAccount E S ctx scopes) w) = Inr acc)"

lemma guarded:
  assumes "\<not> permitted E S ctx scopes w"
  shows "isl (fst (run_state (andthen (authorizeServiceAccount E S ctx scopes) f) w))"
    and "w_db (snd (run_state (andthen (authorizeServiceAccount E S ctx scopes) f) w)) = w_db w"
proof -
  obtain e w1 where r: "run_state (authorizeServiceAccount E S ctx scopes) w = (Inl e, w1)"
    using assms unfolding permitted_def by (metis prod.collapse sum.exhaust)
  have "w_db w1 = w_db w" using keepsD [OF authorize_keeps_db r] .
  then show "isl (fst (run_state (andthen (authorizeServiceAccount E S ctx scopes) f) w))"
    "w_db (snd (run_state (andthen (authorizeServiceAccount E S ctx scopes) f) w)) = w_db w"
    by (simp_all add: run_andthen r)
qed

text \<open>
  (C2) Every management call is guarded. Without a service token that is valid now and whose account
  exists, is enabled and has (in the database, not merely in the token) a matching scope, a call
  fails and leaves the database untouched; and a call that passes the guard has such a token.
\<close>

theorem management_guarded:
  "(permitted E S ctx scopes w \<longrightarrow>
      (\<exists>claims r. fst (run_state (ValidateServiceToken E (accessTokenFromMetadata ctx) (tc_PublicKey (sv_tokenCfg S))) w) = Inr claims \<and>
         r \<in> set (db_accounts (w_db w)) \<and> ar_id r = cl_ServiceAccountID claims \<and> ar_disabled_at r = None \<and>
         (\<exists>required \<in> set scopes. hasServiceScope (ar_scopes r) required))) \<and>
   (\<not> permitted E S ctx [ScopeServiceAccountsManage] w \<longrightarrow>
      isl (fst (run_state (CreateServiceAccount E S ctx n scs) w)) \<and>
      w_db (snd (run_state (CreateServiceAccount E S ctx n scs) w)) = w_db w \<and>
      isl (fst (run_state (DisableServiceAccount E S ctx c) w)) \<and>
      w_db (snd (run_state (DisableServiceAccount E S ctx c) w)) = w_db w \<and>
      isl (fst (run_state (RotateServiceAccountSecret E S ctx c) w)) \<and>
      w_db (snd (run_state (RotateServiceAccountSecret E S ctx c) w)) = w_db w) \<and>
   (\<not> permitted E S ctx [ScopeUsersManage] w \<longrightarrow>
      isl (fst (run_state (CreatePasswordUser E S ctx em pw) w)) \<and>
      w_db (snd (run_state (CreatePasswordUser E S ctx em pw) w)) = w_db w \<and>
      isl (fst (run_state (DeleteUser E S ctx i) w)) \<and>
      w_db (snd (run_state (DeleteUser E S ctx i) w)) = w_db w \<and>
      isl (fst (run_state (ResetUserPassword E S ctx i pw) w)) \<and>
      w_db (snd (run_state (ResetUserPassword E S ctx i pw) w)) = w_db w) \<and>
   (\<not> permitted E S ctx [ScopeUsersRead, ScopeUsersManage] w \<longrightarrow> isl (fst (run_state (ListUsers E S ctx sz t) w))) \<and>
   (\<not> permitted E S ctx [ScopeAuditRead] w \<longrightarrow> isl (fst (run_state (ListAuditEvents E S ctx sz t) w))) \<and>
   (\<not> permitted E S ctx [ScopeServiceAccountsRead, ScopeServiceAccountsManage] w \<longrightarrow>
      isl (fst (run_state (ListServiceAccounts E S ctx) w)))"
proof -
  have "\<exists>claims r. fst (run_state (ValidateServiceToken E (accessTokenFromMetadata ctx) (tc_PublicKey (sv_tokenCfg S))) w) = Inr claims \<and>
         r \<in> set (db_accounts (w_db w)) \<and> ar_id r = cl_ServiceAccountID claims \<and> ar_disabled_at r = None \<and>
         (\<exists>required \<in> set scopes. hasServiceScope (ar_scopes r) required)" if p: "permitted E S ctx scopes w"
  proof -
    from p obtain acc w1 where "run_state (authorizeServiceAccount E S ctx scopes) w = (Inr acc, w1)"
      unfolding permitted_def by (metis prod.collapse)
    from authorize_account [OF this] show ?thesis by blast
  qed
  then show ?thesis
    unfolding CreateServiceAccount_def DisableServiceAccount_def RotateServiceAccountSecret_def
      CreatePasswordUser_def DeleteUser_def ResetUserPassword_def ListUsers_def ListAuditEvents_def
      ListServiceAccounts_def
    by (simp add: guarded)
qed

theorem management_guarded_witness:
  "(\<exists>r \<in> set (db_accounts (w_db sample_db_world)).
      ar_disabled_at r = None \<and> (\<exists>required \<in> {ScopeUsersManage}. hasServiceScope (ar_scopes r) required)) \<and>
   isl (fst (run_state (DeleteUser sample_env sample_service (\<lambda>_. []) ''u1'') sample_db_world))"
proof -
  have p: "permitted sample_env sample_service sample_ctx [ScopeUsersManage] sample_db_world"
    using sample_authorize [of sample_db_world "[ScopeUsersManage]"] by (simp add: permitted_def sample_db_def)
  have "\<not> permitted sample_env sample_service (\<lambda>_. []) [ScopeUsersManage] sample_db_world"
    by (simp add: permitted_def authorizeServiceAccount_def accessTokenFromMetadata_def)
  then have "isl (fst (run_state (DeleteUser sample_env sample_service (\<lambda>_. []) ''u1'') sample_db_world))"
    using management_guarded by blast
  moreover from management_guarded [THEN conjunct1, THEN mp, OF p]
  have "\<exists>r \<in> set (db_accounts (w_db sample_db_world)).
      ar_disabled_at r = None \<and> (\<exists>required \<in> {ScopeUsersManage}. hasServiceScope (ar_scopes r) required)"
    by force
  ultimately show ?thesis by blast
qed

section \<open>The audit record\<close>

lemma keeps_table_Exec:
  "(\<And>d d' a. s d = Inr (d', a) \<Longrightarrow> f d' = f d) \<Longrightarrow> keeps (\<lambda>w. f (w_db w)) (db_Exec E s)"
  by (rule keepsI) (auto simp: db_Exec_def Let_def split: option.splits sum.splits)

lemma keeps_table_Transact:
  assumes "keeps (\<lambda>w. f (w_db w)) body"
  shows "keeps (\<lambda>w. f (w_db w)) (db_Transact E be ce body)"
proof (rule keepsI)
  fix w r w' assume r: "run_state (db_Transact E be ce body) w = (r, w')"
  show "f (w_db w') = f (w_db w)"
  proof (cases r)
    case (Inl e)
    with r show ?thesis by (simp add: db_Transact_atomic)
  next
    case (Inr a)
    with r have "run_state (db_Transact E be ce body) w = (Inr a, w')" by simp
    then show ?thesis
      by (cases rule: db_Transact_success) (use assms in \<open>auto dest!: keepsD\<close>)
  qed
qed

abbreviation audit_log :: "'r world \<Rightarrow> audit_row list" where
  "audit_log w \<equiv> db_audit (w_db w)"

lemma keeps_audit_statements [frame]:
  "keeps audit_log (db_Exec E (InsertServiceAccount a))" "keeps audit_log (db_Exec E (InsertCredential i s h t))"
  "keeps audit_log (db_Exec E (DisableAccount_sql i t))" "keeps audit_log (db_Exec E (RevokeCredentials_sql i t))"
  "keeps audit_log (db_Exec E (UpdateUser i e hp ha l t))" "keeps audit_log (db_Exec E (SoftDeleteUser i t t'))"
  "keeps audit_log (db_Exec E (SetUserPassword i pw t))"
  by (rule keeps_table_Exec, auto simp: InsertServiceAccount_def InsertCredential_def DisableAccount_sql_def
      RevokeCredentials_sql_def UpdateUser_def SoftDeleteUser_def SetUserPassword_def update_users_def Let_def
      split: if_splits)+

lemma keeps_audit_create_user [frame]:
  "keeps audit_log (db_Exec E (\<lambda>d. map_sum id (\<lambda>d'. (d', ())) (CreateUser arg d)))"
proof (rule keeps_table_Exec)
  fix d d' a assume "map_sum id (\<lambda>d'. (d', ())) (CreateUser arg d) = Inr (d', a)"
  then have "CreateUser arg d = Inr d'" by (cases "CreateUser arg d") auto
  then show "db_audit d' = db_audit d" by (auto simp: CreateUser_def split: if_splits)
qed

lemma keeps_audit_query [frame]: "keeps audit_log (db_Query E q)"
  by (simp add: keeps_def run_db_Query)

lemma keeps_audit_stores [frame]:
  "keeps audit_log (UserStore_Create E u)" "keeps audit_log (UserStore_Delete E i)"
  "keeps audit_log (UserStore_SetPassword E i pw)" "keeps audit_log (UserStore_GetByID E i)"
  "keeps audit_log (HashPassword E pw)" "keeps audit_log (ServiceAccountStore_Disable E c t)"
  "keeps audit_log (authorizeServiceAccount E S ctx scs)"
  unfolding UserStore_Create_def UserStore_Delete_def UserStore_SetPassword_def UserStore_GetByID_def
    HashPassword_def ServiceAccountStore_Disable_def ServiceAccountStore_GetByID_def authorizeServiceAccount_def
    ValidateServiceToken_def ValidateToken_def
  by (intro frame, simp_all)+

lemma keeps_audit_randomValue [frame]: "keeps audit_log (randomValue E p k)"
  unfolding randomValue_def by (intro frame) simp

lemma keeps_audit_accounts [frame]: "keeps audit_log (Create E n scs)" "keeps audit_log (RotateCredential E c)"
  unfolding Create_def newRecord_def RotateCredential_def ServiceAccountStore_Create_def insertServiceAccount_def
    ServiceAccountStore_RotateCredential_def
  by (intro frame keeps_table_Transact, simp_all)+

lemma keeps_audit_now [frame]: "keeps audit_log (time_Now E)"
  by (intro frame) simp

definition db_up :: "'r env \<Rightarrow> bool" where
  "db_up E \<longleftrightarrow> (\<forall>n. e_db_fault E n = None)"

definition uuids_fresh :: "'r env \<Rightarrow> db \<Rightarrow> bool" where
  "uuids_fresh E d \<longleftrightarrow> (\<forall>n. e_uuid E n \<notin> set (map au_id (db_audit d)))"

lemma recordManagementAudit_appends:
  assumes "run_state (recordManagementAudit E actor action ty rid) w = (x, w')" and "db_up E"
    and "\<forall>n. e_uuid E n \<notin> set (map au_id (audit_log w))"
  shows "\<exists>ev. audit_log w' = audit_log w @ [ev] \<and> au_actor_id ev = ac_ID actor \<and> au_action ev = action \<and>
     au_resource_id ev = rid \<and> au_actor_type ev = AuditActorServiceAccount"
  using assms
  by (auto simp: recordManagementAudit_def AuditStore_Record_def db_Exec_def InsertAuditEvent_def db_up_def Let_def)

text \<open>The log of \<open>w'\<close> is the one of \<open>w\<close> with one event of the account that \<open>ctx\<close> authorizes.\<close>

definition audited ::
  "'r env \<Rightarrow> Service \<Rightarrow> rpc_ctx \<Rightarrow> string \<Rightarrow> string \<Rightarrow> string \<Rightarrow> 'r world \<Rightarrow> 'r world \<Rightarrow> bool" where
  "audited E S ctx scope action rid w w' \<longleftrightarrow>
     (\<exists>actor ev. fst (run_state (authorizeServiceAccount E S ctx [scope]) w) = Inr actor \<and>
        audit_log w' = audit_log w @ [ev] \<and> au_actor_type ev = AuditActorServiceAccount \<and>
        au_actor_id ev = ac_ID actor \<and> au_action ev = action \<and> au_resource_id ev = rid)"

lemma audited_from:
  assumes "run_state (authorizeServiceAccount E S ctx [scope]) w = (Inr actor, w1)"
    and "audit_log w2 = audit_log w1"
    and "run_state (recordManagementAudit E actor action ty rid) w2 = ((), w')"
    and "db_up E" and "uuids_fresh E (w_db w)"
  shows "audited E S ctx scope action rid w w'"
proof -
  have log: "audit_log w2 = audit_log w"
    using keepsD [OF keeps_audit_stores(7) assms(1)] assms(2) by simp
  then show ?thesis
    using recordManagementAudit_appends [OF assms(3,4)] assms(1,5) by (auto simp: audited_def uuids_fresh_def)
qed

lemmas audit_kept = keepsD [OF keeps_audit_stores(1)] keepsD [OF keeps_audit_stores(2)]
  keepsD [OF keeps_audit_stores(3)] keepsD [OF keeps_audit_stores(4)] keepsD [OF keeps_audit_stores(5)]
  keepsD [OF keeps_audit_stores(6)] keepsD [OF keeps_audit_accounts(1)] keepsD [OF keeps_audit_accounts(2)]
  keepsD [OF keeps_audit_now]

lemma audited_DisableServiceAccount:
  assumes "run_state (DisableServiceAccount E S ctx c) w = (Inr acc, w')" and "db_up E" and "uuids_fresh E (w_db w)"
  shows "audited E S ctx ScopeServiceAccountsManage ''service_account.disable'' (sp_ClientId acc) w w'"
  using assms(1)
proof (rule DisableServiceAccount_success)
  fix actor w1 now w2 account w3
  assume a: "run_state (authorizeServiceAccount E S ctx [ScopeServiceAccountsManage]) w = (Inr actor, w1)"
    and t: "run_state (time_Now E) w1 = (now, w2)"
    and d: "run_state (ServiceAccountStore_Disable E (TrimSpace c) now) w2 = (Inr account, w3)"
    and r: "run_state (recordManagementAudit E actor ''service_account.disable'' ''service_account'' (ac_ID account)) w3 = ((), w')"
    and acc: "acc = serviceAccountProto account"
  have "audit_log w3 = audit_log w1" using audit_kept(6) [OF d] audit_kept(9) [OF t] by simp
  from audited_from [OF a this r assms(2,3)] show ?thesis by (simp add: acc serviceAccountProto_def)
qed

lemma audited_CreatePasswordUser:
  assumes "run_state (CreatePasswordUser E S ctx em pw) w = (Inr x, w')" and "db_up E" and "uuids_fresh E (w_db w)"
  shows "audited E S ctx ScopeUsersManage ''user.create'' (mu_Id x) w w'"
  using assms(1)
proof (rule CreatePasswordUser_success)
  fix actor w1 hash w2 user w3
  assume a: "run_state (authorizeServiceAccount E S ctx [ScopeUsersManage]) w = (Inr actor, w1)"
    and h: "run_state (HashPassword E pw) w1 = (Inr hash, w2)"
    and u: "run_state (UserStore_Create E (new_user (TrimSpace em) (Some hash))) w2 = (Inr user, w3)"
    and r: "run_state (recordManagementAudit E actor ''user.create'' ''user'' (um_ID user)) w3 = ((), w')"
    and x: "x = managedUserProto user"
  have "audit_log w3 = audit_log w1" using audit_kept(5) [OF h] audit_kept(1) [OF u] by simp
  from audited_from [OF a this r assms(2,3)] show ?thesis by (simp add: x managedUserProto_def)
qed

lemma audited_ResetUserPassword:
  assumes "run_state (ResetUserPassword E S ctx i pw) w = (Inr x, w')" and "db_up E" and "uuids_fresh E (w_db w)"
  shows "audited E S ctx ScopeUsersManage ''user.reset_password'' (TrimSpace i) w w'"
  using assms(1)
proof (rule ResetUserPassword_success)
  fix actor w1 hash w2 w3 user w4
  assume a: "run_state (authorizeServiceAccount E S ctx [ScopeUsersManage]) w = (Inr actor, w1)"
    and h: "run_state (HashPassword E pw) w1 = (Inr hash, w2)"
    and s: "run_state (UserStore_SetPassword E (TrimSpace i) hash) w2 = (Inr (), w3)"
    and g: "run_state (UserStore_GetByID E (TrimSpace i)) w3 = (Inr user, w4)"
    and r: "run_state (recordManagementAudit E actor ''user.reset_password'' ''user'' (TrimSpace i)) w4 = ((), w')"
  have "audit_log w4 = audit_log w1"
    using audit_kept(5) [OF h] audit_kept(3) [OF s] audit_kept(4) [OF g] by simp
  from audited_from [OF a this r assms(2,3)] show ?thesis .
qed



end
