(* ===== verification/Session_Replay.thy ===== *)
theory Session_Replay
  imports Service_History
begin

text \<open>
  Refresh tokens across the whole service: a program \<open>spares\<close> a set of Redis keys when it neither
  touches them nor runs the clock backwards. Every handler spares the revocation marks, except where
  it revokes, and from there follows that a refresh token works once.
\<close>

section \<open>Programs that spare keys\<close>

definition spares :: "'r env \<Rightarrow> string set \<Rightarrow> ('r world, 'a) state \<Rightarrow> bool" where
  "spares E K m \<longleftrightarrow> (clock_mono E \<and> redis_laws (e_redis E) \<longrightarrow>
     (\<forall>w a w'. run_state m w = (a, w') \<longrightarrow> w_tick w \<le> w_tick w' \<and>
        (\<forall>k \<in> K. \<forall>t \<ge> e_now E (w_tick w').
           rd_get (e_redis E) t k (w_redis w') = rd_get (e_redis E) t k (w_redis w))))"

named_theorems spared \<open>programs that leave other stores' Redis keys alone\<close>

lemma sparesI:
  assumes "\<And>w a w'. clock_mono E \<Longrightarrow> redis_laws (e_redis E) \<Longrightarrow> run_state m w = (a, w') \<Longrightarrow> w_tick w \<le> w_tick w' \<and>
    (\<forall>k \<in> K. \<forall>t \<ge> e_now E (w_tick w'). rd_get (e_redis E) t k (w_redis w') = rd_get (e_redis E) t k (w_redis w))"
  shows "spares E K m"
  using assms by (simp add: spares_def)

lemma sparesD:
  assumes "spares E K m" and "clock_mono E" and "redis_laws (e_redis E)" and "run_state m w = (a, w')"
  shows "w_tick w \<le> w_tick w'"
    and "k \<in> K \<Longrightarrow> e_now E (w_tick w') \<le> t \<Longrightarrow>
         rd_get (e_redis E) t k (w_redis w') = rd_get (e_redis E) t k (w_redis w)"
  using assms unfolding spares_def by blast+

lemma spares_return [spared]: "spares E K (State_Monad.return a)"
  by (rule sparesI) simp

lemma spares_bind [spared]:
  assumes "spares E K m" and "\<And>a. spares E K (g a)"
  shows "spares E K (State_Monad.bind m g)"
proof (rule sparesI)
  fix w b w'
  assume law: "clock_mono E" "redis_laws (e_redis E)" and "run_state (State_Monad.bind m g) w = (b, w')"
  from this(3) obtain a w1 where m: "run_state m w = (a, w1)" and g: "run_state (g a) w1 = (b, w')" by (rule bind_runE)
  note 1 = sparesD [OF assms(1) law m] and 2 = sparesD [OF assms(2) law g]
  have "e_now E (w_tick w1) \<le> e_now E (w_tick w')" by (rule clock_monoD [OF law(1) 2(1)])
  then show "w_tick w \<le> w_tick w' \<and>
      (\<forall>k \<in> K. \<forall>t \<ge> e_now E (w_tick w'). rd_get (e_redis E) t k (w_redis w') = rd_get (e_redis E) t k (w_redis w))"
    using 1 2 by (auto intro: order_trans)
qed

lemma spares_if [spared]: "spares E K m \<Longrightarrow> spares E K n \<Longrightarrow> spares E K (if b then m else n)"
  by simp

lemma spares_case_sum [spared]:
  "(\<And>e. spares E K (g e)) \<Longrightarrow> (\<And>a. spares E K (h a)) \<Longrightarrow> spares E K (case x of Inl e \<Rightarrow> g e | Inr a \<Rightarrow> h a)"
  by (cases x) auto

lemma spares_case_option [spared]:
  "spares E K g \<Longrightarrow> (\<And>a. spares E K (h a)) \<Longrightarrow> spares E K (case x of None \<Rightarrow> g | Some a \<Rightarrow> h a)"
  by (cases x) auto

lemma spares_case_prod [spared]: "(\<And>a b. spares E K (g a b)) \<Longrightarrow> spares E K (case x of (a, b) \<Rightarrow> g a b)"
  by (cases x) auto

lemma spares_case_list [spared]:
  "spares E K g \<Longrightarrow> (\<And>a as. spares E K (h a as)) \<Longrightarrow> spares E K (case x of [] \<Rightarrow> g | a # as \<Rightarrow> h a as)"
  by (cases x) auto

lemma spares_case_tx [spared]:
  "(\<And>a. spares E K (g a)) \<Longrightarrow> (\<And>e. spares E K (h e)) \<Longrightarrow> spares E K (case x of Commit a \<Rightarrow> g a | Rollback e \<Rightarrow> h e)"
  by (cases x) auto

lemma spares_Let [spared]: "(\<And>x. spares E K (g x)) \<Longrightarrow> spares E K (let x = t in g x)"
  by simp

lemma spares_effects [spared]:
  "spares E K (time_Now E)" "spares E K (rand_Read E n)" "spares E K (rand_Int E n)" "spares E K (uuid_NewString E)"
  "spares E K next_tick" "spares E K db_get" "spares E K (db_restore d)" "spares E K (db_Exec E stmt)"
  "spares E K (db_Query E q)" "spares E K (send_Mail E msg)"
  by (auto intro!: sparesI simp: db_get_def db_restore_def db_Exec_def run_db_Query send_Mail_def Let_def
      split: option.splits sum.splits)

lemma spares_redis [spared]:
  assumes "\<And>t t' k r. redis_laws (e_redis E) \<Longrightarrow> t \<le> t' \<Longrightarrow> k \<in> K \<Longrightarrow>
    rd_get (e_redis E) t' k (snd (cmd t r)) = rd_get (e_redis E) t' k r"
  shows "spares E K (redis_Run E cmd)"
proof (rule sparesI)
  fix w a w'
  assume law: "clock_mono E" "redis_laws (e_redis E)" and run: "run_state (redis_Run E cmd) w = (a, w')"
  have tick: "w_tick w' = Suc (w_tick w)" and "w_redis w' \<in> {w_redis w, snd (cmd (e_now E (w_tick w)) (w_redis w))}"
    using run by (auto simp: redis_Run_def Let_def split: redis_fault.splits prod.splits)
  moreover have "e_now E (w_tick w) \<le> e_now E (w_tick w')" using tick by (intro clock_monoD [OF law(1)]) simp
  ultimately show "w_tick w \<le> w_tick w' \<and>
      (\<forall>k \<in> K. \<forall>t \<ge> e_now E (w_tick w'). rd_get (e_redis E) t k (w_redis w') = rd_get (e_redis E) t k (w_redis w))"
    using assms law(2) by auto
qed

lemma spares_Transact [spared]: "spares E K body \<Longrightarrow> spares E K (db_Transact E be ce body)"
  unfolding db_Transact_def by (intro spared)

lemma spares_rpc [spared]:
  "spares E K (fail c msg)" "spares E K (reply a)"
  "spares E K m \<Longrightarrow> (\<And>a. spares E K (f a)) \<Longrightarrow> spares E K (andthen m f)"
  "spares E K m \<Longrightarrow> spares E K (on_error m g)"
  unfolding fail_def reply_def andthen_def on_error_def by (intro spared | assumption)+
section \<open>The stores\<close>

definition outside :: "string \<Rightarrow> string set \<Rightarrow> bool" where
  "outside p K \<longleftrightarrow> (\<forall>k \<in> K. \<not> prefix p k)"

lemma outside_key: "outside p K \<Longrightarrow> k \<in> K \<Longrightarrow> k \<noteq> p @ s"
  by (auto simp: outside_def)

lemma spares_limiter [spared]:
  assumes "outside (rl_prefix rl) K"
  shows "spares E K (IsAllowed E rl key)" "spares E K (Record E rl key)" "spares E K (Reset E rl key)"
proof -
  have other: "k \<noteq> fullKey rl key" if "k \<in> K" for k using outside_key [OF assms that] by (simp add: fullKey_def)
  have "rd_get (e_redis E) t' k (snd (isAllowedScript (e_redis E) (fullKey rl key) n t r)) = rd_get (e_redis E) t' k r" for t t' k n r
    by (simp add: isAllowedScript_def split: option.splits)
  then show "spares E K (IsAllowed E rl key)" unfolding IsAllowed_def by (intro spared) simp
  have "rd_get (e_redis E) t' k (snd (recordScript (e_redis E) (fullKey rl key) n t r)) = rd_get (e_redis E) t' k r"
    if "redis_laws (e_redis E)" "t \<le> t'" "k \<in> K" for t t' k n r
    using redis_get_incr_other [OF that(1,2) other [OF that(3)], of r] redis_get_expire_other [OF that(1,2) other [OF that(3)]]
    by (auto simp: recordScript_def split: prod.splits sum.splits)
  then show "spares E K (Record E rl key)" unfolding Record_def by (intro spared) simp
  show "spares E K (Reset E rl key)"
    unfolding Reset_def by (intro spared) (use other in \<open>auto simp: redis_get_del\<close>)
qed

lemma spares_codes [spared]:
  assumes "outside (ecs_prefix s) K"
  shows "spares E K (EmailCodeStore_Set E s email code)" "spares E K (EmailCodeStore_Consume E s email code)"
proof -
  have other: "k \<noteq> ecs_key s email" if "k \<in> K" for k using outside_key [OF assms that] by (simp add: ecs_key_def)
  show "spares E K (EmailCodeStore_Set E s email code)"
    unfolding EmailCodeStore_Set_def by (intro spared) (simp add: other redis_get_set_other)
  show "spares E K (EmailCodeStore_Consume E s email code)"
    unfolding EmailCodeStore_Consume_def
    by (intro spared) (use other in \<open>auto simp: consumeEmailCodeScript_def redis_get_del split: option.splits\<close>)
qed

lemma spares_states [spared]:
  assumes "outside (rs_prefix s) K"
  shows "spares E K (OAuthStateStore_Add E s st p u)" "spares E K (OAuthStateStore_Consume E s st)"
proof -
  have other: "k \<noteq> rs_key s st" if "k \<in> K" for k using outside_key [OF assms that] by (simp add: rs_key_def)
  show "spares E K (OAuthStateStore_Add E s st p u)"
    unfolding OAuthStateStore_Add_def by (intro spared) (simp add: other redis_get_set_other)
  show "spares E K (OAuthStateStore_Consume E s st)"
    unfolding OAuthStateStore_Consume_def
    by (intro spared) (use other in \<open>auto simp: consumeStateScript_def redis_get_del split: option.splits\<close>)
qed

lemma spares_revocations [spared]:
  "spares E K (IsRevoked E s i)"
  "rv_key s i \<notin> K \<Longrightarrow> spares E K (Revoke E s i x)"
proof -
  show "spares E K (IsRevoked E s i)" unfolding IsRevoked_def by (intro spared) simp
  assume "rv_key s i \<notin> K"
  then show "spares E K (Revoke E s i x)"
    unfolding Revoke_def by (intro spared) (simp, rule redis_get_set_other, auto)
qed

lemma spares_users [spared]:
  "spares E K (UserStore_Create E u)" "spares E K (UserStore_GetByID E i)" "spares E K (UserStore_GetByEmail E e)"
  "spares E K (UserStore_Update E u)" "spares E K (UserStore_Delete E i)" "spares E K (UserStore_SetPassword E i p)"
  "spares E K (UserStore_List E a b)" "spares E K (UserStore_Count E)" "spares E K (ExternalIdentityStore_Create E x)"
  "spares E K (ExternalIdentityStore_GetByProviderID E p i)" "spares E K (ExternalIdentityStore_GetByUserID E i)"
  unfolding UserStore_Create_def UserStore_GetByID_def UserStore_GetByEmail_def UserStore_Update_def UserStore_Delete_def
    UserStore_SetPassword_def UserStore_List_def UserStore_Count_def ExternalIdentityStore_Create_def
    ExternalIdentityStore_GetByProviderID_def ExternalIdentityStore_GetByUserID_def
  by (intro spared)+

lemma spares_accounts [spared]:
  "spares E K (insertServiceAccount E br)" "spares E K (findServiceAccountByName E n)" "spares E K (ServiceAccountStore_Create E br)"
  "spares E K (ServiceAccountStore_Authenticate E i h t)" "spares E K (ServiceAccountStore_GetByID E i)"
  "spares E K (ServiceAccountStore_List E)" "spares E K (ServiceAccountStore_Disable E i t)"
  unfolding insertServiceAccount_def findServiceAccountByName_def ServiceAccountStore_Create_def
    ServiceAccountStore_Authenticate_def ServiceAccountStore_GetByID_def ServiceAccountStore_List_def ServiceAccountStore_Disable_def
  by (intro spared)+

lemma spares_account_transactions [spared]:
  "spares E K (ServiceAccountStore_RotateCredential E i c h t)" "spares E K (ServiceAccountStore_Bootstrap E br ine f)"
  "spares E K (AuditStore_Record E ev)" "spares E K (AuditStore_List E a b)"
  unfolding ServiceAccountStore_RotateCredential_def ServiceAccountStore_Bootstrap_def bootstrap_write_def
    AuditStore_Record_def AuditStore_List_def
  by (intro spared)+

section \<open>The handlers\<close>

text \<open>No store of the service but the revocations keeps anything under the keys.\<close>

definition foreign_keys :: "Service \<Rightarrow> string set \<Rightarrow> bool" where
  "foreign_keys S K \<longleftrightarrow> outside (ecs_prefix (sv_emailCodeStore S)) K \<and> outside (rs_prefix (sv_oauthStateStore S)) K \<and>
     (\<forall>rl. sv_loginRateLimiter S = Some rl \<or> sv_sendCodeRateLimiter S = Some rl \<or> sv_serviceTokenRateLimiter S = Some rl \<longrightarrow>
        outside (rl_prefix rl) K)"

lemma spares_credentials [spared]:
  "spares E K (randomValue E p n)" "spares E K (newRecord E name scs)" "spares E K (newBootstrapRecord E req)"
  "spares E K (Bootstrap E req)" "spares E K (Create E name scs)" "spares E K (Authenticate E i s)" "spares E K (RotateCredential E i)"
  unfolding randomValue_def newRecord_def newBootstrapRecord_def Bootstrap_def Create_def Authenticate_def RotateCredential_def
  by (intro spared)+

lemma spares_tokens [spared]:
  "spares E K (NewStandardClaims E u ty iss x)" "spares E K (NewTokenPair E u cfg)" "spares E K (NewServiceToken E u sc cfg)"
  "spares E K (ValidateAccessToken E t pk)" "spares E K (ValidateRefreshToken E t pk)" "spares E K (ValidateServiceToken E t pk)"
  "spares E K (HashPassword E pw)" "spares E K (recordLogin E usr)" "spares E K (issue_pair E S u)"
  unfolding NewStandardClaims_def NewTokenPair_def NewServiceToken_def ValidateAccessToken_def ValidateRefreshToken_def
    ValidateServiceToken_def ValidateToken_def HashPassword_def recordLogin_def issue_pair_def
  by (intro spared)+

lemma spares_limits [spared]:
  assumes "outside (rl_prefix rl) K"
  shows "spares E K (rateLimitAllowed E rl keys)" "spares E K (recordRateLimit E rl keys)"
  using assms by (induction keys) (auto intro!: spared)

lemma spares_limited [spared]:
  assumes "\<And>rl. l = Some rl \<Longrightarrow> outside (rl_prefix rl) K"
  shows "spares E K (limited E l keys)" "spares E K (record_failure E l keys)" "spares E K (reset_limit E l k)"
    "spares E K (send_code_limited E l keys)"
  using assms unfolding limited_def record_failure_def reset_limit_def send_code_limited_def
  by (cases l; auto intro!: spared)+

lemma spares_parts [spared]:
  "spares E K (generateEmailCode E)" "spares E K (sendVerificationCode E r c m h)" "spares E K (ensureRefreshTokenActive E S claims)"
  "spares E K (GetUserInfo E t)" "spares E K (GetEmail E t)" "spares E K (generateOAuthState E)" "spares E K (oauth_Exchange E cfg x)"
  "spares E K (authorizeServiceAccount E S ctx scs)" "spares E K (recordManagementAudit E a act ty i)"
  unfolding generateEmailCode_def sendVerificationCode_def ensureRefreshTokenActive_def GetUserInfo_def GetEmail_def
    generateOAuthState_def oauth_Exchange_def authorizeServiceAccount_def recordManagementAudit_def
  by (intro spared)+

lemma spares_oauth_parts [spared]:
  "spares E K (updateEmailIfNeeded E usr e)" "spares E K (merge_by_email E info usr)" "spares E K (create_oauth_user E info)"
  "spares E K (maybeFillOAuthEmail E S t info)" "spares E K (link_identity E p i u)" "spares E K (ensureOAuthUser E info)"
  unfolding updateEmailIfNeeded_def merge_by_email_def create_oauth_user_def maybeFillOAuthEmail_def link_identity_def
    ensureOAuthUser_def
  by (intro spared)+

lemma foreign_parts:
  assumes "foreign_keys S K"
  shows "outside (ecs_prefix (sv_emailCodeStore S)) K" "outside (rs_prefix (sv_oauthStateStore S)) K"
    "sv_loginRateLimiter S = Some rl \<Longrightarrow> outside (rl_prefix rl) K"
    "sv_sendCodeRateLimiter S = Some rl \<Longrightarrow> outside (rl_prefix rl) K"
    "sv_serviceTokenRateLimiter S = Some rl \<Longrightarrow> outside (rl_prefix rl) K"
  using assms by (auto simp: foreign_keys_def)

lemma spares_handlers [spared]:
  assumes "foreign_keys S K"
  shows "spares E K (RegisterWithPassword E S e p)" "spares E K (LoginWithPassword E S ctx e p)"
    "spares E K (RequestEmailLoginCode E S ctx e h)" "spares E K (LoginWithEmailCode E S ctx e c)"
    "spares E K (GetCurrentUser E S ctx)" "spares E K (StartOAuthLogin E S pr u)" "spares E K (LoginWithOAuth E S c st)"
    "spares E K (LinkOAuthAccount E S ctx c st)"
  unfolding RegisterWithPassword_def LoginWithPassword_def RequestEmailLoginCode_def LoginWithEmailCode_def
    GetCurrentUser_def StartOAuthLogin_def LoginWithOAuth_def LinkOAuthAccount_def redeem_state_def
  by (intro spared foreign_parts [OF assms] | assumption)+

lemma spares_exchange [spared]:
  assumes "foreign_keys S K"
  shows "spares E K (ExchangeServiceToken E S i s)"
proof (cases "sv_serviceTokenRateLimiter S")
  case None
  then show ?thesis unfolding ExchangeServiceToken_def by (simp only: option.case) (intro spared | simp)+
next
  case (Some rl)
  then have "outside (rl_prefix rl) K" using foreign_parts(5) [OF assms] by blast
  then show ?thesis unfolding ExchangeServiceToken_def Some option.case by (intro spared | simp)+
qed

lemma spares_management [spared]:
  "spares E K (CreateServiceAccount E S ctx n scs)" "spares E K (ListServiceAccounts E S ctx)"
  "spares E K (DisableServiceAccount E S ctx c)" "spares E K (RotateServiceAccountSecret E S ctx c)"
  "spares E K (ListUsers E S ctx sz t)" "spares E K (CreatePasswordUser E S ctx em pw)" "spares E K (DeleteUser E S ctx i)"
  "spares E K (ResetUserPassword E S ctx i pw)" "spares E K (ListAuditEvents E S ctx sz t)"
  unfolding CreateServiceAccount_def ListServiceAccounts_def DisableServiceAccount_def RotateServiceAccountSecret_def
    ListUsers_def CreatePasswordUser_def DeleteUser_def ResetUserPassword_def ListAuditEvents_def
  by (intro spared)+

section \<open>A revocation mark lasts\<close>

definition kept_marked :: "'r env \<Rightarrow> redisRevocationStore \<Rightarrow> string \<Rightarrow> go_time \<Rightarrow> 'r world \<Rightarrow> bool" where
  "kept_marked E store jti expiry w \<longleftrightarrow>
     (\<forall>t. e_now E (w_tick w) \<le> t \<longrightarrow> t + millisecond \<le> expiry \<longrightarrow> rv_marked E store jti t w)"

lemma expired_marked: "expiry < e_now E (w_tick w) + millisecond \<Longrightarrow> kept_marked E store jti expiry w"
  by (simp add: kept_marked_def)

lemma spares_marked:
  assumes "clock_mono E" and "redis_laws (e_redis E)" and "run_state m w = (a, w')"
    and "spares E {rv_key store jti} m" and "kept_marked E store jti expiry w"
  shows "kept_marked E store jti expiry w'"
  using sparesD [OF assms(4,1-3)] clock_monoD [OF assms(1) sparesD(1) [OF assms(4,1-3)]] assms(5)
  by (auto simp: kept_marked_def rv_marked_def)

lemma spares_expired:
  assumes "clock_mono E" and "redis_laws (e_redis E)" and "run_state m w = (a, w')" and "spares E {} m"
    and "expiry < e_now E (w_tick w) + millisecond"
  shows "kept_marked E store jti expiry w'"
  using clock_monoD [OF assms(1) sparesD(1) [OF assms(4,1-3)]] assms(5) by (intro expired_marked) simp

text \<open>A marked token passes the check only in the last millisecond of its life or later.\<close>

lemma active_expired:
  assumes "clock_mono E" and "redis_laws (e_redis E)" and "sv_refreshTokenRevocations S = Some store"
    and "run_state (ensureRefreshTokenActive E S claims) w = (Inr (), w')"
    and "cl_TokenID claims \<noteq> ''''" and "kept_marked E store (cl_TokenID claims) expiry w"
  shows "expiry < e_now E (w_tick w') + millisecond"
proof -
  let ?t = "e_now E (w_tick w)"
  have "run_state (IsRevoked E store (cl_TokenID claims)) w = (Inr False, w')"
    using assms(3,4) unfolding ensureRefreshTokenActive_def
    by (auto elim!: andthen_InrE dest!: on_error_InrE split: if_splits)
  then have "rd_exists (e_redis E) ?t (rv_key store (cl_TokenID claims)) (w_redis w) \<le> 0" and tick: "w_tick w' = Suc (w_tick w)"
    using assms(5) by (auto simp: IsRevoked_def redis_Run_def Let_def split: redis_fault.splits)
  then have "\<not> rv_marked E store (cl_TokenID claims) ?t w"
    by (simp add: rv_marked_def redis_exists_get [OF assms(2)] split: if_splits)
  then have "expiry < ?t + millisecond" using assms(6) by (force simp: kept_marked_def)
  moreover have "?t \<le> e_now E (w_tick w')" using tick by (intro clock_monoD [OF assms(1)]) simp
  ultimately show ?thesis by simp
qed

lemma spares_revokeRefreshClaims:
  assumes "\<And>store. sv_refreshTokenRevocations S = Some store \<Longrightarrow> rv_key store (cl_TokenID claims) \<notin> K"
  shows "spares E K (revokeRefreshClaims E S claims)"
  unfolding revokeRefreshClaims_def
  by (cases "sv_refreshTokenRevocations S") (auto intro!: spared assms split: option.splits)

lemma guarded_marked:
  assumes law: "clock_mono E" "redis_laws (e_redis E)" and st: "sv_refreshTokenRevocations S = Some store" and "jti \<noteq> ''''"
    and rest: "\<And>K. rv_key store (cl_TokenID claims) \<notin> K \<Longrightarrow> spares E K rest"
    and run: "run_state (andthen (ensureRefreshTokenActive E S claims) (\<lambda>_. rest)) w = (r, w')"
    and kept: "kept_marked E store jti expiry w"
  shows "kept_marked E store jti expiry w'"
proof -
  obtain x w1 where e: "run_state (ensureRefreshTokenActive E S claims) w = (x, w1)" by (metis prod.collapse)
  have k1: "kept_marked E store jti expiry w1" by (rule spares_marked [OF law e _ kept]) (intro spared)
  show ?thesis
  proof (cases x)
    case (Inl err)
    then show ?thesis using run e k1 by (simp add: run_andthen)
  next
    case (Inr u)
    then have m: "run_state rest w1 = (r, w')" using run e by (simp add: run_andthen)
    show ?thesis
    proof (cases "cl_TokenID claims = jti")
      case True
      have "expiry < e_now E (w_tick w1) + millisecond"
        by (rule active_expired [OF law st]) (use e Inr True kept \<open>jti \<noteq> ''''\<close> in auto)
      then show ?thesis using rest by (intro spares_expired [OF law m]) auto
    next
      case False
      then show ?thesis using rest by (intro spares_marked [OF law m _ k1]) auto
    qed
  qed
qed

lemma sessions_marked:
  assumes law: "clock_mono E" "redis_laws (e_redis E)" and st: "sv_refreshTokenRevocations S = Some store" and "jti \<noteq> ''''"
    and kept: "kept_marked E store jti expiry w"
  shows "run_state (RefreshSession E S tok) w = (r, w') \<Longrightarrow> kept_marked E store jti expiry w'"
    and "run_state (RevokeSession E S tok) w = (r', w') \<Longrightarrow> kept_marked E store jti expiry w'"
proof -
  have after: "kept_marked E store jti expiry w'"
    if "run_state (andthen (on_error (ValidateRefreshToken E t pk) f) (\<lambda>claims. andthen (ensureRefreshTokenActive E S claims) (\<lambda>_. rest claims))) w = (x, w')"
      and rest: "\<And>claims K. rv_key store (cl_TokenID claims) \<notin> K \<Longrightarrow> spares E K (rest claims)"
    for t pk f and rest :: "StandardClaims \<Rightarrow> ('a world, rpc_error + 'x) state" and x w'
  proof -
    obtain v w1 where v: "run_state (on_error (ValidateRefreshToken E t pk) f) w = (v, w1)" by (metis prod.collapse)
    have k1: "kept_marked E store jti expiry w1" by (rule spares_marked [OF law v _ kept]) (intro spared)
    show ?thesis
    proof (cases v)
      case (Inl e)
      then show ?thesis using that(1) v k1 by (simp add: run_andthen)
    next
      case (Inr claims)
      then have "run_state (andthen (ensureRefreshTokenActive E S claims) (\<lambda>_. rest claims)) w1 = (x, w')"
        using that(1) v by (simp add: run_andthen)
      then show ?thesis using rest by (intro guarded_marked [OF law st \<open>jti \<noteq> ''''\<close> _ _ k1]) auto
    qed
  qed
  have rv: "spares E K (revokeRefreshClaims E S claims)" if "rv_key store (cl_TokenID claims) \<notin> K" for K claims
    using that st by (intro spares_revokeRefreshClaims) simp
  show "kept_marked E store jti expiry w'" if "run_state (RefreshSession E S tok) w = (r, w')"
    using that kept unfolding RefreshSession_def run_Let
    by (cases "TrimSpace tok = ''''") (auto intro!: after spared rv)
  show "kept_marked E store jti expiry w'" if "run_state (RevokeSession E S tok) w = (r', w')"
    using that kept unfolding RevokeSession_def run_Let
    by (cases "TrimSpace tok = ''''") (auto intro!: after spared rv)
qed

lemma serve_marked:
  assumes law: "clock_mono E" "redis_laws (e_redis E)" and st: "sv_refreshTokenRevocations S = Some store" and "jti \<noteq> ''''"
    and "foreign_keys S {rv_key store jti}" and kept: "kept_marked E store jti expiry w"
  shows "kept_marked E store jti expiry (serve E S c w)"
proof -
  have spare: "kept_marked E store jti expiry (effect_of m w)" if "spares E {rv_key store jti} m" for m :: "('a world, 'b) state"
    using spares_marked [OF law _ that kept] by (metis effect_of_def prod.collapse)
  note s = spared assms(5)
  show ?thesis
  proof (cases "(\<exists>t. c = CallRefresh t) \<or> (\<exists>t. c = CallRevoke t)")
    case True
    then show ?thesis
      using sessions_marked [OF law st \<open>jti \<noteq> ''''\<close> kept] by (auto simp: effect_of_def) (metis prod.collapse)+
  next
    case False
    then show ?thesis
      by (cases c; simp only: serve.simps effect_of_def [symmetric]; (intro spare s)?) auto
  qed
qed

lemma served_marked:
  assumes "served E S w w'" and "clock_mono E" "redis_laws (e_redis E)" and "sv_refreshTokenRevocations S = Some store" and "jti \<noteq> ''''"
    and "foreign_keys S {rv_key store jti}" and "kept_marked E store jti expiry w"
  shows "kept_marked E store jti expiry w'"
  using assms by (induction rule: served.induct) (auto intro: serve_marked)

lemma revoked_marked:
  assumes law: "clock_mono E" "redis_laws (e_redis E)" and "sv_refreshTokenRevocations S = Some store"
    and "rc_ExpiresAt claims = Some expiry" and "cl_TokenID claims \<noteq> ''''"
    and "run_state (revokeRefreshClaims E S claims) w = (Inr (), w')"
  shows "kept_marked E store (cl_TokenID claims) expiry w'"
proof -
  let ?n = "w_tick w" and ?jti = "cl_TokenID claims"
  have r: "run_state (Revoke E store ?jti expiry) w = (Inr (), w')"
    using assms(3,4,6) by (auto simp: revokeRefreshClaims_def dest!: on_error_InrE)
  have mono: "e_now E ?n \<le> e_now E (Suc ?n)" "e_now E (Suc ?n) \<le> e_now E (Suc (Suc ?n))"
    by (intro clock_monoD [OF law(1)]; simp)+
  show ?thesis
  proof (cases "expiry - e_now E ?n \<le> 0")
    case True
    then have "w_tick w' = Suc ?n" using r assms(5) by (auto simp: Revoke_def Let_def)
    then show ?thesis using True mono by (intro expired_marked) simp
  next
    case False
    then have w': "w_tick w' = Suc (Suc ?n)" "w_redis w' =
        rd_set (e_redis E) (e_now E (Suc ?n)) (rv_key store ?jti) ''1'' (expiry - e_now E ?n) (w_redis w)"
      using r assms(5) by (auto simp: Revoke_def Let_def redis_Run_def split: redis_fault.splits)
    show ?thesis
      unfolding kept_marked_def rv_marked_def w'
    proof (intro allI impI)
      fix t assume "e_now E (Suc (Suc ?n)) \<le> t" "t + millisecond \<le> expiry"
      with mono show "rd_get (e_redis E) t (rv_key store ?jti)
          (rd_set (e_redis E) (e_now E (Suc ?n)) (rv_key store ?jti) ''1'' (expiry - e_now E ?n) (w_redis w)) \<noteq> None"
        by (simp add: redis_get_set [OF law(2)])
    qed
  qed
qed

lemma validated_claims:
  assumes "jwt_ok (e_jwt E)" and "jwt_SignedString (e_jwt E) ''RS256'' kid c (Some priv) = Some t"
    and "rc_ExpiresAt c = Some expiry" and "rc_NotBefore c = Some nbf"
    and "run_state (ValidateRefreshToken E t pk) w = (Inr claims, w')"
  shows "claims = c\<lparr>rc_ID := ''''\<rparr>"
proof -
  have parse: "jwt_ParseWithClaims (e_jwt E) t (rsa_keyfunc pk) (e_now E (w_tick w)) = Some (claims, True)"
    using assms(5) by (auto simp: ValidateRefreshToken_def ValidateToken_def split: option.splits prod.splits sum.splits if_splits)
  then obtain m k where "rsa_keyfunc pk m = Inr (Some k)" using assms(1) by (force simp: jwt_ok_def jwt_keyed_def)
  then have "rsa_keyfunc pk (SigningMethodRSA ''RS256'') = Inr (Some k)" by (auto simp: rsa_keyfunc_def split: jwt_method.splits)
  with parse assms(1-4) show ?thesis unfolding jwt_ok_def jwt_verifies_def by (auto split: if_splits)
qed

text \<open>A token that was exchanged or revoked is marked.\<close>

lemma used_marked:
  assumes "redis_laws (e_redis E)" and "clock_mono E" and "jwt_ok (e_jwt E)" and "sv_refreshTokenRevocations S = Some store"
    and "jwt_SignedString (e_jwt E) ''RS256'' kid c (Some priv) = Some (TrimSpace tok)"
    and "rc_ExpiresAt c = Some expiry" and "rc_NotBefore c = Some nbf" and "cl_TokenID c \<noteq> ''''"
    and "(\<exists>pair. run_state (RefreshSession E S tok) w = (Inr pair, w1)) \<or> run_state (RevokeSession E S tok) w = (Inr (), w1)"
  shows "kept_marked E store (cl_TokenID c) expiry w1"
  using assms(9)
proof
  assume "\<exists>pair. run_state (RefreshSession E S tok) w = (Inr pair, w1)"
  then obtain p where "run_state (RefreshSession E S tok) w = (Inr p, w1)" ..
  then show ?thesis
  proof (rule RefreshSession_success)
    fix claims a b usr d f
    assume "run_state (ValidateRefreshToken E (TrimSpace tok) (tc_PublicKey (sv_tokenCfg S))) w = (Inr claims, a)"
      and "run_state (revokeRefreshClaims E S claims) f = (Inr (), w1)"
    with validated_claims [OF assms(3,5,6,7)] revoked_marked [OF assms(2,1,4), of claims expiry f w1] assms(6,8) show ?thesis by force
  qed
next
  assume "run_state (RevokeSession E S tok) w = (Inr (), w1)"
  then show ?thesis
  proof (rule RevokeSession_success)
    fix claims a b
    assume "run_state (ValidateRefreshToken E (TrimSpace tok) (tc_PublicKey (sv_tokenCfg S))) w = (Inr claims, a)"
      and "run_state (revokeRefreshClaims E S claims) b = (Inr (), w1)"
    with validated_claims [OF assms(3,5,6,7)] revoked_marked [OF assms(2,1,4), of claims expiry b w1] assms(6,8) show ?thesis by force
  qed
qed

text \<open>
  (C5) A refresh token works once. Take a token the service signed, with an identifier. Once it has
  been exchanged for a new pair, or its session has been revoked, then after any number of further
  calls of any handler, whatever their arguments and whatever Redis and database faults occur, trying
  to exchange it again fails, up to the last millisecond before it expires.
\<close>

theorem refresh_token_single_use:
  assumes "redis_laws (e_redis E)" and "clock_mono E" and "jwt_ok (e_jwt E)"
    and "sv_refreshTokenRevocations S = Some store" and "foreign_keys S {rv_key store (cl_TokenID c)}"
    and "jwt_SignedString (e_jwt E) ''RS256'' kid c (Some priv) = Some (TrimSpace tok)"
    and "rc_ExpiresAt c = Some expiry" and "rc_NotBefore c = Some nbf" and "cl_TokenID c \<noteq> ''''"
    and "(\<exists>pair. run_state (RefreshSession E S tok) w = (Inr pair, w1)) \<or> run_state (RevokeSession E S tok) w = (Inr (), w1)"
    and "served E S w1 w2" and "run_state (RefreshSession E S tok) w2 = (r, w3)" and "e_now E (w_tick w3) + millisecond \<le> expiry"
  shows "\<exists>e. r = Inl e"
proof (rule ccontr)
  assume "\<not> (\<exists>e. r = Inl e)"
  then obtain pair where r: "r = Inr pair" by (cases r) auto
  note law = assms(2,1) and valid = validated_claims [OF assms(3,6,7,8)]
  have "kept_marked E store (cl_TokenID c) expiry w1" by (rule used_marked [OF assms(1-4,6-10)])
  then have k2: "kept_marked E store (cl_TokenID c) expiry w2"
    by (rule served_marked [OF assms(11) law assms(4,9,5)])
  from assms(12) [unfolded r] show False
  proof (rule RefreshSession_success)
    fix claims a b usr d f
    assume v: "run_state (ValidateRefreshToken E (TrimSpace tok) (tc_PublicKey (sv_tokenCfg S))) w2 = (Inr claims, a)"
      and act: "run_state (ensureRefreshTokenActive E S claims) a = (Inr (), b)"
      and "run_state (UserStore_GetByID E (cl_UserID claims)) b = (Inr usr, d)"
      and "run_state (NewTokenPair E (cl_UserID claims) (sv_tokenCfg S)) d = (Inr pair, f)"
      and "run_state (revokeRefreshClaims E S claims) f = (Inr (), w3)"
    then have "w_tick b \<le> w_tick d" "w_tick d \<le> w_tick f" "w_tick f \<le> w_tick w3"
      using sparesD(1) [OF _ law, where K = "{}"] spares_revokeRefreshClaims [of S claims "{}"] spared by (metis empty_iff)+
    then have le: "e_now E (w_tick b) \<le> e_now E (w_tick w3)" by (intro clock_monoD [OF law(1)]) simp
    have claims: "cl_TokenID claims = cl_TokenID c" using valid [OF v] by simp
    have "kept_marked E store (cl_TokenID c) expiry a"
      by (rule spares_marked [OF law v _ k2]) (intro spared)
    then have "expiry < e_now E (w_tick b) + millisecond"
      using active_expired [OF law assms(4) act] assms(9) by (simp add: claims)
    with le assms(13) show False by simp
  qed
qed

section \<open>Witness\<close>

definition refresh_claims :: StandardClaims where
  "refresh_claims = sample_claims\<lparr>cl_UserID := ''u1'', cl_TokenType := RefreshTokenType, cl_ServiceAccountID := '''', cl_Scopes := []\<rparr>"

definition refresh_token :: string where
  "refresh_token = wr_all ([''RS256'', ''kid'', key_text (rsa_PublicKey sample_key)] @ claims_text refresh_claims)"

lemma refresh_token_signed:
  "jwt_SignedString sample_jwt ''RS256'' ''kid'' refresh_claims (Some sample_key) = Some refresh_token"
  by (simp add: sample_jwt_def refresh_token_def)

lemma refresh_token_trim: "TrimSpace refresh_token = refresh_token" "refresh_token \<noteq> ''''"
proof -
  have "plain refresh_token"
    unfolding refresh_token_def
    by (rule plain_wr_all) (simp add: claims_text_def refresh_claims_def sample_claims_def key_text_def plain_wr_all)
  then show "TrimSpace refresh_token = refresh_token" by (rule TrimSpace_plain)
  show "refresh_token \<noteq> ''''" by (simp add: refresh_token_def wr_all_def)
qed

lemma refresh_validate:
  assumes "w_tick w < 900"
  shows "run_state (ValidateRefreshToken sample_env refresh_token (Some (rsa_PublicKey sample_key))) w =
    (Inr (refresh_claims\<lparr>rc_ID := ''''\<rparr>), w\<lparr>w_tick := Suc (w_tick w)\<rparr>)"
proof -
  have "run_state (ValidateToken sample_env refresh_token (Some (rsa_PublicKey sample_key))) w =
     (Inr (refresh_claims\<lparr>rc_ID := ''''\<rparr>), w\<lparr>w_tick := Suc (w_tick w)\<rparr>)"
    using assms run_ValidateToken_signed [of sample_env "''kid''" refresh_claims sample_key refresh_token
        "63900000900 * second" "63900000000 * second" "rsa_PublicKey sample_key" w] refresh_token_signed
    by (simp add: refresh_claims_def sample_claims_def)
  then show ?thesis by (simp add: ValidateRefreshToken_def refresh_claims_def)
qed

definition revoked_world :: "mem_redis_state world" where
  "revoked_world = snd (run_state (RevokeSession sample_env sample_service refresh_token) sample_db_world)"

lemma sample_revoke:
  "run_state (RevokeSession sample_env sample_service refresh_token) sample_db_world = (Inr (), revoked_world)"
  "w_tick revoked_world = 4"
proof -
  have "fst (run_state (RevokeSession sample_env sample_service refresh_token) sample_db_world) = Inr () \<and> w_tick revoked_world = 4"
    unfolding revoked_world_def
    by (simp add: RevokeSession_def refresh_token_trim run_andthen run_on_error refresh_validate ensureRefreshTokenActive_def
        IsRevoked_def revokeRefreshClaims_def Revoke_def run_redis_ok refresh_claims_def sample_claims_def sample_db_world_def Let_def)
  then show "run_state (RevokeSession sample_env sample_service refresh_token) sample_db_world = (Inr (), revoked_world)"
    "w_tick revoked_world = 4"
    by (simp_all add: revoked_world_def prod_eq_iff)
qed

lemma sample_foreign: "foreign_keys sample_service {rv_key \<lparr>rv_prefix = ''identra:revoked_refresh:''\<rparr> i}"
  by (simp add: foreign_keys_def outside_def rv_key_def sample_service_def)

theorem refresh_token_single_use_witness:
  "\<exists>e. fst (run_state (RefreshSession sample_env sample_service refresh_token) revoked_world) = Inl e"
proof -
  let ?run = "run_state (RefreshSession sample_env sample_service refresh_token) revoked_world"
  have "w_tick (snd ?run) \<le> 40"
  proof -
    have "w_tick (snd ?run) = 6"
      using sample_revoke
      by (simp add: RefreshSession_def RevokeSession_def refresh_token_trim run_andthen run_on_error refresh_validate ensureRefreshTokenActive_def
        IsRevoked_def revokeRefreshClaims_def Revoke_def run_redis_ok refresh_claims_def sample_claims_def Let_def
        revoked_world_def sample_db_world_def mem_get_upd)
    then show ?thesis by simp
  qed
  then have late: "e_now sample_env (w_tick (snd ?run)) + millisecond \<le> 63900000900 * second" by simp
  have claims: "rc_ExpiresAt refresh_claims = Some (63900000900 * second)" "rc_NotBefore refresh_claims = Some (63900000000 * second)"
    "cl_TokenID refresh_claims \<noteq> ''''" by (simp_all add: refresh_claims_def sample_claims_def)
  have signed: "jwt_SignedString (e_jwt sample_env) ''RS256'' ''kid'' refresh_claims (Some sample_key) = Some (TrimSpace refresh_token)"
    by (simp add: refresh_token_signed refresh_token_trim)
  show ?thesis
    using refresh_token_single_use [of sample_env sample_service "\<lparr>rv_prefix = ''identra:revoked_refresh:''\<rparr>" refresh_claims,
      OF _ _ _ _ sample_foreign signed claims _ served.start _ late] sample_revoke(1)
    by (metis prod.collapse sample_clock_mono sample_env_sel(6,7) sample_jwt_ok sample_redis_laws sample_service_sel(4))
qed

end
