(* ===== verification/Go_Path.thy ===== *)
theory Go_Path
  imports Go_Strings
begin

text \<open>
  What the program uses of \<^verbatim>\<open>path/filepath\<close> on Unix: \<^verbatim>\<open>Clean\<close>, \<^verbatim>\<open>Dir\<close> and \<^verbatim>\<open>Join\<close>, and the search of
  \<^verbatim>\<open>internal/bootstrap/init.go\<close> for the directory that holds the configuration file. A path is cleaned
  component by component: empty and \<open>.\<close> components are dropped, a \<open>..\<close> removes the component before
  it, is dropped at the root, and is kept at the beginning of a relative path.
\<close>

section \<open>Cleaning\<close>

text \<open>The kept components are on a stack, the last one on top.\<close>

fun clean_step :: "bool \<Rightarrow> string list \<Rightarrow> string \<Rightarrow> string list" where
  "clean_step rooted out c =
     (if c = '''' \<or> c = ''.'' then out
      else if c = ''..'' then
        (case out of
           [] \<Rightarrow> if rooted then [] else [''..'']
         | last0 # rest \<Rightarrow> if last0 = ''..'' then ''..'' # out else rest)
      else c # out)"

declare clean_step.simps [simp del]

definition clean_comps :: "bool \<Rightarrow> string list \<Rightarrow> string list" where
  "clean_comps rooted comps = rev (foldl (clean_step rooted) [] comps)"

fun join_with :: "char \<Rightarrow> string list \<Rightarrow> string" where
  "join_with sep [] = ''''"
| "join_with sep [s] = s"
| "join_with sep (s # t # ts) = s @ sep # join_with sep (t # ts)"

definition is_rooted :: "string \<Rightarrow> bool" where
  "is_rooted path \<longleftrightarrow> path \<noteq> [] \<and> hd path = CHR ''/''"

definition filepath_Clean :: "string \<Rightarrow> string" where
  "filepath_Clean path =
     (let out = join_with (CHR ''/'') (clean_comps (is_rooted path) (Split path (CHR ''/'')))
      in if is_rooted path then CHR ''/'' # out else if out = '''' then ''.'' else out)"

text \<open>Everything up to and including the last separator, cleaned.\<close>

definition up_to_slash :: "string \<Rightarrow> string" where
  "up_to_slash path = rev (dropWhile (\<lambda>c. c \<noteq> CHR ''/'') (rev path))"

definition filepath_Dir :: "string \<Rightarrow> string" where
  "filepath_Dir path = filepath_Clean (up_to_slash path)"

definition filepath_Join :: "string \<Rightarrow> string \<Rightarrow> string" where
  "filepath_Join a b =
     (if a \<noteq> '''' then filepath_Clean (a @ ''/'' @ b) else if b \<noteq> '''' then filepath_Clean b else '''')"

section \<open>Cleaning never lengthens a path\<close>

definition weight :: "string list \<Rightarrow> nat" where
  "weight xs = sum_list (map (\<lambda>s. length s + 1) xs)"

lemma weight_simps [simp]:
  "weight [] = 0" "weight (s # xs) = Suc (length s) + weight xs" "weight (xs @ ys) = weight xs + weight ys"
  "weight (rev xs) = weight xs"
  by (simp_all add: weight_def rev_map [symmetric] sum_list_rev)

lemma weight_split_from: "weight (split_from sep acc s) = length acc + length s + 1"
  by (induction sep acc s rule: split_from.induct) auto

lemma weight_Split: "weight (Split s sep) = length s + 1"
  by (simp add: Split_def weight_split_from)

lemma length_join: "length (join_with sep xs) = weight xs - 1"
  by (induction sep xs rule: join_with.induct) auto

lemma weight_clean_step: "weight (clean_step r out c) \<le> weight out + length c + 1"
  by (auto simp: clean_step.simps split: list.splits)

lemma weight_clean: "weight (foldl (clean_step r) out comps) \<le> weight out + weight comps"
proof (induction comps arbitrary: out)
  case (Cons c cs)
  have "weight (foldl (clean_step r) (clean_step r out c) cs) \<le> weight (clean_step r out c) + weight cs"
    by (rule Cons.IH)
  then show ?case using weight_clean_step [of r out c] by simp
qed simp

lemma split_from_app_last:
  "split_from sep acc (s @ [sep]) = split_from sep acc s @ [[]]"
  by (induction sep acc s rule: split_from.induct) auto

lemma Clean_length:
  assumes "path \<noteq> ''''"
  shows "length (filepath_Clean path) \<le> length path"
proof (cases "is_rooted path")
  case True
  then obtain p where p: "path = CHR ''/'' # p" by (cases path) (auto simp: is_rooted_def)
  have "weight (clean_comps True (Split path (CHR ''/''))) \<le> weight (split_from (CHR ''/'') [] p)"
    using weight_clean [of True "[]" "split_from (CHR ''/'') [] p"]
    by (simp add: clean_comps_def Split_def p clean_step.simps)
  then have "weight (clean_comps True (Split path (CHR ''/''))) \<le> length path"
    by (simp add: weight_split_from p)
  with True assms show ?thesis by (simp add: filepath_Clean_def Let_def length_join p)
next
  case False
  have "weight (clean_comps False (Split path (CHR ''/''))) \<le> length path + 1"
    using weight_clean [of False "[]" "Split path (CHR ''/'')"] by (simp add: clean_comps_def weight_Split)
  with False assms show ?thesis by (cases path) (auto simp: filepath_Clean_def Let_def length_join)
qed

lemma Clean_nonempty [simp]: "filepath_Clean path \<noteq> ''''"
  by (simp add: filepath_Clean_def Let_def)

lemma Clean_trailing:
  assumes "q \<noteq> ''''"
  shows "filepath_Clean (q @ ''/'') = filepath_Clean q"
proof -
  have "is_rooted (q @ ''/'') = is_rooted q" using assms by (cases q) (auto simp: is_rooted_def)
  moreover have "clean_comps r (Split (q @ ''/'') (CHR ''/'')) = clean_comps r (Split q (CHR ''/''))" for r
    by (simp add: clean_comps_def Split_def split_from_app_last clean_step.simps)
  ultimately show ?thesis by (simp add: filepath_Clean_def)
qed

lemma up_to_slash_cases:
  obtains (none) "up_to_slash path = ''''"
  | (inner) q where "up_to_slash path = q @ ''/''" and "length q < length path" and "prefix (q @ ''/'') path"
proof (cases "up_to_slash path = ''''")
  case False
  let ?d = "dropWhile (\<lambda>c. c \<noteq> CHR ''/'') (rev path)"
  have "?d \<noteq> []" using False by (simp add: up_to_slash_def)
  then obtain r where r: "?d = CHR ''/'' # r" using hd_dropWhile [of "\<lambda>c. c \<noteq> CHR ''/''" "rev path"]
    by (cases ?d) auto
  have "suffix ?d (rev path)" by (rule suffix_dropWhile)
  then have "prefix (rev ?d) path" by (simp add: suffix_to_prefix)
  with r have "prefix (rev r @ ''/'') path" by simp
  moreover from this have "length (rev r) < length path" using prefix_length_le by fastforce
  moreover have "up_to_slash path = rev r @ ''/''" by (simp add: up_to_slash_def r)
  ultimately show thesis using inner by blast
qed (rule none)

text \<open>Going to the parent directory ends, at \<open>/\<close> or at \<open>.\<close>, because the path gets shorter.\<close>

definition depth :: "string \<Rightarrow> nat" where
  "depth d = (if d = ''.'' then 0 else if d = '''' then 1 else length d)"

lemma Dir_shrinks:
  assumes "filepath_Dir d \<noteq> d"
  shows "depth (filepath_Dir d) < depth d"
proof (cases d rule: up_to_slash_cases)
  case none
  then have "filepath_Dir d = ''.''"
    by (simp add: filepath_Dir_def filepath_Clean_def is_rooted_def Split_def clean_comps_def clean_step.simps)
  with assms show ?thesis by (auto simp: depth_def)
next
  case (inner q)
  show ?thesis
  proof (cases "q = ''''")
    case True
    then have "filepath_Dir d = ''/''" using inner(1)
      by (simp add: filepath_Dir_def filepath_Clean_def is_rooted_def Split_def clean_comps_def clean_step.simps)
    moreover have "1 \<le> length d" "d \<noteq> ''.''" using inner(2,3) True by (auto simp: prefix_def)
    ultimately show ?thesis using assms inner(3) True by (cases d) (auto simp: depth_def prefix_def)
  next
    case False
    then have "filepath_Dir d = filepath_Clean q" using inner(1) by (simp add: filepath_Dir_def Clean_trailing)
    moreover have "length (filepath_Clean q) < length d" using Clean_length [OF False] inner(2) by simp
    moreover have "d \<noteq> ''.''" using inner(2) False by auto
    ultimately show ?thesis using inner(2) by (auto simp: depth_def)
  qed
qed

section \<open>The directory of the configuration file\<close>

text \<open>\<open>stat p\<close> tells whether \<^verbatim>\<open>os.Stat\<close> finds something at \<open>p\<close>.\<close>

function search_up :: "(string \<Rightarrow> bool) \<Rightarrow> string \<Rightarrow> string \<Rightarrow> string" where
  "search_up stat start dir =
     (if stat (filepath_Join dir ''config.toml'') then dir
      else if filepath_Dir dir = dir then filepath_Clean start
      else search_up stat start (filepath_Dir dir))"
  by auto
termination by (relation "measure (\<lambda>(stat, start, dir). depth dir)") (auto simp: Dir_shrinks)

declare search_up.simps [simp del]

definition findRootWorkdir :: "(string \<Rightarrow> bool) \<Rightarrow> string \<Rightarrow> string" where
  "findRootWorkdir stat start = search_up stat start (filepath_Clean start)"

lemma search_up_spec:
  "(\<exists>n. search_up stat start d = (filepath_Dir ^^ n) d \<and> stat (filepath_Join ((filepath_Dir ^^ n) d) ''config.toml'') \<and>
        (\<forall>m<n. \<not> stat (filepath_Join ((filepath_Dir ^^ m) d) ''config.toml''))) \<or>
   (search_up stat start d = filepath_Clean start \<and>
        (\<forall>m. \<not> stat (filepath_Join ((filepath_Dir ^^ m) d) ''config.toml'')))"
proof (induction stat start d rule: search_up.induct)
  case (1 stat start dir)
  show ?case
  proof (cases "stat (filepath_Join dir ''config.toml'')")
    case True
    then show ?thesis by (subst search_up.simps) (auto intro: exI [of _ 0])
  next
    case no: False
    show ?thesis
    proof (cases "filepath_Dir dir = dir")
      case True
      then have "(filepath_Dir ^^ m) dir = dir" for m by (induction m) auto
      with True no show ?thesis by (subst search_up.simps) simp
    next
      case False
      let ?p = "filepath_Dir dir"
      have eq: "search_up stat start dir = search_up stat start ?p"
        using no False by (subst search_up.simps) simp
      have up: "(filepath_Dir ^^ m) ?p = (filepath_Dir ^^ Suc m) dir" for m by (simp add: funpow_swap1)
      from "1.IH" [OF no False] show ?thesis
      proof
        assume "\<exists>n. search_up stat start ?p = (filepath_Dir ^^ n) ?p \<and>
            stat (filepath_Join ((filepath_Dir ^^ n) ?p) ''config.toml'') \<and>
            (\<forall>m<n. \<not> stat (filepath_Join ((filepath_Dir ^^ m) ?p) ''config.toml''))"
        then obtain n where "search_up stat start ?p = (filepath_Dir ^^ n) ?p"
          "stat (filepath_Join ((filepath_Dir ^^ n) ?p) ''config.toml'')"
          "\<forall>m<n. \<not> stat (filepath_Join ((filepath_Dir ^^ m) ?p) ''config.toml'')" by blast
        with no show ?thesis
          unfolding eq up by (intro disjI1 exI [of _ "Suc n"]) (auto simp: less_Suc_eq_0_disj)
      next
        assume a: "search_up stat start ?p = filepath_Clean start \<and>
            (\<forall>m. \<not> stat (filepath_Join ((filepath_Dir ^^ m) ?p) ''config.toml''))"
        have "\<not> stat (filepath_Join ((filepath_Dir ^^ m) dir) ''config.toml'')" for m
          using a no unfolding up by (cases m) auto
        with a show ?thesis unfolding eq by blast
      qed
    qed
  qed
qed

text \<open>
  (C34) The search for the configuration file ends, whatever the start path and the file system: it
  returns the nearest directory, from the cleaned start upwards, that holds \<^verbatim>\<open>config.toml\<close>, and the
  cleaned start itself when no directory up to the root does.
\<close>

theorem findRootWorkdir_nearest:
  "(\<exists>n. findRootWorkdir stat start = (filepath_Dir ^^ n) (filepath_Clean start) \<and>
        stat (filepath_Join (findRootWorkdir stat start) ''config.toml'') \<and>
        \<not> (\<exists>m<n. stat (filepath_Join ((filepath_Dir ^^ m) (filepath_Clean start)) ''config.toml''))) \<or>
   (findRootWorkdir stat start = filepath_Clean start \<and>
        \<not> (\<exists>m. stat (filepath_Join ((filepath_Dir ^^ m) (filepath_Clean start)) ''config.toml'')))"
  using search_up_spec [of stat start "filepath_Clean start"] unfolding findRootWorkdir_def by fastforce

end
