(* ===== verification/Migrations.thy ===== *)
theory Migrations
  imports Go_Path "HOL-Library.State_Monad"
begin

text \<open>
  Opening the database: \<^verbatim>\<open>internal/store/sqlite/database.go\<close>. The state is what the migrations change, the
  schema (of any type \<open>'s\<close>) and SQLite's \<^verbatim>\<open>user_version\<close>, with the number of calls made so far; each
  call to the database or the operating system may fail. What a script does to the schema is SQLite's
  business, the parameter \<open>me_exec\<close>. An open that fails closes the database, so that a transaction
  whose commit failed is undone.
\<close>

section \<open>State and environment\<close>

record 's mig_state =
  ms_tick :: nat
  ms_version :: int
  ms_schema :: 's

record 's mig_env =
  me_fault :: "nat \<Rightarrow> string option"
  me_exec :: "string \<Rightarrow> 's \<Rightarrow> string + 's"
  me_quote :: "string \<Rightarrow> string"

record dir_entry =
  de_Name :: string
  de_IsDir :: bool

record embed_FS =
  fs_ReadDir :: "string \<Rightarrow> string + dir_entry list"
  fs_ReadFile :: "string \<Rightarrow> string + string"

record sqlite_Config =
  sq_Path :: string

abbreviation CurrentSchemaVersion :: int where
  "CurrentSchemaVersion \<equiv> 3"

text \<open>One call: it fails with the injected fault, or does its work.\<close>

definition sys_call ::
  "'s mig_env \<Rightarrow> ('s mig_state \<Rightarrow> string + 's mig_state) \<Rightarrow> ('s mig_state, string option) state" where
  "sys_call E f = State (\<lambda>s.
     let s1 = s\<lparr>ms_tick := Suc (ms_tick s)\<rparr>
     in case me_fault E (ms_tick s) of
          Some e \<Rightarrow> (Some e, s1)
        | None \<Rightarrow> (case f s1 of Inl e \<Rightarrow> (Some e, s1) | Inr s2 \<Rightarrow> (None, s2)))"

definition undo_to :: "'s mig_state \<Rightarrow> ('s mig_state, unit) state" where
  "undo_to s0 = State (\<lambda>s. ((), s\<lparr>ms_version := ms_version s0, ms_schema := ms_schema s0\<rparr>))"

section \<open>The migration loop\<close>

text \<open>One migration in its transaction; \<open>Some\<close> is the error.\<close>

definition apply_migration ::
  "'s mig_env \<Rightarrow> string \<Rightarrow> string \<Rightarrow> int \<Rightarrow> ('s mig_state, string option) state" where
  "apply_migration E name script version = do {
     s0 \<leftarrow> State_Monad.get;
     b \<leftarrow> sys_call E Inr;
     case b of
       Some e \<Rightarrow> State_Monad.return (Some (''begin sqlite migration '' @ name @ '': '' @ e))
     | None \<Rightarrow> do {
         x \<leftarrow> sys_call E (\<lambda>s. map_sum id (\<lambda>d. s\<lparr>ms_schema := d\<rparr>) (me_exec E script (ms_schema s)));
         case x of
           Some e \<Rightarrow> do { undo_to s0; State_Monad.return (Some (''apply sqlite migration '' @ name @ '': '' @ e)) }
         | None \<Rightarrow> do {
             v \<leftarrow> sys_call E (\<lambda>s. Inr (s\<lparr>ms_version := version\<rparr>));
             case v of
               Some e \<Rightarrow> do { undo_to s0; State_Monad.return (Some (''record sqlite migration '' @ name @ '': '' @ e)) }
             | None \<Rightarrow> do {
                 c \<leftarrow> sys_call E Inr;
                 case c of
                   Some e \<Rightarrow> do { undo_to s0; State_Monad.return (Some (''commit sqlite migration '' @ name @ '': '' @ e)) }
                 | None \<Rightarrow> State_Monad.return None
               }
           }
       }
   }"

text \<open>The version number in the name of a migration file, or the error it gives after \<open>last\<close>.\<close>

definition migration_version :: "'s mig_env \<Rightarrow> string \<Rightarrow> int \<Rightarrow> string + int" where
  "migration_version E name lastVersion =
     (case Cut name (CHR ''_'') of
        None \<Rightarrow> Inl (''invalid sqlite migration filename '' @ Quote (me_quote E) name)
      | Some (pre, _) \<Rightarrow>
          (case Atoi pre of
             Some version \<Rightarrow>
               if version \<noteq> lastVersion + 1
               then Inl (''sqlite migration '' @ Quote (me_quote E) name @
                         '' is not the next sequential version after '' @ Itoa lastVersion)
               else Inr version
           | None \<Rightarrow> Inl (''sqlite migration '' @ Quote (me_quote E) name @
                         '' is not the next sequential version after '' @ Itoa lastVersion)))"

text \<open>The loop over the entries; the result is the error or the last version seen.\<close>

fun migrate_loop ::
  "'s mig_env \<Rightarrow> embed_FS \<Rightarrow> int \<Rightarrow> int \<Rightarrow> dir_entry list \<Rightarrow> ('s mig_state, string + int) state" where
  "migrate_loop E FS currentVersion lastVersion [] = State_Monad.return (Inr lastVersion)"
| "migrate_loop E FS currentVersion lastVersion (entry # entries) =
     (if de_IsDir entry \<or> \<not> HasSuffix (de_Name entry) ''.sql''
      then migrate_loop E FS currentVersion lastVersion entries
      else case migration_version E (de_Name entry) lastVersion of
             Inl e \<Rightarrow> State_Monad.return (Inl e)
           | Inr version \<Rightarrow>
               if version \<le> currentVersion then migrate_loop E FS currentVersion version entries
               else case fs_ReadFile FS (''migrations/'' @ de_Name entry) of
                      Inl e \<Rightarrow> State_Monad.return (Inl (''read sqlite migration '' @ de_Name entry @ '': '' @ e))
                    | Inr script \<Rightarrow> do {
                        r \<leftarrow> apply_migration E (de_Name entry) script version;
                        case r of
                          Some e \<Rightarrow> State_Monad.return (Inl e)
                        | None \<Rightarrow> migrate_loop E FS currentVersion version entries
                      })"

definition applyMigrations :: "'s mig_env \<Rightarrow> embed_FS \<Rightarrow> ('s mig_state, string + unit) state" where
  "applyMigrations E FS = do {
     q \<leftarrow> sys_call E Inr;
     case q of
       Some e \<Rightarrow> State_Monad.return (Inl (''read sqlite schema version: '' @ e))
     | None \<Rightarrow> do {
         s \<leftarrow> State_Monad.get;
         let currentVersion = ms_version s;
         if CurrentSchemaVersion < currentVersion
         then State_Monad.return (Inl (''sqlite schema version '' @ Itoa currentVersion @
                '' is newer than supported version '' @ Itoa CurrentSchemaVersion))
         else case fs_ReadDir FS ''migrations'' of
                Inl e \<Rightarrow> State_Monad.return (Inl (''read embedded sqlite migrations: '' @ e))
              | Inr entries \<Rightarrow> do {
                  r \<leftarrow> migrate_loop E FS currentVersion 0 (sort_key de_Name entries);
                  State_Monad.return
                    (case r of
                       Inl e \<Rightarrow> Inl e
                     | Inr lastVersion \<Rightarrow>
                         if lastVersion \<noteq> CurrentSchemaVersion
                         then Inl (''embedded sqlite schema version is '' @ Itoa lastVersion @
                                   '', expected '' @ Itoa CurrentSchemaVersion)
                         else Inr ())
                }
       }
   }"

section \<open>Opening\<close>

definition sqlite_Validate :: "sqlite_Config \<Rightarrow> string option" where
  "sqlite_Validate c =
     (if TrimSpace (sq_Path c) = '''' then Some ''sqlite database path is required'' else None)"

definition sqlite_Open :: "'s mig_env \<Rightarrow> embed_FS \<Rightarrow> sqlite_Config \<Rightarrow> ('s mig_state, string + unit) state" where
  "sqlite_Open E FS cfg =
     (case sqlite_Validate cfg of
        Some e \<Rightarrow> State_Monad.return (Inl e)
      | None \<Rightarrow> do {
          d \<leftarrow> (if filepath_Dir (sq_Path cfg) \<noteq> ''.'' then sys_call E Inr else State_Monad.return None);
          case d of
            Some e \<Rightarrow> State_Monad.return (Inl (''create sqlite database directory: '' @ e))
          | None \<Rightarrow> do {
              opened \<leftarrow> sys_call E Inr;
              case opened of
                Some e \<Rightarrow> State_Monad.return (Inl (''open sqlite database: '' @ e))
              | None \<Rightarrow> do {
                  ping \<leftarrow> sys_call E Inr;
                  case ping of
                    Some e \<Rightarrow> State_Monad.return (Inl (''ping sqlite database: '' @ e))
                  | None \<Rightarrow> applyMigrations E FS
                }
            }
        })"

definition migration_names :: "string list" where
  "migration_names = [''001_initial.sql'', ''002_service_accounts.sql'', ''003_audit_events.sql'']"

text \<open>The migration files the build embeds; their contents are given by \<open>content\<close>.\<close>

definition migrationFiles :: "(string \<Rightarrow> string) \<Rightarrow> embed_FS" where
  "migrationFiles content =
     (let names = migration_names
      in \<lparr>fs_ReadDir = (\<lambda>d. if d = ''migrations'' then Inr (map (\<lambda>n. \<lparr>de_Name = n, de_IsDir = False\<rparr>) names)
                            else Inl ''file does not exist''),
          fs_ReadFile = (\<lambda>p. case find (\<lambda>n. p = ''migrations/'' @ n) names of
                                Some n \<Rightarrow> Inr (content n) | None \<Rightarrow> Inl ''file does not exist'')\<rparr>)"

section \<open>A database is always at a whole version\<close>

text \<open>The schema after the first \<open>n\<close> migrations, if their scripts all run.\<close>

fun schema_at :: "'s mig_env \<Rightarrow> (string \<Rightarrow> string) \<Rightarrow> 's \<Rightarrow> string list \<Rightarrow> string + 's" where
  "schema_at E content d [] = Inr d"
| "schema_at E content d (n # ns) =
     (case me_exec E (content n) d of Inl e \<Rightarrow> Inl e | Inr d' \<Rightarrow> schema_at E content d' ns)"

text \<open>\<open>at_version\<close>: the schema is the one that the first \<open>ms_version\<close> scripts make of an empty database.\<close>

definition at_version :: "'s mig_env \<Rightarrow> (string \<Rightarrow> string) \<Rightarrow> 's \<Rightarrow> 's mig_state \<Rightarrow> bool" where
  "at_version E content d0 s \<longleftrightarrow>
     0 \<le> ms_version s \<and> ms_version s \<le> CurrentSchemaVersion \<and>
     schema_at E content d0 (take (nat (ms_version s)) migration_names) = Inr (ms_schema s)"

lemma schema_at_snoc:
  "schema_at E content d (ns @ [n]) =
     (case schema_at E content d ns of Inl e \<Rightarrow> Inl e | Inr d' \<Rightarrow> me_exec E (content n) d')"
  by (induction ns arbitrary: d) (auto split: sum.splits)

lemma run_sys_call:
  "run_state (sys_call E f) s =
     (case me_fault E (ms_tick s) of
        Some e \<Rightarrow> (Some e, s\<lparr>ms_tick := Suc (ms_tick s)\<rparr>)
      | None \<Rightarrow> (case f (s\<lparr>ms_tick := Suc (ms_tick s)\<rparr>) of
                   Inl e \<Rightarrow> (Some e, s\<lparr>ms_tick := Suc (ms_tick s)\<rparr>) | Inr s2 \<Rightarrow> (None, s2)))"
  by (simp add: sys_call_def Let_def)

lemma apply_migration_cases:
  "(\<exists>e. fst (run_state (apply_migration E n script v) s) = Some e \<and>
        ms_version (snd (run_state (apply_migration E n script v) s)) = ms_version s \<and>
        ms_schema (snd (run_state (apply_migration E n script v) s)) = ms_schema s) \<or>
   (fst (run_state (apply_migration E n script v) s) = None \<and>
        ms_version (snd (run_state (apply_migration E n script v) s)) = v \<and>
        me_exec E script (ms_schema s) = Inr (ms_schema (snd (run_state (apply_migration E n script v) s))))"
  by (auto simp: apply_migration_def run_sys_call undo_to_def map_sum_def
      split: option.splits sum.splits)

lemma apply_migration_ok:
  assumes "\<And>k. me_fault E k = None" and "me_exec E script (ms_schema s) = Inr d"
  shows "\<exists>t. run_state (apply_migration E n script v) s = (None, s\<lparr>ms_tick := t, ms_version := v, ms_schema := d\<rparr>)"
  using assms
  by (intro exI [of _ "Suc (Suc (Suc (Suc (ms_tick s))))"]) (simp add: apply_migration_def run_sys_call)

section \<open>The embedded files\<close>

lemma migration_names_length [simp]: "length migration_names = 3"
  by (simp add: migration_names_def)

definition entries_from :: "nat \<Rightarrow> dir_entry list" where
  "entries_from k = map (\<lambda>n. \<lparr>de_Name = n, de_IsDir = False\<rparr>) (drop k migration_names)"

lemma entries_step: "k < 3 \<Longrightarrow> entries_from k = \<lparr>de_Name = migration_names ! k, de_IsDir = False\<rparr> # entries_from (Suc k)"
  by (simp add: entries_from_def Cons_nth_drop_Suc [symmetric])

lemma entries_end: "entries_from 3 = []"
  by (simp add: entries_from_def)

lemma below_three: "k < 3 \<Longrightarrow> k = 0 \<or> k = 1 \<or> k = (2::nat)"
  by auto

lemma entry_facts:
  assumes "k < 3"
  shows "HasSuffix (migration_names ! k) ''.sql''" and "migration_version E (migration_names ! k) (int k) = Inr (int k + 1)"
    and "fs_ReadFile (migrationFiles content) (''migrations/'' @ migration_names ! k) = Inr (content (migration_names ! k))"
  using below_three [OF assms]
  by (auto simp: migration_names_def HasSuffix_def suffix_def migration_version_def migrationFiles_def
      Atoi_def parse_sign_def parse_nat_def digit_val_def int64_range_def)

lemma ReadDir_embedded: "fs_ReadDir (migrationFiles content) ''migrations'' = Inr (entries_from 0)"
  by (simp add: migrationFiles_def entries_from_def)

lemma entries_sorted: "sort_key de_Name (entries_from 0) = entries_from 0"
  by (rule sort_key_id_if_sorted) (simp add: entries_from_def migration_names_def less_eq_char_def)

lemma migrate_loop_step:
  assumes "k < 3"
  shows "migrate_loop E (migrationFiles content) c (int k) (entries_from k) =
     (if int k + 1 \<le> c then migrate_loop E (migrationFiles content) c (int (Suc k)) (entries_from (Suc k))
      else do {
        r \<leftarrow> apply_migration E (migration_names ! k) (content (migration_names ! k)) (int (Suc k));
        case r of
          Some e \<Rightarrow> State_Monad.return (Inl e)
        | None \<Rightarrow> migrate_loop E (migrationFiles content) c (int (Suc k)) (entries_from (Suc k))
      })"
  unfolding of_nat_Suc
  by (simp add: entries_step [OF assms] entry_facts(1,2) [OF assms] entry_facts(3) [OF assms, simplified] add.commute)

lemma at_version_next:
  assumes "at_version E content d0 s" and "ms_version s = int k" and "k < 3"
    and "me_exec E (content (migration_names ! k)) (ms_schema s) = Inr (ms_schema s')" and "ms_version s' = int (Suc k)"
  shows "at_version E content d0 s'"
proof -
  have "take (Suc k) migration_names = take k migration_names @ [migration_names ! k]"
    using assms(3) by (simp add: take_Suc_conv_app_nth)
  then have "schema_at E content d0 (take (Suc k) migration_names) = Inr (ms_schema s')"
    using assms(1,2,4) by (simp add: at_version_def schema_at_snoc)
  then show ?thesis using assms(3,5) by (simp add: at_version_def nat_add_distrib)
qed

lemma migrate_loop_whole:
  assumes "at_version E content d0 s" and "k \<le> 3" and "c \<le> 3" and "ms_version s = max c (int k)"
    and "run_state (migrate_loop E (migrationFiles content) c (int k) (entries_from k)) s = (r, s')"
  shows "at_version E content d0 s' \<and> ms_version s \<le> ms_version s' \<and>
         (\<forall>l. r = Inr l \<longrightarrow> l = CurrentSchemaVersion \<and> ms_version s' = CurrentSchemaVersion)"
  using assms
proof (induction "3 - k" arbitrary: k s)
  case 0
  then have "k = 3" by simp
  with 0 show ?case by (auto simp: entries_end)
next
  case (Suc j)
  then have k: "k < 3" and j: "j = 3 - Suc k" by auto
  show ?case
  proof (cases "int k + 1 \<le> c")
    case True
    then show ?thesis
      using Suc.hyps(1) [OF j, of s] Suc.prems k by (simp add: migrate_loop_step [OF k])
  next
    case False
    then have v: "ms_version s = int k" using Suc.prems(4) by simp
    obtain r1 s1 where a: "run_state (apply_migration E (migration_names ! k) (content (migration_names ! k)) (int (Suc k))) s = (r1, s1)"
      by (metis prod.collapse)
    show ?thesis
    proof (cases r1)
      case (Some e)
      then have "r = Inl e" "s' = s1" using Suc.prems(5) a False by (auto simp: migrate_loop_step [OF k])
      moreover have "ms_version s1 = ms_version s" "ms_schema s1 = ms_schema s"
        using apply_migration_cases [of E "migration_names ! k" "content (migration_names ! k)" "int (Suc k)" s] a Some
        by auto
      ultimately show ?thesis using Suc.prems(1) by (simp add: at_version_def)
    next
      case None
      then have rest: "run_state (migrate_loop E (migrationFiles content) c (int (Suc k)) (entries_from (Suc k))) s1 = (r, s')"
        using Suc.prems(5) a False by (simp add: migrate_loop_step [OF k])
      have s1: "ms_version s1 = int (Suc k)" "me_exec E (content (migration_names ! k)) (ms_schema s) = Inr (ms_schema s1)"
        using apply_migration_cases [of E "migration_names ! k" "content (migration_names ! k)" "int (Suc k)" s] a None
        by auto
      have "at_version E content d0 s1" by (rule at_version_next [OF Suc.prems(1) v k s1(2,1)])
      then show ?thesis using Suc.hyps(1) [OF j, of s1] rest s1(1) False k v Suc.prems(3) by simp
    qed
  qed
qed

lemma sys_call_Inr: "\<exists>r t. run_state (sys_call E Inr) s = (r, s\<lparr>ms_tick := t\<rparr>)"
  by (auto simp: run_sys_call split: option.splits)

lemma applyMigrations_whole:
  assumes "at_version E content d0 s" and "run_state (applyMigrations E (migrationFiles content)) s = (r, s')"
  shows "at_version E content d0 s' \<and> ms_version s \<le> ms_version s' \<and> (\<forall>u. r = Inr u \<longrightarrow> ms_version s' = CurrentSchemaVersion)"
proof -
  obtain q t where q: "run_state (sys_call E Inr) s = (q, s\<lparr>ms_tick := t\<rparr>)" using sys_call_Inr by blast
  let ?s = "s\<lparr>ms_tick := t\<rparr>"
  have at: "at_version E content d0 ?s" and range: "0 \<le> ms_version s" "ms_version s \<le> 3"
    using assms(1) by (simp_all add: at_version_def)
  show ?thesis
  proof (cases q)
    case (Some e)
    then show ?thesis using assms(2) q at by (auto simp: applyMigrations_def)
  next
    case None
    obtain r1 s1 where l: "run_state (migrate_loop E (migrationFiles content) (ms_version s) 0 (entries_from 0)) ?s = (r1, s1)"
      by (metis prod.collapse)
    then have "at_version E content d0 s1 \<and> ms_version s \<le> ms_version s1 \<and>
         (\<forall>l. r1 = Inr l \<longrightarrow> l = CurrentSchemaVersion \<and> ms_version s1 = CurrentSchemaVersion)"
      using migrate_loop_whole [OF at, of 0 "ms_version s" r1 s1] range by simp
    moreover have "s' = s1" "r = (case r1 of Inl e \<Rightarrow> Inl e | Inr l \<Rightarrow> if l \<noteq> CurrentSchemaVersion
        then Inl (''embedded sqlite schema version is '' @ Itoa l @ '', expected '' @ Itoa CurrentSchemaVersion) else Inr ())"
      using assms(2) q None l range by (auto simp: applyMigrations_def ReadDir_embedded entries_sorted)
    ultimately show ?thesis using range by (auto split: sum.splits if_splits)
  qed
qed

section \<open>Opening succeeds when nothing fails\<close>

lemma schema_at_prefix:
  "schema_at E content d (ns @ ms) = Inr x \<Longrightarrow>
   \<exists>y. schema_at E content d ns = Inr y \<and> schema_at E content y ms = Inr x"
  by (induction ns arbitrary: d) (auto split: sum.splits)

lemma script_runs:
  assumes "schema_at E content d0 migration_names = Inr full" and "k < 3"
    and "schema_at E content d0 (take k migration_names) = Inr d"
  shows "\<exists>d'. me_exec E (content (migration_names ! k)) d = Inr d'"
proof -
  have "migration_names = take k migration_names @ migration_names ! k # drop (Suc k) migration_names"
    using assms(2) by (simp add: id_take_nth_drop)
  then obtain y where "schema_at E content d0 (take k migration_names) = Inr y"
    "schema_at E content y (migration_names ! k # drop (Suc k) migration_names) = Inr full"
    using schema_at_prefix assms(1) by metis
  then show ?thesis using assms(3) by (auto split: sum.splits)
qed

lemma migrate_loop_succeeds:
  assumes "\<And>n. me_fault E n = None" and "schema_at E content d0 migration_names = Inr full"
    and "at_version E content d0 s" and "k \<le> 3" and "ms_version s = max c (int k)" and "c \<le> 3"
  shows "\<exists>s'. run_state (migrate_loop E (migrationFiles content) c (int k) (entries_from k)) s = (Inr CurrentSchemaVersion, s')"
  using assms(3-6)
proof (induction "3 - k" arbitrary: k s)
  case 0
  then have "k = 3" by simp
  then show ?case by (auto simp: entries_end)
next
  case (Suc j)
  then have k: "k < 3" and j: "j = 3 - Suc k" by auto
  show ?case
  proof (cases "int k + 1 \<le> c")
    case True
    then show ?thesis using Suc.hyps(1) [OF j, of s] Suc.prems k by (simp add: migrate_loop_step [OF k])
  next
    case False
    then have v: "ms_version s = int k" using Suc.prems(3) by simp
    obtain d where d: "me_exec E (content (migration_names ! k)) (ms_schema s) = Inr d"
      using script_runs [OF assms(2) k] Suc.prems(1) v by (auto simp: at_version_def)
    obtain t where a: "run_state (apply_migration E (migration_names ! k) (content (migration_names ! k)) (int (Suc k))) s =
        (None, s\<lparr>ms_tick := t, ms_version := int (Suc k), ms_schema := d\<rparr>)"
      using apply_migration_ok [OF assms(1) d] by blast
    let ?s = "s\<lparr>ms_tick := t, ms_version := int (Suc k), ms_schema := d\<rparr>"
    have "at_version E content d0 ?s" by (rule at_version_next [OF Suc.prems(1) v k]) (simp_all add: d)
    then show ?thesis using Suc.hyps(1) [OF j, of ?s] Suc.prems(4) False k a
      by (simp add: migrate_loop_step [OF k] del: of_nat_Suc)
  qed
qed

text \<open>An opening fails before the migrations, or comes down to them; nothing has changed by then.\<close>

lemma sqlite_Open_cases:
  "(\<exists>e v. run_state (sqlite_Open E FS cfg) s = (Inl e, v) \<and> ms_version v = ms_version s \<and> ms_schema v = ms_schema s) \<or>
   (\<exists>v. run_state (sqlite_Open E FS cfg) s = run_state (applyMigrations E FS) v \<and>
        ms_version v = ms_version s \<and> ms_schema v = ms_schema s)"
proof -
  have apply_at: "\<exists>v. run_state (applyMigrations E FS) (s\<lparr>ms_tick := n\<rparr>) = run_state (applyMigrations E FS) v \<and>
      ms_version v = ms_version s \<and> ms_schema v = ms_schema s" for n
    by (rule exI [of _ "s\<lparr>ms_tick := n\<rparr>"]) simp
  show ?thesis
    by (simp add: sqlite_Open_def run_sys_call apply_at split: option.splits)
qed


lemma sqlite_Open_ok:
  assumes "\<And>n. me_fault E n = None" and "schema_at E content d0 migration_names = Inr full"
    and v: "at_version E content d0 v" and "TrimSpace (sq_Path cfg) \<noteq> ''''"
  shows "\<exists>s'. run_state (sqlite_Open E (migrationFiles content) cfg) v = (Inr (), s') \<and>
     ms_version s' = CurrentSchemaVersion \<and> ms_schema s' = full"
proof -
  have "\<exists>t. run_state (sqlite_Open E (migrationFiles content) cfg) v =
      run_state (applyMigrations E (migrationFiles content)) (v\<lparr>ms_tick := t\<rparr>)"
    using assms(1,4) by (auto simp: sqlite_Open_def sqlite_Validate_def run_sys_call)
  then obtain t where t: "run_state (sqlite_Open E (migrationFiles content) cfg) v =
      run_state (applyMigrations E (migrationFiles content)) (v\<lparr>ms_tick := t\<rparr>)" by blast
  have at: "at_version E content d0 (v\<lparr>ms_tick := n\<rparr>)" for n using v by (simp add: at_version_def)
  have r: "0 \<le> ms_version v" "ms_version v \<le> 3" using v by (simp_all add: at_version_def)
  obtain s1 where "run_state (migrate_loop E (migrationFiles content) (ms_version v) 0 (entries_from 0)) (v\<lparr>ms_tick := Suc t\<rparr>) =
      (Inr CurrentSchemaVersion, s1)"
    using migrate_loop_succeeds [OF assms(1,2) at [of "Suc t"], of 0 "ms_version v"] r by auto
  then have run: "run_state (applyMigrations E (migrationFiles content)) (v\<lparr>ms_tick := t\<rparr>) = (Inr (), s1)"
    using assms(1) r by (simp add: applyMigrations_def run_sys_call ReadDir_embedded entries_sorted)
  have "at_version E content d0 s1 \<and> ms_version s1 = CurrentSchemaVersion"
    using applyMigrations_whole [OF at run] by simp
  then have "ms_version s1 = CurrentSchemaVersion" "ms_schema s1 = full"
    using assms(2) by (auto simp: at_version_def)
  with t run show ?thesis by auto
qed

text \<open>
  (C28) Opening gets there. With a non-empty path, when no call fails and the embedded scripts run one
  after the other, opening a database at any whole version succeeds; and opening it again succeeds
  without changing schema or version.
\<close>

theorem sqlite_Open_succeeds:
  assumes "\<And>n. me_fault E n = None" and "schema_at E content d0 migration_names = Inr full"
    and "at_version E content d0 s" and "TrimSpace (sq_Path cfg) \<noteq> ''''"
  shows "\<exists>s'. run_state (sqlite_Open E (migrationFiles content) cfg) s = (Inr (), s') \<and>
     ms_version s' = CurrentSchemaVersion \<and> ms_schema s' = full \<and>
     (\<exists>s''. run_state (sqlite_Open E (migrationFiles content) cfg) s' = (Inr (), s'') \<and>
        ms_version s'' = ms_version s' \<and> ms_schema s'' = ms_schema s')"
proof -
  note ok = sqlite_Open_ok [OF assms(1,2) _ assms(4)]
  from ok [OF assms(3)] obtain s' where s': "run_state (sqlite_Open E (migrationFiles content) cfg) s = (Inr (), s')"
    "ms_version s' = CurrentSchemaVersion" "ms_schema s' = full" by blast
  then have "at_version E content d0 s'" using assms(2) by (simp add: at_version_def)
  from ok [OF this] s' show ?thesis by metis
qed

section \<open>Witnesses\<close>

text \<open>A script engine that keeps the list of scripts it ran.\<close>

definition sample_mig :: "string list mig_env" where
  "sample_mig = \<lparr>me_fault = (\<lambda>_. None), me_exec = (\<lambda>script d. Inr (d @ [script])), me_quote = id\<rparr>"

definition sample_mig_state :: "string list mig_state" where
  "sample_mig_state = \<lparr>ms_tick = 0, ms_version = 1, ms_schema = [''001_initial.sql'']\<rparr>"

lemma sample_at_version: "at_version sample_mig id [] sample_mig_state"
  by (simp add: at_version_def sample_mig_def sample_mig_state_def migration_names_def)

lemma sample_path: "TrimSpace ''data/users.db'' = ''data/users.db''"
  by (simp add: TrimSpace_def strip_tokens_id lead_token_def space_runes_def)


theorem sqlite_Open_succeeds_witness:
  "\<exists>s'. run_state (sqlite_Open sample_mig (migrationFiles id) \<lparr>sq_Path = ''data/users.db''\<rparr>) sample_mig_state = (Inr (), s') \<and>
     ms_version s' = 3 \<and> ms_schema s' = migration_names"
  using sqlite_Open_succeeds [of sample_mig id "[]" migration_names sample_mig_state "\<lparr>sq_Path = ''data/users.db''\<rparr>"]
    sample_at_version sample_path
  by (auto simp: sample_mig_def migration_names_def)

end
