(* ===== verification/Configuration.thy ===== *)
theory Configuration
  imports Migrations
begin

text \<open>
  The configuration: \<^verbatim>\<open>internal/config\<close> and the defaults of \<^verbatim>\<open>internal/bootstrap/config_defaults.go\<close>. Reading the
  configuration file and the environment is viper's business: its functions are the record
  \<open>viper_lib\<close>, over a state of any type \<open>'v\<close>. An error is \<open>Some\<close> of its text.
\<close>

section \<open>Viper\<close>

datatype cfg_value = CfgInt int | CfgString string | CfgBool bool | CfgStrings "string list"

record 'v viper_lib =
  vp_New :: 'v
  vp_SetDefault :: "string \<Rightarrow> cfg_value \<Rightarrow> 'v \<Rightarrow> 'v"
  vp_AddConfigPath :: "string \<Rightarrow> 'v \<Rightarrow> 'v"
  vp_SetConfigName :: "string \<Rightarrow> 'v \<Rightarrow> 'v"
  vp_ReadInConfig :: "'v \<Rightarrow> (bool \<times> string) option \<times> 'v"
  vp_AutomaticEnv :: "'v \<Rightarrow> 'v"
  vp_SetEnvKeyReplacer :: "string \<Rightarrow> string \<Rightarrow> 'v \<Rightarrow> 'v"
  vp_GetString :: "'v \<Rightarrow> string \<Rightarrow> string"
  vp_GetUint :: "'v \<Rightarrow> string \<Rightarrow> nat"
  vp_GetInt :: "'v \<Rightarrow> string \<Rightarrow> int"
  vp_GetBool :: "'v \<Rightarrow> string \<Rightarrow> bool"
  vp_GetDuration :: "'v \<Rightarrow> string \<Rightarrow> go_duration"
  vp_GetStringSlice :: "'v \<Rightarrow> string \<Rightarrow> string list"

abbreviation configKeyLogLevel :: string where "configKeyLogLevel \<equiv> ''log.level''"
abbreviation configKeyLogFormat :: string where "configKeyLogFormat \<equiv> ''log.format''"
abbreviation logFormatTint :: string where "logFormatTint \<equiv> ''tint''"

definition config_defaults :: "(string \<times> cfg_value) list" where
  "config_defaults =
     [(''grpc_port'', CfgInt 50051),
      (configKeyLogLevel, CfgString ''info''), (configKeyLogFormat, CfgString logFormatTint),
      (''auth.oauth_state_expiration'', CfgString ''10m''), (''auth.access_token_expiration'', CfgString ''15m''),
      (''auth.refresh_token_expiration'', CfgString ''168h''), (''auth.service_token_expiration'', CfgString ''15m''),
      (''auth.token_issuer'', CfgString ''identra''), (''auth.rsa_private_key_file'', CfgString ''data/signing-key.pem''),
      (''auth.oauth.fetch_email_if_missing'', CfgBool False), (''bootstrap.service_account.enabled'', CfgBool False),
      (''bootstrap.service_account.name'', CfgString ''platform-admin''),
      (''bootstrap.service_account.scopes'', CfgStrings [''identra.admin'']),
      (''redis.urls'', CfgStrings [''localhost:6379'']),
      (''smtp_mailer.start_tls'', CfgBool True), (''smtp_mailer.auth_enabled'', CfgBool True),
      (''persistence.type'', CfgString ''sqlite''), (''persistence.sqlite.path'', CfgString ''data/users.db'')]"

definition applyConfigDefaults :: "'v viper_lib \<Rightarrow> 'v \<Rightarrow> 'v" where
  "applyConfigDefaults V v = fold (\<lambda>(k, x). vp_SetDefault V k x) config_defaults v"

text \<open>\<^verbatim>\<open>initConfig\<close>: a missing configuration file (the flag of the error) is no error.\<close>

definition initConfig :: "'v viper_lib \<Rightarrow> string \<Rightarrow> string + 'v" where
  "initConfig V configPath =
     (let v0 = vp_SetConfigName V ''config'' (vp_AddConfigPath V configPath (applyConfigDefaults V (vp_New V)))
      in case vp_ReadInConfig V v0 of
           (Some (not_found, e), v1) \<Rightarrow>
             if not_found then Inr (vp_SetEnvKeyReplacer V ''.'' ''_'' (vp_AutomaticEnv V v1))
             else Inl (''failed to read config: '' @ e)
         | (None, v1) \<Rightarrow> Inr (vp_SetEnvKeyReplacer V ''.'' ''_'' (vp_AutomaticEnv V v1)))"

section \<open>The configuration\<close>

record smtp_Config =
  mc_Host :: string
  mc_Port :: int
  mc_Username :: string
  mc_Password :: string
  mc_FromEmail :: string
  mc_FromName :: string
  mc_StartTLS :: bool
  mc_AuthEnabled :: bool

record redis_Config =
  rcfg_Urls :: "string list"
  rcfg_Password :: string

record PersistenceConfig =
  pe_Type :: string
  pe_SQLite :: sqlite_Config

record cfg_TokenConfig =
  ct_Issuer :: string
  ct_AccessTokenExpiration :: go_duration
  ct_RefreshTokenExpiration :: go_duration
  ct_ServiceTokenExpiration :: go_duration

record OAuthConfig =
  co_StateExpirationDuration :: go_duration
  co_GithubClientID :: string
  co_GithubClientSecret :: string
  co_FetchEmailIfMissing :: bool

record AuthConfig =
  ca_RSAPrivateKey :: string
  ca_RSAPrivateKeyFile :: string
  ca_OAuth :: OAuthConfig
  ca_Token :: cfg_TokenConfig

record BootstrapConfig =
  cb_Enabled :: bool
  cb_Name :: string
  cb_ClientID :: string
  cb_ClientSecret :: string
  cb_Scopes :: "string list"

record GRPCConfig =
  gc_GRPCPort :: nat
  gc_Redis :: redis_Config
  gc_SmtpMailer :: smtp_Config
  gc_Persistence :: PersistenceConfig
  gc_Auth :: AuthConfig
  gc_Bootstrap :: BootstrapConfig

section \<open>Validation\<close>

definition BootstrapConfig_Validate :: "BootstrapConfig \<Rightarrow> string option" where
  "BootstrapConfig_Validate c =
     (if \<not> cb_Enabled c then None
      else if TrimSpace (cb_Name c) = '''' then Some ''service account name is required''
      else if TrimSpace (cb_ClientID c) = '''' then Some ''service account client ID is required''
      else if length (TrimSpace (cb_ClientSecret c)) < 32
        then Some ''service account client secret must contain at least 32 characters''
      else if cb_Scopes c = [] then Some ''at least one service account scope is required''
      else None)"

definition AuthConfig_Validate :: "AuthConfig \<Rightarrow> string option" where
  "AuthConfig_Validate c =
     (if TrimSpace (ca_RSAPrivateKey c) = '''' \<and> TrimSpace (ca_RSAPrivateKeyFile c) = ''''
        then Some ''RSA private key or RSA private key file is required''
      else if co_StateExpirationDuration (ca_OAuth c) < 0 then Some ''oauth state expiration cannot be negative''
      else if TrimSpace (ct_Issuer (ca_Token c)) = '''' then Some ''token issuer is required''
      else if ct_AccessTokenExpiration (ca_Token c) \<le> 0 then Some ''access token expiration must be positive''
      else if ct_RefreshTokenExpiration (ca_Token c) \<le> 0 then Some ''refresh token expiration must be positive''
      else if ct_ServiceTokenExpiration (ca_Token c) \<le> 0 then Some ''service token expiration must be positive''
      else None)"

definition PersistenceConfig_Validate ::
  "(string \<Rightarrow> string) \<Rightarrow> (string \<Rightarrow> string) \<Rightarrow> PersistenceConfig \<Rightarrow> string option" where
  "PersistenceConfig_Validate lower quote c =
     (let ty = ToLower lower (TrimSpace (pe_Type c))
      in if ty = '''' \<or> ty = ''sqlite'' then sqlite_Validate (pe_SQLite c)
         else Some (''unsupported persistence type '' @ Quote quote (pe_Type c)))"

definition validateRedis :: "redis_Config \<Rightarrow> string option" where
  "validateRedis cfg =
     (if rcfg_Urls cfg = [] then Some ''at least one redis url is required''
      else if list_ex (\<lambda>url. TrimSpace url = '''') (rcfg_Urls cfg)
        then Some ''redis urls cannot contain empty values''
      else None)"

definition validateMailer :: "smtp_Config \<Rightarrow> string option" where
  "validateMailer cfg =
     (if TrimSpace (mc_Host cfg) = '''' then None
      else if mc_Port cfg = 0 then Some ''smtp port is required''
      else if mc_Port cfg < 0 \<or> 65535 < mc_Port cfg then Some ''smtp port must be between 1 and 65535''
      else if mc_AuthEnabled cfg \<and> TrimSpace (mc_Username cfg) = '''' then Some ''smtp username is required''
      else if mc_AuthEnabled cfg \<and> TrimSpace (mc_Password cfg) = '''' then Some ''smtp password is required''
      else if TrimSpace (mc_FromEmail cfg) = '''' then Some ''smtp from email is required''
      else None)"

text \<open>\<^verbatim>\<open>fmt.Errorf("what: %w", err)\<close> when there is an error, else what follows.\<close>

definition wrapped :: "string \<Rightarrow> string option \<Rightarrow> string option \<Rightarrow> string option" where
  "wrapped what err rest = (case err of Some e \<Rightarrow> Some (what @ '': '' @ e) | None \<Rightarrow> rest)"

definition GRPCConfig_Validate ::
  "(string \<Rightarrow> string) \<Rightarrow> (string \<Rightarrow> string) \<Rightarrow> GRPCConfig \<Rightarrow> string option" where
  "GRPCConfig_Validate lower quote c =
     (if gc_GRPCPort c = 0 then Some ''grpc port is required''
      else wrapped ''redis config'' (validateRedis (gc_Redis c))
          (wrapped ''smtp mailer config'' (validateMailer (gc_SmtpMailer c))
          (wrapped ''persistence config'' (PersistenceConfig_Validate lower quote (gc_Persistence c))
          (wrapped ''auth config'' (AuthConfig_Validate (gc_Auth c))
          (wrapped ''bootstrap config'' (BootstrapConfig_Validate (gc_Bootstrap c)) None)))))"

section \<open>Loading\<close>

definition split_single :: "string list \<Rightarrow> string list" where
  "split_single xs =
     (if length xs \<noteq> 1 then xs
      else let parts = Split (hd xs) (CHR '','')
           in if length parts = 1 then xs
              else filter (\<lambda>t. t \<noteq> '''') (map TrimSpace parts))"

definition getStringSlice :: "'v viper_lib \<Rightarrow> 'v \<Rightarrow> string \<Rightarrow> string list" where
  "getStringSlice V v key = split_single (vp_GetStringSlice V v key)"

definition LoadPersistence :: "'v viper_lib \<Rightarrow> 'v \<Rightarrow> PersistenceConfig" where
  "LoadPersistence V v =
     \<lparr>pe_Type = vp_GetString V v ''persistence.type'',
      pe_SQLite = \<lparr>sq_Path = vp_GetString V v ''persistence.sqlite.path''\<rparr>\<rparr>"

definition LoadGRPC :: "'v viper_lib \<Rightarrow> 'v \<Rightarrow> GRPCConfig" where
  "LoadGRPC V v =
     \<lparr>gc_GRPCPort = vp_GetUint V v ''grpc_port'',
      gc_Redis = \<lparr>rcfg_Urls = getStringSlice V v ''redis.urls'', rcfg_Password = vp_GetString V v ''redis.password''\<rparr>,
      gc_SmtpMailer =
        \<lparr>mc_Host = vp_GetString V v ''smtp_mailer.host'', mc_Port = vp_GetInt V v ''smtp_mailer.port'',
         mc_Username = vp_GetString V v ''smtp_mailer.username'', mc_Password = vp_GetString V v ''smtp_mailer.password'',
         mc_FromEmail = vp_GetString V v ''smtp_mailer.from_email'', mc_FromName = vp_GetString V v ''smtp_mailer.from_name'',
         mc_StartTLS = vp_GetBool V v ''smtp_mailer.start_tls'', mc_AuthEnabled = vp_GetBool V v ''smtp_mailer.auth_enabled''\<rparr>,
      gc_Persistence = LoadPersistence V v,
      gc_Auth =
        \<lparr>ca_RSAPrivateKey = vp_GetString V v ''auth.rsa_private_key'',
         ca_RSAPrivateKeyFile = vp_GetString V v ''auth.rsa_private_key_file'',
         ca_OAuth =
           \<lparr>co_StateExpirationDuration = vp_GetDuration V v ''auth.oauth_state_expiration'',
            co_GithubClientID = vp_GetString V v ''auth.github.client_id'',
            co_GithubClientSecret = vp_GetString V v ''auth.github.client_secret'',
            co_FetchEmailIfMissing = vp_GetBool V v ''auth.oauth.fetch_email_if_missing''\<rparr>,
         ca_Token =
           \<lparr>ct_Issuer = vp_GetString V v ''auth.token_issuer'',
            ct_AccessTokenExpiration = vp_GetDuration V v ''auth.access_token_expiration'',
            ct_RefreshTokenExpiration = vp_GetDuration V v ''auth.refresh_token_expiration'',
            ct_ServiceTokenExpiration = vp_GetDuration V v ''auth.service_token_expiration''\<rparr>\<rparr>,
      gc_Bootstrap =
        \<lparr>cb_Enabled = vp_GetBool V v ''bootstrap.service_account.enabled'',
         cb_Name = vp_GetString V v ''bootstrap.service_account.name'',
         cb_ClientID = vp_GetString V v ''bootstrap.service_account.client_id'',
         cb_ClientSecret = vp_GetString V v ''bootstrap.service_account.client_secret'',
         cb_Scopes = getStringSlice V v ''bootstrap.service_account.scopes''\<rparr>\<rparr>"

section \<open>What is relied on of viper\<close>

text \<open>
  \<open>src v k\<close> is the value that the configuration file or the environment gives for a key, \<open>dflt v k\<close>
  its default. A getter converts the first of the two there is, and the zero value when there is none.
\<close>

definition viper_defaults :: "'v viper_lib \<Rightarrow> ('v \<Rightarrow> string \<Rightarrow> cfg_value option) \<Rightarrow> bool" where
  "viper_defaults V dflt \<longleftrightarrow>
     (\<forall>k. dflt (vp_New V) k = None) \<and> (\<forall>k x v. dflt (vp_SetDefault V k x v) = (dflt v)(k \<mapsto> x)) \<and>
     (\<forall>p v. dflt (vp_AddConfigPath V p v) = dflt v) \<and> (\<forall>n v. dflt (vp_SetConfigName V n v) = dflt v) \<and>
     (\<forall>v. dflt (snd (vp_ReadInConfig V v)) = dflt v) \<and> (\<forall>v. dflt (vp_AutomaticEnv V v) = dflt v) \<and>
     (\<forall>a b v. dflt (vp_SetEnvKeyReplacer V a b v) = dflt v)"

definition effective :: "('v \<Rightarrow> string \<Rightarrow> cfg_value option) \<Rightarrow> ('v \<Rightarrow> string \<Rightarrow> cfg_value option) \<Rightarrow> 'v \<Rightarrow> string \<Rightarrow> cfg_value option" where
  "effective src dflt v k = (case src v k of Some x \<Rightarrow> Some x | None \<Rightarrow> dflt v k)"

definition viper_getters ::
  "'v viper_lib \<Rightarrow> ('v \<Rightarrow> string \<Rightarrow> cfg_value option) \<Rightarrow> ('v \<Rightarrow> string \<Rightarrow> cfg_value option) \<Rightarrow> bool" where
  "viper_getters V src dflt \<longleftrightarrow>
     (\<forall>v k. let x = effective src dflt v k in
        (x = None \<longrightarrow> vp_GetString V v k = '''' \<and> vp_GetInt V v k = 0 \<and> vp_GetBool V v k = False) \<and>
        (\<forall>s. x = Some (CfgString s) \<longrightarrow> vp_GetString V v k = s \<and>
           (\<forall>n. s = Itoa n @ ''m'' \<and> 0 \<le> n \<and> n \<le> 1000 \<longrightarrow> vp_GetDuration V v k = n * minute) \<and>
           (\<forall>n. s = Itoa n @ ''h'' \<and> 0 \<le> n \<and> n \<le> 1000 \<longrightarrow> vp_GetDuration V v k = n * hour)) \<and>
        (\<forall>n. x = Some (CfgInt (int n)) \<longrightarrow> vp_GetUint V v k = n) \<and>
        (\<forall>b. x = Some (CfgBool b) \<longrightarrow> vp_GetBool V v k = b) \<and>
        (\<forall>xs. x = Some (CfgStrings xs) \<longrightarrow> vp_GetStringSlice V v k = xs))"

lemma initConfig_defaults:
  assumes "viper_defaults V dflt" and "initConfig V path = Inr v"
  shows "dflt v k = map_of config_defaults k"
proof -
  have set: "dflt (fold (\<lambda>(k, x). vp_SetDefault V k x) ds u) k = (case map_of (rev ds) k of Some x \<Rightarrow> Some x | None \<Rightarrow> dflt u k)" for ds u k
    using assms(1) by (induction ds arbitrary: u) (auto simp: viper_defaults_def split: option.splits)
  have "dflt v k = dflt (applyConfigDefaults V (vp_New V)) k"
    using assms by (auto simp: initConfig_def Let_def viper_defaults_def split: prod.splits option.splits if_splits)
      (metis snd_conv)+
  also have "\<dots> = map_of (rev config_defaults) k"
    using assms(1) by (simp add: applyConfigDefaults_def set viper_defaults_def split: option.splits)
  also have "\<dots> = map_of config_defaults k"
  proof -
    have "distinct (map fst config_defaults)" by (simp add: config_defaults_def)
    then have "map_of (rev config_defaults) = map_of config_defaults"
      by (subst map_of_inject_set) (simp_all add: rev_map [symmetric])
    then show ?thesis by simp
  qed
  finally show ?thesis .
qed

lemma TrimSpace_defaults:
  "TrimSpace ''data/signing-key.pem'' = ''data/signing-key.pem''" "TrimSpace ''identra'' = ''identra''"
  "TrimSpace ''sqlite'' = ''sqlite''" "TrimSpace ''data/users.db'' = ''data/users.db''"
  "TrimSpace ''localhost:6379'' = ''localhost:6379''"
  by (simp_all add: TrimSpace_def strip_tokens_id lead_token_def space_runes_def)

lemma duration_texts: "''10m'' = Itoa 10 @ ''m''" "''15m'' = Itoa 15 @ ''m''" "''168h'' = Itoa 168 @ ''h''"
  by (simp_all add: Itoa_def dec_digits.simps digit_char_def char_of_def bit_Suc_0_iff)

lemma default_getters:
  assumes "viper_defaults V dflt" and "viper_getters V src dflt" and "initConfig V path = Inr v" and "\<And>k. src v k = None"
  shows "map_of config_defaults k = None \<Longrightarrow> vp_GetString V v k = ''''"
    and "map_of config_defaults k = None \<Longrightarrow> vp_GetInt V v k = 0"
    and "map_of config_defaults k = Some (CfgString s) \<Longrightarrow> vp_GetString V v k = s"
    and "map_of config_defaults k = Some (CfgString (Itoa n @ ''m'')) \<Longrightarrow> 0 \<le> n \<Longrightarrow> n \<le> 1000 \<Longrightarrow> vp_GetDuration V v k = n * minute"
    and "map_of config_defaults k = Some (CfgString (Itoa n @ ''h'')) \<Longrightarrow> 0 \<le> n \<Longrightarrow> n \<le> 1000 \<Longrightarrow> vp_GetDuration V v k = n * hour"
    and "map_of config_defaults k = Some (CfgInt (int m)) \<Longrightarrow> vp_GetUint V v k = m"
    and "map_of config_defaults k = Some (CfgBool b) \<Longrightarrow> vp_GetBool V v k = b"
    and "map_of config_defaults k = Some (CfgStrings xs) \<Longrightarrow> vp_GetStringSlice V v k = xs"
proof -
  have e: "effective src dflt v k = map_of config_defaults k"
    using initConfig_defaults [OF assms(1,3)] assms(4) by (simp add: effective_def)
  note g = assms(2) [unfolded viper_getters_def Let_def, rule_format, of v k, unfolded e]
  show "map_of config_defaults k = None \<Longrightarrow> vp_GetString V v k = ''''"
    "map_of config_defaults k = None \<Longrightarrow> vp_GetInt V v k = 0"
    "map_of config_defaults k = Some (CfgString s) \<Longrightarrow> vp_GetString V v k = s"
    "map_of config_defaults k = Some (CfgString (Itoa n @ ''m'')) \<Longrightarrow> 0 \<le> n \<Longrightarrow> n \<le> 1000 \<Longrightarrow> vp_GetDuration V v k = n * minute"
    "map_of config_defaults k = Some (CfgString (Itoa n @ ''h'')) \<Longrightarrow> 0 \<le> n \<Longrightarrow> n \<le> 1000 \<Longrightarrow> vp_GetDuration V v k = n * hour"
    "map_of config_defaults k = Some (CfgInt (int m)) \<Longrightarrow> vp_GetUint V v k = m"
    "map_of config_defaults k = Some (CfgBool b) \<Longrightarrow> vp_GetBool V v k = b"
    "map_of config_defaults k = Some (CfgStrings xs) \<Longrightarrow> vp_GetStringSlice V v k = xs"
    using g by simp_all
qed


text \<open>A viper with no file and an empty environment: its state is the list of defaults.\<close>

definition sample_duration :: "string \<Rightarrow> go_duration" where
  "sample_duration s =
     (if s = [] then 0
      else case Atoi (butlast s) of None \<Rightarrow> 0
           | Some n \<Rightarrow> if last s = CHR ''m'' then n * minute else if last s = CHR ''h'' then n * hour else 0)"

definition sample_viper :: "(string \<Rightarrow> cfg_value option) viper_lib" where
  "sample_viper =
     \<lparr>vp_New = (\<lambda>_. None), vp_SetDefault = (\<lambda>k x v. v(k \<mapsto> x)), vp_AddConfigPath = (\<lambda>_ v. v),
      vp_SetConfigName = (\<lambda>_ v. v), vp_ReadInConfig = (\<lambda>v. (Some (True, ''Not Found''), v)),
      vp_AutomaticEnv = (\<lambda>v. v), vp_SetEnvKeyReplacer = (\<lambda>_ _ v. v),
      vp_GetString = (\<lambda>v k. case v k of Some (CfgString s) \<Rightarrow> s | _ \<Rightarrow> ''''),
      vp_GetUint = (\<lambda>v k. case v k of Some (CfgInt n) \<Rightarrow> nat n | _ \<Rightarrow> 0),
      vp_GetInt = (\<lambda>v k. case v k of Some (CfgInt n) \<Rightarrow> n | _ \<Rightarrow> 0),
      vp_GetBool = (\<lambda>v k. case v k of Some (CfgBool b) \<Rightarrow> b | _ \<Rightarrow> False),
      vp_GetDuration = (\<lambda>v k. case v k of Some (CfgString s) \<Rightarrow> sample_duration s | _ \<Rightarrow> 0),
      vp_GetStringSlice = (\<lambda>v k. case v k of Some (CfgStrings xs) \<Rightarrow> xs | _ \<Rightarrow> [])\<rparr>"

lemma sample_viper_laws:
  "viper_defaults sample_viper (\<lambda>v k. v k)" "viper_getters sample_viper (\<lambda>_ _. None) (\<lambda>v k. v k)"
proof -
  show "viper_defaults sample_viper (\<lambda>v k. v k)"
    by (simp add: viper_defaults_def sample_viper_def)
  have "sample_duration (Itoa n @ ''m'') = n * minute" "sample_duration (Itoa n @ ''h'') = n * hour"
    if "0 \<le> n" "n \<le> 1000" for n
    using Atoi_Itoa [of n] that by (simp_all add: sample_duration_def int64_range_def)
  then show "viper_getters sample_viper (\<lambda>_ _. None) (\<lambda>v k. v k)"
    by (auto simp: viper_getters_def effective_def sample_viper_def Let_def)
qed


section \<open>Lists in one environment variable\<close>

lemma Split_join:
  assumes "xs \<noteq> []" and "\<And>x. x \<in> set xs \<Longrightarrow> sep \<notin> set x"
  shows "Split (join_with sep xs) sep = xs"
  using assms by (induction sep xs rule: join_with.induct) (simp_all add: Split_Cons Split_single)

text \<open>
  A list can be given as one comma-separated value, as an environment variable has to: the
  entries come out as they went in, in order, with blank entries and the white space around entries
  dropped; and a list given as such is taken as it is.
\<close>

lemma split_single_round_trip:
  assumes "2 \<le> length xs" and "\<And>x. x \<in> set xs \<Longrightarrow> CHR '','' \<notin> set x"
  shows "split_single [join_with (CHR '','') xs] = filter (\<lambda>t. t \<noteq> '''') (map TrimSpace xs) \<and>
         split_single xs = xs"
proof -
  have "xs \<noteq> []" using assms(1) by auto
  then show ?thesis using assms Split_join [of xs "CHR '',''"] by (simp add: split_single_def)
qed

end
