(* ===== verification/Key_File.thy ===== *)
theory Key_File
  imports Configuration Key_Manager Sample_Env
begin

text \<open>
  The signing key at start-up: \<^verbatim>\<open>internal/app/tokens.go\<close>. The disk maps a path to a file's contents and
  permissions; every call of \<^verbatim>\<open>os\<close> may fail, and a write that fails may have written a part. The
  name that \<^verbatim>\<open>os.CreateTemp\<close> makes up is the environment's; as documented it is not the name of
  a file that exists (a name that does is an error here, the retries are in the choice of the name).
\<close>

section \<open>The disk\<close>

record os_file =
  fl_data :: bytes
  fl_mode :: nat

record disk =
  dk_tick :: nat
  dk_files :: "string \<Rightarrow> os_file option"

record disk_env =
  dk_fault :: "nat \<Rightarrow> string option"
  dk_written :: "nat \<Rightarrow> nat"
  dk_random :: "nat \<Rightarrow> string"

datatype os_error = NotExist | OsError string

fun os_text :: "os_error \<Rightarrow> string" where
  "os_text NotExist = ''no such file or directory''"
| "os_text (OsError e) = e"

definition os_call :: "disk_env \<Rightarrow> (nat \<Rightarrow> disk \<Rightarrow> (os_error + 'a) \<times> disk) \<Rightarrow> (string \<Rightarrow> disk \<Rightarrow> disk) \<Rightarrow>
  (disk, os_error + 'a) state" where
  "os_call D work broken = State (\<lambda>d.
     let n = dk_tick d; d1 = d\<lparr>dk_tick := Suc n\<rparr>
     in case dk_fault D n of
          Some e \<Rightarrow> (Inl (OsError e), broken e d1)
        | None \<Rightarrow> work n d1)"

definition os_ReadFile :: "disk_env \<Rightarrow> string \<Rightarrow> (disk, os_error + bytes) state" where
  "os_ReadFile D path =
     os_call D (\<lambda>_ d. (case dk_files d path of None \<Rightarrow> Inl NotExist | Some f \<Rightarrow> Inr (fl_data f), d)) (\<lambda>_ d. d)"

text \<open>Directories, \<^verbatim>\<open>Sync\<close> and \<^verbatim>\<open>Close\<close> have no other effect on the files than to fail.\<close>

definition os_plain :: "disk_env \<Rightarrow> (disk, os_error + unit) state" where
  "os_plain D = os_call D (\<lambda>_ d. (Inr (), d)) (\<lambda>_ d. d)"

definition os_CreateTemp :: "disk_env \<Rightarrow> string \<Rightarrow> string \<Rightarrow> (disk, os_error + string) state" where
  "os_CreateTemp D dir pre =
     os_call D (\<lambda>n d.
       let path = filepath_Join dir (pre @ dk_random D n)
       in if dk_files d path \<noteq> None then (Inl (OsError ''file exists''), d)
          else (Inr path, d\<lparr>dk_files := (dk_files d)(path \<mapsto> \<lparr>fl_data = '''', fl_mode = 0x180\<rparr>)\<rparr>)) (\<lambda>_ d. d)"

definition update_file :: "string \<Rightarrow> (os_file \<Rightarrow> os_file) \<Rightarrow> disk \<Rightarrow> disk" where
  "update_file path f d = d\<lparr>dk_files := (dk_files d)(path := map_option f (dk_files d path))\<rparr>"

definition os_Chmod :: "disk_env \<Rightarrow> string \<Rightarrow> nat \<Rightarrow> (disk, os_error + unit) state" where
  "os_Chmod D path mode = os_call D (\<lambda>_ d. (Inr (), update_file path (fl_mode_update (\<lambda>_. mode)) d)) (\<lambda>_ d. d)"

definition os_Write :: "disk_env \<Rightarrow> string \<Rightarrow> bytes \<Rightarrow> (disk, os_error + unit) state" where
  "os_Write D path data =
     os_call D (\<lambda>_ d. (Inr (), update_file path (fl_data_update (\<lambda>b. b @ data)) d))
       (\<lambda>_ d. update_file path (fl_data_update (\<lambda>b. b @ take (dk_written D (dk_tick d)) data)) d)"

definition os_Rename :: "disk_env \<Rightarrow> string \<Rightarrow> string \<Rightarrow> (disk, os_error + unit) state" where
  "os_Rename D old new =
     os_call D (\<lambda>_ d.
       case dk_files d old of
         None \<Rightarrow> (Inl NotExist, d)
       | Some f \<Rightarrow> (Inr (), d\<lparr>dk_files := ((dk_files d)(old := None))(new \<mapsto> f)\<rparr>)) (\<lambda>_ d. d)"

definition os_Remove :: "disk_env \<Rightarrow> string \<Rightarrow> (disk, os_error + unit) state" where
  "os_Remove D path =
     os_call D (\<lambda>_ d.
       if dk_files d path = None then (Inl NotExist, d)
       else (Inr (), d\<lparr>dk_files := (dk_files d)(path := None)\<rparr>)) (\<lambda>_ d. d)"

section \<open>Writing the key file\<close>

text \<open>Everything between the creation of the temporary file and the deferred removal.\<close>

definition fill_and_rename :: "disk_env \<Rightarrow> string \<Rightarrow> string \<Rightarrow> bytes \<Rightarrow> (disk, string option) state" where
  "fill_and_rename D tempPath path data = do {
     c \<leftarrow> os_Chmod D tempPath 0x180;
     case c of
       Inl e \<Rightarrow> do { x \<leftarrow> os_plain D; State_Monad.return (Some (''set RSA private key permissions: '' @ os_text e)) }
     | Inr _ \<Rightarrow> do {
         w \<leftarrow> os_Write D tempPath data;
         case w of
           Inl e \<Rightarrow> do { x \<leftarrow> os_plain D; State_Monad.return (Some (''write RSA private key: '' @ os_text e)) }
         | Inr _ \<Rightarrow> do {
             s \<leftarrow> os_plain D;
             case s of
               Inl e \<Rightarrow> do { x \<leftarrow> os_plain D; State_Monad.return (Some (''sync RSA private key: '' @ os_text e)) }
             | Inr _ \<Rightarrow> do {
                 cl \<leftarrow> os_plain D;
                 case cl of
                   Inl e \<Rightarrow> State_Monad.return (Some (''close RSA private key: '' @ os_text e))
                 | Inr _ \<Rightarrow> do {
                     r \<leftarrow> os_Rename D tempPath path;
                     State_Monad.return
                       (case r of Inl e \<Rightarrow> Some (''persist RSA private key '' @ path @ '': '' @ os_text e)
                        | Inr _ \<Rightarrow> None)
                   }
               }
           }
       }
   }"

definition writePrivateKeyFile :: "disk_env \<Rightarrow> string \<Rightarrow> bytes \<Rightarrow> (disk, string option) state" where
  "writePrivateKeyFile D path data = do {
     let dir = filepath_Dir path;
     m \<leftarrow> os_plain D;
     case m of
       Inl e \<Rightarrow> State_Monad.return (Some (''create RSA private key directory '' @ dir @ '': '' @ os_text e))
     | Inr _ \<Rightarrow> do {
         t \<leftarrow> os_CreateTemp D dir ''.identra-signing-key-'';
         case t of
           Inl e \<Rightarrow> State_Monad.return (Some (''create temporary RSA private key file: '' @ os_text e))
         | Inr tempPath \<Rightarrow> do {
             returnErr \<leftarrow> fill_and_rename D tempPath path data;
             rm \<leftarrow> os_Remove D tempPath;
             State_Monad.return
               (case rm of
                  Inl (OsError e) \<Rightarrow>
                    (if returnErr = None then Some (''remove temporary RSA private key file: '' @ e) else returnErr)
                | _ \<Rightarrow> returnErr)
           }
       }
   }"

section \<open>Loading or making the key\<close>

text \<open>The manager is passed along; \<open>gen\<close> is the key \<^verbatim>\<open>rsa.GenerateKey\<close> would make.\<close>

definition initializeKeyManagerFromFile ::
  "disk_env \<Rightarrow> (bytes \<Rightarrow> bytes) \<Rightarrow> x509_lib \<Rightarrow> rsa_private option \<Rightarrow> KeyManager \<Rightarrow> string \<Rightarrow>
   (disk, string + KeyManager) state" where
  "initializeKeyManagerFromFile D sha X gen km keyFile = do {
     r \<leftarrow> os_ReadFile D keyFile;
     case r of
       Inr privateKeyPEM \<Rightarrow>
         State_Monad.return
           (case InitializeFromPEM sha X privateKeyPEM km of
              (Inl e, _) \<Rightarrow> Inl (''load RSA private key '' @ keyFile @ '': '' @ e)
            | (Inr _, km') \<Rightarrow> Inr km')
     | Inl (OsError e) \<Rightarrow> State_Monad.return (Inl (''read RSA private key '' @ keyFile @ '': '' @ e))
     | Inl NotExist \<Rightarrow>
         (case GenerateKeyPair sha gen km of
            (Inl e, _) \<Rightarrow> State_Monad.return (Inl (''failed to generate RSA key pair: '' @ e))
          | (Inr _, km') \<Rightarrow>
              (case ExportPrivateKeyPEM X km' of
                 Inl e \<Rightarrow> State_Monad.return (Inl (''export generated RSA private key: '' @ e))
               | Inr generatedPEM \<Rightarrow> do {
                   w \<leftarrow> writePrivateKeyFile D keyFile generatedPEM;
                   State_Monad.return (case w of Some e \<Rightarrow> Inl e | None \<Rightarrow> Inr km')
                 }))
   }"

record tokenKeys =
  tk_manager :: KeyManager
  tk_tokenConfig :: TokenConfig

definition token_config :: "AuthConfig \<Rightarrow> KeyManager \<Rightarrow> TokenConfig" where
  "token_config cfg km =
     \<lparr>tc_PrivateKey = GetPrivateKey km, tc_PublicKey = GetPublicKey km, tc_KeyID = GetKeyID km,
      tc_Issuer = ct_Issuer (ca_Token cfg),
      tc_AccessTokenExpiration = ct_AccessTokenExpiration (ca_Token cfg),
      tc_RefreshTokenExpiration = ct_RefreshTokenExpiration (ca_Token cfg),
      tc_ServiceTokenExpiration = ct_ServiceTokenExpiration (ca_Token cfg)\<rparr>"

definition buildTokenKeys ::
  "disk_env \<Rightarrow> (bytes \<Rightarrow> bytes) \<Rightarrow> x509_lib \<Rightarrow> rsa_private option \<Rightarrow> AuthConfig \<Rightarrow> (disk, string + tokenKeys) state" where
  "buildTokenKeys D sha X gen cfg = do {
     let privateKeyPEM = TrimSpace (ca_RSAPrivateKey cfg);
     let keyFile = TrimSpace (ca_RSAPrivateKeyFile cfg);
     r \<leftarrow> (if privateKeyPEM \<noteq> '''' then
             State_Monad.return
               (case InitializeFromPEM sha X privateKeyPEM KeyManager_zero of
                  (Inl e, _) \<Rightarrow> Inl (''failed to load RSA private key: '' @ e)
                | (Inr _, km) \<Rightarrow> Inr km)
           else if keyFile = '''' then
             State_Monad.return (Inl ''auth.rsa_private_key_file is required when auth.rsa_private_key is not set'')
           else initializeKeyManagerFromFile D sha X gen KeyManager_zero keyFile);
     State_Monad.return
       (case r of
          Inl e \<Rightarrow> Inl e
        | Inr km \<Rightarrow>
            if \<not> IsInitialized km then Inl ''token keys are not initialized''
            else let tokenCfg = token_config cfg km
                 in if tc_PrivateKey tokenCfg = None \<or> tc_PublicKey tokenCfg = None
                    then Inl ''token keys are not initialized''
                    else Inr \<lparr>tk_manager = km, tk_tokenConfig = tokenCfg\<rparr>)
   }"

section \<open>The key file is written whole or not at all\<close>

lemma run_os_call:
  "run_state (os_call D work broken) d =
     (case dk_fault D (dk_tick d) of
        Some e \<Rightarrow> (Inl (OsError e), broken e (d\<lparr>dk_tick := Suc (dk_tick d)\<rparr>))
      | None \<Rightarrow> work (dk_tick d) (d\<lparr>dk_tick := Suc (dk_tick d)\<rparr>))"
  by (simp add: os_call_def Let_def)

lemmas os_defs = os_ReadFile_def os_plain_def os_CreateTemp_def os_Chmod_def os_Write_def os_Rename_def
  os_Remove_def update_file_def run_os_call

lemma fill_and_rename_cases:
  assumes "run_state (fill_and_rename D temp path data) d = (r, d')" and "dk_files d temp = Some \<lparr>fl_data = '''', fl_mode = m\<rparr>"
    and "temp \<noteq> path"
  shows "\<forall>p. p \<noteq> temp \<and> p \<noteq> path \<longrightarrow> dk_files d' p = dk_files d p"
    and "r \<noteq> None \<Longrightarrow> dk_files d' path = dk_files d path"
    and "r = None \<Longrightarrow> dk_files d' path = Some \<lparr>fl_data = data, fl_mode = 0x180\<rparr> \<and> dk_files d' temp = None"
  using assms by (auto simp: fill_and_rename_def os_defs split: option.splits)

text \<open>The names \<^verbatim>\<open>os.CreateTemp\<close> may choose for the key file at \<open>path\<close>.\<close>

definition temp_name :: "disk_env \<Rightarrow> string \<Rightarrow> nat \<Rightarrow> string" where
  "temp_name D path n = filepath_Join (filepath_Dir path) (''.identra-signing-key-'' @ dk_random D n)"

lemma remove_cases:
  assumes "run_state (os_Remove D temp) d = (r, d')"
  shows "\<forall>p. p \<noteq> temp \<longrightarrow> dk_files d' p = dk_files d p" and "\<not> (\<exists>e. r = Inl (OsError e)) \<Longrightarrow> dk_files d' temp = None"
  using assms by (auto simp: os_defs split: option.splits if_splits)

text \<open>A run that got as far as creating the temporary file.\<close>

definition filled_run :: "disk_env \<Rightarrow> string \<Rightarrow> bytes \<Rightarrow> string \<Rightarrow> disk \<Rightarrow> disk \<Rightarrow> string option \<Rightarrow> bool" where
  "filled_run D path data temp d d' r \<longleftrightarrow>
     (\<exists>d2 r1 d3 rm.
        dk_files d2 = (dk_files d)(temp \<mapsto> \<lparr>fl_data = '''', fl_mode = 0x180\<rparr>) \<and> dk_files d temp = None \<and>
        run_state (fill_and_rename D temp path data) d2 = (r1, d3) \<and> run_state (os_Remove D temp) d3 = (rm, d') \<and>
        (r = None \<longrightarrow> r1 = None \<and> \<not> (\<exists>e. rm = Inl (OsError e))))"

lemma writePrivateKeyFile_run:
  assumes "run_state (writePrivateKeyFile D path data) d = (r, d')"
  shows "(r \<noteq> None \<and> dk_files d' = dk_files d) \<or> (\<exists>n. filled_run D path data (temp_name D path n) d d' r)"
proof -
  obtain m d1 where m: "run_state (os_plain D) d = (m, d1)" by (metis prod.collapse)
  have d1: "dk_files d1 = dk_files d" using m by (auto simp: os_defs split: option.splits)
  show ?thesis
  proof (cases m)
    case (Inl e)
    then show ?thesis using assms m d1 by (auto simp: writePrivateKeyFile_def)
  next
    case m_ok: (Inr u)
    obtain t d2 where t: "run_state (os_CreateTemp D (filepath_Dir path) ''.identra-signing-key-'') d1 = (t, d2)"
      by (metis prod.collapse)
    show ?thesis
    proof (cases t)
      case (Inl e)
      then have "dk_files d2 = dk_files d" using t d1 by (auto simp: os_defs Let_def split: option.splits if_splits)
      with Inl show ?thesis using assms m m_ok t by (auto simp: writePrivateKeyFile_def)
    next
      case (Inr tmp)
      then have tmp: "tmp = temp_name D path (dk_tick d1)" "dk_files d tmp = None"
        "dk_files d2 = (dk_files d)(tmp \<mapsto> \<lparr>fl_data = '''', fl_mode = 0x180\<rparr>)"
        using t d1 by (auto simp: os_defs Let_def temp_name_def split: option.splits if_splits)
      obtain r1 d3 where f: "run_state (fill_and_rename D tmp path data) d2 = (r1, d3)" by (metis prod.collapse)
      obtain rm d4 where rm: "run_state (os_Remove D tmp) d3 = (rm, d4)" by (metis prod.collapse)
      have "d' = d4" "r = (case rm of Inl (OsError e) \<Rightarrow>
            (if r1 = None then Some (''remove temporary RSA private key file: '' @ e) else r1) | _ \<Rightarrow> r1)"
        using assms m m_ok t Inr f rm by (auto simp: writePrivateKeyFile_def)
      then have "filled_run D path data tmp d d' r"
        unfolding filled_run_def using tmp f rm
        by (intro exI [of _ d2] exI [of _ r1] exI [of _ d3] exI [of _ rm])
          (auto split: sum.splits os_error.splits if_splits)
      then show ?thesis using tmp(1) by auto
    qed
  qed
qed

lemma filled_run_files:
  assumes "filled_run D path data temp d d' r" and "temp \<noteq> path"
  shows "p \<noteq> temp \<Longrightarrow> p \<noteq> path \<Longrightarrow> dk_files d' p = dk_files d p"
    and "dk_files d' path = dk_files d path \<or> dk_files d' path = Some \<lparr>fl_data = data, fl_mode = 0x180\<rparr>"
    and "r = None \<Longrightarrow> dk_files d' = (dk_files d)(path \<mapsto> \<lparr>fl_data = data, fl_mode = 0x180\<rparr>)"
proof -
  from assms(1) obtain d2 r1 d3 rm where
    d2: "dk_files d2 = (dk_files d)(temp \<mapsto> \<lparr>fl_data = '''', fl_mode = 0x180\<rparr>)" "dk_files d temp = None"
    and f: "run_state (fill_and_rename D temp path data) d2 = (r1, d3)"
    and rm: "run_state (os_Remove D temp) d3 = (rm, d')"
    and ok: "r = None \<longrightarrow> r1 = None \<and> \<not> (\<exists>e. rm = Inl (OsError e))"
    unfolding filled_run_def by blast
  have tmp: "dk_files d2 temp = Some \<lparr>fl_data = '''', fl_mode = 0x180\<rparr>" using d2 by simp
  note fr = fill_and_rename_cases [OF f tmp assms(2)] and rmv = remove_cases [OF rm]
  show other: "dk_files d' p = dk_files d p" if "p \<noteq> temp" "p \<noteq> path" for p
    using fr(1) rmv(1) d2 that by simp
  show "dk_files d' path = dk_files d path \<or> dk_files d' path = Some \<lparr>fl_data = data, fl_mode = 0x180\<rparr>"
    using fr(2,3) rmv(1) assms(2) d2 by (cases r1) auto
  show "dk_files d' = (dk_files d)(path \<mapsto> \<lparr>fl_data = data, fl_mode = 0x180\<rparr>)" if "r = None"
  proof
    fix p
    show "dk_files d' p = ((dk_files d)(path \<mapsto> \<lparr>fl_data = data, fl_mode = 0x180\<rparr>)) p"
      using ok that fr(3) rmv d2 assms(2) other by (cases "p = path"; cases "p = temp") auto
  qed
qed

text \<open>
  (C29) The key file is written whole or not at all. Whichever calls of the operating system fail, and
  however much of the data a failing write has written, the key file afterwards is what it was or
  holds the complete new key, readable by its owner only; no other file is touched but temporary
  ones; and when success is reported the complete key is there and no temporary file is left.
\<close>

theorem writePrivateKeyFile_atomic:
  assumes "run_state (writePrivateKeyFile D path data) d = (r, d')" and "\<And>n. temp_name D path n \<noteq> path"
  shows "(dk_files d' path = dk_files d path \<or> dk_files d' path = Some \<lparr>fl_data = data, fl_mode = 0x180\<rparr>) \<and>
         (\<forall>p. p \<noteq> path \<and> p \<notin> range (temp_name D path) \<longrightarrow> dk_files d' p = dk_files d p) \<and>
         (r = None \<longrightarrow> dk_files d' = (dk_files d)(path \<mapsto> \<lparr>fl_data = data, fl_mode = 0x180\<rparr>))"
  using writePrivateKeyFile_run [OF assms(1)]
proof
  assume "\<exists>n. filled_run D path data (temp_name D path n) d d' r"
  then obtain n where f: "filled_run D path data (temp_name D path n) d d' r" ..
  note fs = filled_run_files [OF f assms(2)]
  have "dk_files d' p = dk_files d p" if "p \<noteq> path \<and> p \<notin> range (temp_name D path)" for p
    using fs(1) [of p] that by auto
  with fs(2,3) show ?thesis by blast
qed auto

lemma writePrivateKeyFile_success:
  assumes "run_state (writePrivateKeyFile D path data) d = (None, d')" and "\<And>n. temp_name D path n \<noteq> path"
  shows "dk_files d' path = Some \<lparr>fl_data = data, fl_mode = 0x180\<rparr>"
  using writePrivateKeyFile_run [OF assms(1)] filled_run_files(3) assms(2) by fastforce

section \<open>The key survives a restart\<close>

text \<open>PEM and PKCS#1 encodings are read back.\<close>

definition pem_round_trip :: "x509_lib \<Rightarrow> bool" where
  "pem_round_trip X \<longleftrightarrow>
     (\<forall>b. pem_Decode X (pem_EncodeToMemory X ''RSA PRIVATE KEY'' b) = Some (''RSA PRIVATE KEY'', b)) \<and>
     (\<forall>k. ParsePKCS1PrivateKey X (MarshalPKCS1PrivateKey X k) = Inr k)"

lemma parse_exported:
  "pem_round_trip X \<Longrightarrow> km_privateKey km = Some priv \<Longrightarrow> ExportPrivateKeyPEM X km = Inr p \<Longrightarrow> parse_private_key X p = Inr priv"
  by (auto simp: pem_round_trip_def ExportPrivateKeyPEM_def parse_private_key_def)

lemma install_active_private [simp]: "km_privateKey (install_active sha priv km) = Some priv"
  by (simp add: install_active_def Let_def)

lemma run_ReadFile_ok:
  "dk_fault D (dk_tick d) = None \<Longrightarrow> dk_files d path = Some f \<Longrightarrow>
   run_state (os_ReadFile D path) d = (Inr (fl_data f), d\<lparr>dk_tick := Suc (dk_tick d)\<rparr>)"
  by (simp add: os_ReadFile_def run_os_call)

text \<open>What the key file must hold after a manager came out of it.\<close>

lemma initialize_leaves_key:
  assumes "pem_round_trip X" and "run_state (initializeKeyManagerFromFile D sha X gen KeyManager_zero path) d = (Inr km, d')"
    and "\<And>n. temp_name D path n \<noteq> path"
  shows "\<exists>f priv. dk_files d' path = Some f \<and> parse_private_key X (fl_data f) = Inr priv \<and>
           km = install_active sha priv (make_keys KeyManager_zero)"
proof -
  obtain r d1 where r: "run_state (os_ReadFile D path) d = (r, d1)" by (metis prod.collapse)
  show ?thesis
  proof (cases r)
    case (Inr pem)
    then obtain f where "dk_files d path = Some f" "pem = fl_data f" "dk_files d1 = dk_files d"
      using r by (auto simp: os_ReadFile_def run_os_call split: option.splits)
    moreover have "d' = d1" "InitializeFromPEM sha X pem KeyManager_zero = (Inr (), km)"
      using assms(2) r Inr by (auto simp: initializeKeyManagerFromFile_def split: prod.splits sum.splits)
    ultimately show ?thesis by (auto simp: InitializeFromPEM_def Let_def split: sum.splits)
  next
    case (Inl e)
    then have "e = NotExist" using assms(2) r by (cases e) (auto simp: initializeKeyManagerFromFile_def)
    then obtain pem w where g: "GenerateKeyPair sha gen KeyManager_zero = (Inr (), km)" "ExportPrivateKeyPEM X km = Inr pem"
      and w: "run_state (writePrivateKeyFile D path pem) d1 = (None, d')"
      using assms(2) r Inl
      by (auto simp: initializeKeyManagerFromFile_def split: prod.splits sum.splits option.splits)
    from g(1) obtain priv where km: "km = install_active sha priv (make_keys KeyManager_zero)"
      by (auto simp: GenerateKeyPair_def Let_def split: option.splits)
    then have "parse_private_key X pem = Inr priv" using parse_exported [OF assms(1) _ g(2)] by simp
    with writePrivateKeyFile_success [OF w assms(3)] km show ?thesis by auto
  qed
qed

text \<open>
  (C30) The signing key survives a restart. Once token keys have been built from a configuration, be
  the key given in it, read from its file or freshly generated, building them again later with the
  key file as it was left gives the very same key ring and token configuration, whatever new key
  would have been generated, and does not touch the disk.
\<close>

theorem signing_key_survives_restart:
  assumes "pem_round_trip X" and "run_state (buildTokenKeys D sha X gen cfg) d = (Inr keys, d')"
    and "\<And>n. temp_name D (TrimSpace (ca_RSAPrivateKeyFile cfg)) n \<noteq> TrimSpace (ca_RSAPrivateKeyFile cfg)"
    and "dk_files d2 (TrimSpace (ca_RSAPrivateKeyFile cfg)) = dk_files d' (TrimSpace (ca_RSAPrivateKeyFile cfg))"
    and "dk_fault D2 (dk_tick d2) = None"
  shows "fst (run_state (buildTokenKeys D2 sha X gen2 cfg) d2) = Inr keys \<and>
         dk_files (snd (run_state (buildTokenKeys D2 sha X gen2 cfg) d2)) = dk_files d2"
proof (cases "TrimSpace (ca_RSAPrivateKey cfg) = ''''")
  case False
  then show ?thesis using assms(2) by (auto simp: buildTokenKeys_def Let_def)
next
  case True
  let ?path = "TrimSpace (ca_RSAPrivateKeyFile cfg)"
  obtain r d1 where i: "run_state (initializeKeyManagerFromFile D sha X gen KeyManager_zero ?path) d = (r, d1)"
    by (metis prod.collapse)
  have path: "?path \<noteq> ''''" using assms(2) True by (auto simp: buildTokenKeys_def)
  then obtain km where km: "r = Inr km" "d1 = d'" "keys = \<lparr>tk_manager = km, tk_tokenConfig = token_config cfg km\<rparr>"
      "IsInitialized km" "tc_PrivateKey (token_config cfg km) \<noteq> None" "tc_PublicKey (token_config cfg km) \<noteq> None"
    using assms(2) True i by (auto simp: buildTokenKeys_def Let_def split: sum.splits if_splits)
  from initialize_leaves_key [OF assms(1) i [unfolded km] assms(3)] obtain f priv
    where f: "dk_files d' ?path = Some f" "parse_private_key X (fl_data f) = Inr priv"
      "km = install_active sha priv (make_keys KeyManager_zero)" by blast
  then have "run_state (initializeKeyManagerFromFile D2 sha X gen2 KeyManager_zero ?path) d2 =
      (Inr km, d2\<lparr>dk_tick := Suc (dk_tick d2)\<rparr>)"
    using run_ReadFile_ok [OF assms(5)] assms(4)
    by (simp add: initializeKeyManagerFromFile_def InitializeFromPEM_def Let_def)
  then show ?thesis using True path km by (auto simp: buildTokenKeys_def Let_def)
qed

section \<open>Witnesses\<close>

definition sample_disk_env :: disk_env where
  "sample_disk_env = \<lparr>dk_fault = (\<lambda>_. None), dk_written = (\<lambda>_. 0), dk_random = dec_digits\<rparr>"

definition sample_disk :: disk where
  "sample_disk = \<lparr>dk_tick = 0, dk_files = (\<lambda>_. None)\<rparr>"

definition read_key :: "string list \<Rightarrow> string + rsa_private" where
  "read_key xs =
     (case xs of
        [n, e, d] \<Rightarrow>
          (case (parse_nat n, rd_time e, parse_nat d) of
             (Some n', Some e', Some d') \<Rightarrow> Inr \<lparr>rsa_PublicKey = \<lparr>rsa_N = n', rsa_E = e'\<rparr>, rsa_D = d'\<rparr>
           | _ \<Rightarrow> Inl ''malformed key'')
      | _ \<Rightarrow> Inl ''malformed key'')"

definition sample_pem :: x509_lib where
  "sample_pem =
     \<lparr>pem_Decode = (\<lambda>s. case rd_all s of Some [t, b] \<Rightarrow> Some (t, b) | _ \<Rightarrow> None),
      pem_EncodeToMemory = (\<lambda>t b. wr_all [t, b]),
      ParsePKCS1PrivateKey = (\<lambda>b. case rd_all b of Some xs \<Rightarrow> read_key xs | None \<Rightarrow> Inl ''malformed key''),
      ParsePKCS8PrivateKey = (\<lambda>b. Inl ''pkcs8''),
      MarshalPKCS1PrivateKey = (\<lambda>k. wr_all [dec_digits (rsa_N (rsa_PublicKey k)), wr_time (Some (rsa_E (rsa_PublicKey k))), dec_digits (rsa_D k)]),
      MarshalPKIXPublicKey = (\<lambda>k. Inl ''pkix'')\<rparr>"

lemma sample_pem_round_trip: "pem_round_trip sample_pem"
  by (simp add: pem_round_trip_def sample_pem_def read_key_def parse_nat_dec_digits)

definition sample_auth :: AuthConfig where
  "sample_auth =
     \<lparr>ca_RSAPrivateKey = '''', ca_RSAPrivateKeyFile = ''k'',
      ca_OAuth = \<lparr>co_StateExpirationDuration = 0, co_GithubClientID = '''', co_GithubClientSecret = '''', co_FetchEmailIfMissing = False\<rparr>,
      ca_Token = \<lparr>ct_Issuer = ''identra'', ct_AccessTokenExpiration = 15 * minute, ct_RefreshTokenExpiration = 168 * hour,
                  ct_ServiceTokenExpiration = 15 * minute\<rparr>\<rparr>"

lemma sample_auth_path [simp]: "TrimSpace (ca_RSAPrivateKeyFile sample_auth) = ''k''" "TrimSpace (ca_RSAPrivateKey sample_auth) = ''''"
  by (simp_all add: sample_auth_def TrimSpace_def strip_tokens_id lead_token_def space_runes_def)

lemma dec_digits_no_slash: "CHR ''/'' \<notin> set (dec_digits n)"
proof
  assume "CHR ''/'' \<in> set (dec_digits n)"
  then obtain d where "d < 10" "CHR ''/'' = digit_char d" using dec_digits_all by blast
  then have "(of_char (CHR ''/'') :: nat) = 48 + d" using of_char_digit [of d] by simp
  then show False by simp
qed

lemma sample_temp: "temp_name sample_disk_env ''k'' n = ''.identra-signing-key-'' @ dec_digits n"
proof -
  have dir: "filepath_Dir ''k'' = ''.''"
    by (simp add: filepath_Dir_def up_to_slash_def filepath_Clean_def is_rooted_def Split_def clean_comps_def clean_step.simps)
  let ?s = "''.identra-signing-key-'' @ dec_digits n"
  have "Split (''./'' @ ?s) (CHR ''/'') = [''.'', ?s]"
    using Split_Cons [of "CHR ''/''" "''.''" ?s] Split_single [of "CHR ''/''" ?s] dec_digits_no_slash by simp
  then show ?thesis
    by (simp add: temp_name_def dir filepath_Join_def filepath_Clean_def is_rooted_def clean_comps_def clean_step.simps
        sample_disk_env_def)
qed

lemma sample_temp_ne: "temp_name sample_disk_env ''k'' n \<noteq> ''k''"
  by (simp add: sample_temp)

lemma sample_build:
  "\<exists>keys d'. run_state (buildTokenKeys sample_disk_env id sample_pem (Some key_a) sample_auth) sample_disk = (Inr keys, d')"
proof -
  have t: "filepath_Join (filepath_Dir ''k'') (''.identra-signing-key-'' @ dk_random sample_disk_env n) = temp_name sample_disk_env ''k'' n" for n
    by (simp add: temp_name_def)
  have f: "dk_fault sample_disk_env n = None" for n by (simp add: sample_disk_env_def)
  define km where "km = install_active id key_a (make_keys KeyManager_zero)"
  obtain pem where pem: "ExportPrivateKeyPEM sample_pem km = Inr pem" by (simp add: ExportPrivateKeyPEM_def km_def)
  have "\<exists>d'. run_state (writePrivateKeyFile sample_disk_env ''k'' pem) (sample_disk\<lparr>dk_tick := Suc 0\<rparr>) = (None, d')"
    by (simp add: writePrivateKeyFile_def fill_and_rename_def os_defs f t [simplified] sample_disk_def Let_def sample_temp)
  then obtain d' where w: "run_state (writePrivateKeyFile sample_disk_env ''k'' pem) (sample_disk\<lparr>dk_tick := Suc 0\<rparr>) = (None, d')" ..
  have "run_state (os_ReadFile sample_disk_env ''k'') sample_disk = (Inl NotExist, sample_disk\<lparr>dk_tick := Suc 0\<rparr>)"
    by (simp add: os_ReadFile_def run_os_call f sample_disk_def)
  then have "run_state (initializeKeyManagerFromFile sample_disk_env id sample_pem (Some key_a) KeyManager_zero ''k'') sample_disk = (Inr km, d')"
    using pem w by (simp add: initializeKeyManagerFromFile_def GenerateKeyPair_def Let_def km_def)
  moreover have "IsInitialized km" "GetPrivateKey km \<noteq> None" "GetPublicKey km \<noteq> None"
    by (simp_all add: km_def IsInitialized_def GetPrivateKey_def GetPublicKey_def install_active_def Let_def)
  ultimately show ?thesis
    by (auto simp: buildTokenKeys_def Let_def token_config_def)
qed

theorem signing_key_survives_restart_witness:
  "\<exists>keys d'. run_state (buildTokenKeys sample_disk_env id sample_pem (Some key_a) sample_auth) sample_disk = (Inr keys, d') \<and>
     fst (run_state (buildTokenKeys sample_disk_env id sample_pem (Some key_b) sample_auth) d') = Inr keys"
proof -
  obtain keys d' where r: "run_state (buildTokenKeys sample_disk_env id sample_pem (Some key_a) sample_auth) sample_disk = (Inr keys, d')"
    using sample_build by blast
  have "fst (run_state (buildTokenKeys sample_disk_env id sample_pem (Some key_b) sample_auth) d') = Inr keys"
    using signing_key_survives_restart [OF sample_pem_round_trip r, of d' sample_disk_env "Some key_b"] sample_temp_ne
    by (simp add: sample_disk_env_def)
  with r show ?thesis by blast
qed

theorem writePrivateKeyFile_atomic_witness:
  "dk_files (snd (run_state (writePrivateKeyFile sample_disk_env ''k'' ''secret'') sample_disk)) ''other'' = None"
proof -
  have "''other'' \<notin> range (temp_name sample_disk_env ''k'')" by (auto simp: sample_temp)
  then show ?thesis
    using writePrivateKeyFile_atomic [of sample_disk_env "''k''" "''secret''" sample_disk
        "fst (run_state (writePrivateKeyFile sample_disk_env ''k'' ''secret'') sample_disk)"
        "snd (run_state (writePrivateKeyFile sample_disk_env ''k'' ''secret'') sample_disk)"] sample_temp_ne
    by (simp add: sample_disk_def)
qed

end
