(* ===== verification/Mail.thy ===== *)
theory Mail
  imports Configuration Go_Encoding
begin

text \<open>
  \<^verbatim>\<open>internal/mail/smtp/mailer.go\<close> and what it uses of \<^verbatim>\<open>net/smtp\<close> and \<^verbatim>\<open>net/textproto\<close>. The server is a
  parameter: its replies are an arbitrary function of everything it has received. The state is the
  client's connection with the log of what was written to it, each entry marked with whether it went
  through TLS.
\<close>

section \<open>The connection\<close>

abbreviation CR :: char where "CR \<equiv> CHR 0x0D"
abbreviation LF :: char where "LF \<equiv> CHR 0x0A"
abbreviation crlf :: string where "crlf \<equiv> [CR, LF]"

datatype smtp_event = Command string | Payload string

type_synonym smtp_log = "(bool \<times> smtp_event) list"

text \<open>A reply outside the expected range, a failure of the connection, or a refusal by the client.\<close>

datatype smtp_error = Reply nat string | Io string | Refused string

record smtp_server =
  ss_dial :: "string \<Rightarrow> string option"
  ss_reply :: "smtp_log \<Rightarrow> string + nat \<times> string"
  ss_write :: "smtp_log \<Rightarrow> string option"
  ss_close :: "smtp_log \<Rightarrow> string option"

record smtp_conn =
  cn_server_name :: string
  cn_tls :: bool
  cn_did_hello :: bool
  cn_hello_error :: "smtp_error option"
  cn_ext :: "string list option"
  cn_log :: smtp_log

type_synonym smtp_op = "(smtp_conn, smtp_error option) state"

definition code_expected :: "nat \<Rightarrow> nat \<Rightarrow> bool" where
  "code_expected expect code \<longleftrightarrow>
     (if 1 \<le> expect \<and> expect < 10 then code div 100 = expect
      else if 10 \<le> expect \<and> expect < 100 then code div 10 = expect
      else if 100 \<le> expect \<and> expect < 1000 then code = expect
      else True)"

definition ReadResponse :: "smtp_server \<Rightarrow> nat \<Rightarrow> smtp_log \<Rightarrow> smtp_error + nat \<times> string" where
  "ReadResponse srv expect log =
     (case ss_reply srv log of
        Inl e \<Rightarrow> Inl (Io e)
      | Inr (code, msg) \<Rightarrow> if code_expected expect code then Inr (code, msg) else Inl (Reply code msg))"

definition logged :: "smtp_event \<Rightarrow> smtp_conn \<Rightarrow> smtp_conn" where
  "logged ev c = c\<lparr>cn_log := cn_log c @ [(cn_tls c, ev)]\<rparr>"

definition smtp_cmd :: "smtp_server \<Rightarrow> nat \<Rightarrow> string \<Rightarrow> (smtp_conn, smtp_error + nat \<times> string) state" where
  "smtp_cmd srv expect line = State (\<lambda>c.
     let c1 = logged (Command (line @ crlf)) c in (ReadResponse srv expect (cn_log c1), c1))"

definition cmd_ok :: "smtp_server \<Rightarrow> nat \<Rightarrow> string \<Rightarrow> smtp_op" where
  "cmd_ok srv expect line = do {
     r \<leftarrow> smtp_cmd srv expect line;
     State_Monad.return (case r of Inl e \<Rightarrow> Some e | Inr _ \<Rightarrow> None)
   }"

text \<open>Operations one after the other, up to the first that fails.\<close>

fun steps :: "('s, 'e option) state list \<Rightarrow> ('s, 'e option) state" where
  "steps [] = State_Monad.return None"
| "steps (m # ms) = do {
     e \<leftarrow> m;
     case e of Some x \<Rightarrow> State_Monad.return (Some x) | None \<Rightarrow> steps ms
   }"

section \<open>The client\<close>

text \<open>The extension keys of a reply to \<^verbatim>\<open>EHLO\<close>: the first words of all lines but the first.\<close>

definition ext_keys :: "string \<Rightarrow> string list" where
  "ext_keys msg = map (\<lambda>line. case Cut line (CHR '' '') of Some (k, _) \<Rightarrow> k | None \<Rightarrow> line) (tl (Split msg LF))"

definition ehlo :: "smtp_server \<Rightarrow> smtp_op" where
  "ehlo srv = do {
     r \<leftarrow> smtp_cmd srv 250 ''EHLO localhost'';
     case r of
       Inl e \<Rightarrow> State_Monad.return (Some e)
     | Inr (_, msg) \<Rightarrow> State (\<lambda>c. (None, c\<lparr>cn_ext := Some (ext_keys msg)\<rparr>))
   }"

definition helo :: "smtp_server \<Rightarrow> smtp_op" where
  "helo srv = do {
     _ \<leftarrow> State (\<lambda>c. ((), c\<lparr>cn_ext := None\<rparr>));
     cmd_ok srv 250 ''HELO localhost''
   }"

definition hello :: "smtp_server \<Rightarrow> smtp_op" where
  "hello srv = do {
     did \<leftarrow> State (\<lambda>c. (cn_did_hello c, c\<lparr>cn_did_hello := True\<rparr>));
     if did then State (\<lambda>c. (cn_hello_error c, c))
     else do {
       e \<leftarrow> ehlo srv;
       case e of
         None \<Rightarrow> State (\<lambda>c. (cn_hello_error c, c))
       | Some _ \<Rightarrow> do {
           e2 \<leftarrow> helo srv;
           State (\<lambda>c. (e2, c\<lparr>cn_hello_error := e2\<rparr>))
         }
     }
   }"

definition smtp_StartTLS :: "smtp_server \<Rightarrow> smtp_op" where
  "smtp_StartTLS srv =
     steps [hello srv, cmd_ok srv 220 ''STARTTLS'', State (\<lambda>c. (None, c\<lparr>cn_tls := True\<rparr>)), ehlo srv]"

definition smtp_Quit :: "smtp_server \<Rightarrow> smtp_op" where
  "smtp_Quit srv = do {
     _ \<leftarrow> hello srv;
     e \<leftarrow> cmd_ok srv 221 ''QUIT'';
     case e of
       Some x \<Rightarrow> State_Monad.return (Some x)
     | None \<Rightarrow> State (\<lambda>c. (map_option Io (ss_close srv (cn_log c)), c))
   }"

definition isLocalhost :: "string \<Rightarrow> bool" where
  "isLocalhost name \<longleftrightarrow> name = ''localhost'' \<or> name = ''127.0.0.1'' \<or> name = ''::1''"

text \<open>\<^verbatim>\<open>PlainAuth\<close> with an empty identity: the first response, unless the connection is not fit for it.\<close>

definition plain_Start :: "string \<Rightarrow> string \<Rightarrow> string \<Rightarrow> smtp_conn \<Rightarrow> smtp_error + bytes" where
  "plain_Start username password host c =
     (if \<not> cn_tls c \<and> \<not> isLocalhost (cn_server_name c) then Inl (Refused ''unencrypted connection'')
      else if cn_server_name c \<noteq> host then Inl (Refused ''wrong host name'')
      else Inr ([CHR 0x00] @ username @ [CHR 0x00] @ password))"

definition b64_padded :: "bytes \<Rightarrow> string" where
  "b64_padded bs = (let e = b64_encode b64_std bs in e @ replicate ((4 - length e mod 4) mod 4) CHR ''='')"

text \<open>A challenge is refused, whether or not it decodes: \<^verbatim>\<open>PlainAuth\<close> has nothing to answer.\<close>

definition auth_reply :: "smtp_server \<Rightarrow> smtp_error + nat \<times> string \<Rightarrow> smtp_op" where
  "auth_reply srv r =
     (case r of
        Inl e \<Rightarrow> State_Monad.return (Some e)
      | Inr (code, msg) \<Rightarrow>
          if code = 235 then State_Monad.return None
          else do {
            _ \<leftarrow> smtp_cmd srv 501 ''*'';
            _ \<leftarrow> smtp_Quit srv;
            State_Monad.return (Some (if code = 334 then Refused ''unexpected server challenge'' else Reply code msg))
          })"

definition auth_start :: "smtp_server \<Rightarrow> smtp_error + bytes \<Rightarrow> smtp_op" where
  "auth_start srv s =
     (case s of
        Inl e \<Rightarrow> do { _ \<leftarrow> smtp_Quit srv; State_Monad.return (Some e) }
      | Inr resp \<Rightarrow> do {
          r \<leftarrow> smtp_cmd srv 0 (TrimSpace (''AUTH PLAIN '' @ b64_padded resp));
          auth_reply srv r
        })"

definition smtp_Auth :: "smtp_server \<Rightarrow> string \<Rightarrow> string \<Rightarrow> string \<Rightarrow> smtp_op" where
  "smtp_Auth srv username password host =
     steps [hello srv, do { s \<leftarrow> State (\<lambda>c. (plain_Start username password host c, c)); auth_start srv s }]"

definition validateLine :: "string \<Rightarrow> smtp_error option" where
  "validateLine line =
     (if CR \<in> set line \<or> LF \<in> set line then Some (Refused ''smtp: A line must not contain CR or LF'') else None)"

definition mail_command :: "string \<Rightarrow> string list option \<Rightarrow> string" where
  "mail_command from ext =
     ''MAIL FROM:<'' @ from @ ''>'' @
     (case ext of
        None \<Rightarrow> ''''
      | Some ks \<Rightarrow> (if ''8BITMIME'' \<in> set ks then '' BODY=8BITMIME'' else '''') @
                    (if ''SMTPUTF8'' \<in> set ks then '' SMTPUTF8'' else ''''))"

definition smtp_Mail :: "smtp_server \<Rightarrow> string \<Rightarrow> smtp_op" where
  "smtp_Mail srv from =
     steps [State_Monad.return (validateLine from), hello srv,
            do { ext \<leftarrow> State (\<lambda>c. (cn_ext c, c)); cmd_ok srv 250 (mail_command from ext) }]"

definition smtp_Rcpt :: "smtp_server \<Rightarrow> string \<Rightarrow> smtp_op" where
  "smtp_Rcpt srv to = steps [State_Monad.return (validateLine to), cmd_ok srv 25 (''RCPT TO:<'' @ to @ ''>'')]"

text \<open>The dot writer: one \<^verbatim>\<open>Write\<close> of the whole text, then \<^verbatim>\<open>Close\<close>.\<close>

datatype wstate = WBegin | WBeginLine | WCR | WData

fun dot_writer :: "wstate \<Rightarrow> string \<Rightarrow> string" where
  "dot_writer st [] =
     (case st of WBeginLine \<Rightarrow> '''' | WCR \<Rightarrow> [LF] | WBegin \<Rightarrow> crlf | WData \<Rightarrow> crlf) @ ''.'' @ crlf"
| "dot_writer st (c # cs) =
     (if st = WCR then c # dot_writer (if c = LF then WBeginLine else WData) cs
      else (if st \<noteq> WData \<and> c = CHR ''.'' then ''.'' else '''') @ (if c = LF then [CR] else '''') @
           c # dot_writer (if c = CR then WCR else if c = LF then WBeginLine else WData) cs)"

text \<open>
  \<^verbatim>\<open>Data\<close>, then \<^verbatim>\<open>Write\<close> and \<^verbatim>\<open>Close\<close> of its writer. What is written is logged even when writing fails, since
  some of it may have gone out.
\<close>

definition data_Write :: "smtp_server \<Rightarrow> string \<Rightarrow> smtp_op" where
  "data_Write srv message = State (\<lambda>c.
     let c1 = logged (Payload (dot_writer WBegin message)) c in (map_option Io (ss_write srv (cn_log c1)), c1))"

definition data_Close :: "smtp_server \<Rightarrow> smtp_op" where
  "data_Close srv = State (\<lambda>c.
     (case ReadResponse srv 250 (cn_log c) of Inl e \<Rightarrow> Some e | Inr _ \<Rightarrow> None, c))"

text \<open>
  The host part of \<^verbatim>\<open>host:port\<close> as \<^verbatim>\<open>net.SplitHostPort\<close> finds it, empty when it finds none; the port has no
  colon and no bracket.
\<close>

definition server_name :: "string \<Rightarrow> string" where
  "server_name host =
     (if host \<noteq> '''' \<and> hd host = CHR ''[''
      then if last host = CHR '']'' \<and> CHR '']'' \<notin> set (butlast host) \<and> CHR ''['' \<notin> set (tl host)
           then butlast (tl host) else ''''
      else if CHR '':'' \<in> set host \<or> CHR ''['' \<in> set host \<or> CHR '']'' \<in> set host then '''' else host)"

definition smtp_Dial :: "smtp_server \<Rightarrow> string \<Rightarrow> int \<Rightarrow> smtp_error + smtp_conn" where
  "smtp_Dial srv host port =
     (case ss_dial srv (host @ '':'' @ Itoa port) of
        Some e \<Rightarrow> Inl (Io e)
      | None \<Rightarrow>
          (case ReadResponse srv 220 [] of
             Inl e \<Rightarrow> Inl e
           | Inr _ \<Rightarrow> Inr \<lparr>cn_server_name = server_name host, cn_tls = False, cn_did_hello = False,
                          cn_hello_error = None, cn_ext = None, cn_log = []\<rparr>))"

section \<open>The mailer\<close>

record Message =
  mm_ToEmails :: "string list"
  mm_Subject :: string
  mm_Body :: string
  mm_IsHTML :: bool

definition content_type :: "bool \<Rightarrow> string" where
  "content_type html =
     (if html then ''Content-Type: text/html; charset=UTF-8'' else ''Content-Type: text/plain; charset=UTF-8'')"

definition build_message :: "smtp_Config \<Rightarrow> Message \<Rightarrow> string" where
  "build_message cfg msg =
     (let contentType = content_type (mm_IsHTML msg) @ crlf;
          subject = ''Subject: '' @ mm_Subject msg @ crlf;
          headers = ''From: '' @ mc_FromName cfg @ '' <'' @ mc_FromEmail cfg @ ''>'' @ crlf @
                    ''To: '' @ join_with (CHR '','') (mm_ToEmails msg) @ crlf
      in subject @ headers @ contentType @ crlf @ mm_Body msg)"

definition mail_dialogue :: "smtp_server \<Rightarrow> smtp_Config \<Rightarrow> Message \<Rightarrow> smtp_op" where
  "mail_dialogue srv cfg msg =
     steps ((if mc_StartTLS cfg then [smtp_StartTLS srv] else []) @
            (if mc_AuthEnabled cfg then [smtp_Auth srv (mc_Username cfg) (mc_Password cfg) (mc_Host cfg)] else []) @
            [smtp_Mail srv (mc_FromEmail cfg)] @
            map (smtp_Rcpt srv) (mm_ToEmails msg) @
            [cmd_ok srv 354 ''DATA'', data_Write srv (build_message cfg msg), data_Close srv, smtp_Quit srv])"

text \<open>The outcome, and what was written to the connection.\<close>

definition SendEmail :: "smtp_server \<Rightarrow> smtp_Config \<Rightarrow> Message \<Rightarrow> smtp_error option \<times> smtp_log" where
  "SendEmail srv cfg msg =
     (case smtp_Dial srv (mc_Host cfg) (mc_Port cfg) of
        Inl e \<Rightarrow> (Some e, [])
      | Inr client \<Rightarrow> (case run_state (mail_dialogue srv cfg msg) client of (r, c) \<Rightarrow> (r, cn_log c)))"

section \<open>Runs\<close>

lemma run_steps_append:
  "run_state (steps (xs @ ys)) s =
     (case run_state (steps xs) s of (Some e, s1) \<Rightarrow> (Some e, s1) | (None, s1) \<Rightarrow> run_state (steps ys) s1)"
  by (induction xs arbitrary: s) (auto split: prod.splits option.splits)

lemma maintains_steps: "(\<And>m. m \<in> set ms \<Longrightarrow> maintains I m) \<Longrightarrow> maintains I (steps ms)"
  by (induction ms) (auto intro!: frame)

lemma maintains_State: "(\<And>s. I s \<Longrightarrow> I (snd (f s))) \<Longrightarrow> maintains I (State f)"
  by (simp add: maintains_def)

lemma logged_sel [simp]:
  "cn_log (logged ev c) = cn_log c @ [(cn_tls c, ev)]" "cn_tls (logged ev c) = cn_tls c"
  "cn_server_name (logged ev c) = cn_server_name c" "cn_did_hello (logged ev c) = cn_did_hello c"
  "cn_ext (logged ev c) = cn_ext c"
  by (simp_all add: logged_def)

text \<open>
  What an invariant of the connection has to satisfy to survive the greeting, and then the whole
  dialogue apart from the credentials and the message.
\<close>

locale greeting_invariant =
  fixes I :: "smtp_conn \<Rightarrow> bool"
  assumes ext: "I c \<Longrightarrow> I (c\<lparr>cn_ext := x\<rparr>)" and did: "I c \<Longrightarrow> I (c\<lparr>cn_did_hello := b\<rparr>)"
    and err: "I c \<Longrightarrow> I (c\<lparr>cn_hello_error := e\<rparr>)"
    and greet: "I c \<Longrightarrow> l \<in> {''EHLO localhost'', ''HELO localhost'', ''STARTTLS''} \<Longrightarrow> I (logged (Command (l @ crlf)) c)"
begin

lemma smtp_cmd_greet:
  "l \<in> {''EHLO localhost'', ''HELO localhost'', ''STARTTLS''} \<Longrightarrow> maintains I (smtp_cmd srv n l)"
  unfolding smtp_cmd_def by (rule maintains_State) (simp add: greet Let_def)

lemma cmd_ok_greet:
  "l \<in> {''EHLO localhost'', ''HELO localhost'', ''STARTTLS''} \<Longrightarrow> maintains I (cmd_ok srv n l)"
  unfolding cmd_ok_def by (intro frame smtp_cmd_greet)

lemma ehlo_keeps: "maintains I (ehlo srv)"
  unfolding ehlo_def by (intro frame smtp_cmd_greet maintains_State) (simp_all add: ext)

lemma helo_keeps: "maintains I (helo srv)"
  unfolding helo_def by (intro frame cmd_ok_greet maintains_State) (simp_all add: ext)

lemma hello_keeps: "maintains I (hello srv)"
  unfolding hello_def by (intro frame ehlo_keeps helo_keeps maintains_State) (simp_all add: did err)

end

locale dialogue_invariant = greeting_invariant +
  assumes command: "I c \<Longrightarrow> \<not> HasPrefix l ''AUTH'' \<Longrightarrow> I (logged (Command l) c)"
begin

lemma smtp_cmd_keeps: "\<not> HasPrefix (l @ crlf) ''AUTH'' \<Longrightarrow> maintains I (smtp_cmd srv n l)"
  unfolding smtp_cmd_def by (rule maintains_State) (simp add: command Let_def)

lemma cmd_ok_keeps: "\<not> HasPrefix (l @ crlf) ''AUTH'' \<Longrightarrow> maintains I (cmd_ok srv n l)"
  unfolding cmd_ok_def by (intro frame smtp_cmd_keeps)

lemma Quit_keeps: "maintains I (smtp_Quit srv)"
  unfolding smtp_Quit_def by (intro frame hello_keeps cmd_ok_keeps maintains_State) (simp_all add: HasPrefix_def)

lemma Mail_keeps: "maintains I (smtp_Mail srv from)"
proof -
  have "maintains I (do { ext \<leftarrow> State (\<lambda>c. (cn_ext c, c)); cmd_ok srv 250 (mail_command from ext) })"
    by (intro frame maintains_State cmd_ok_keeps) (simp_all add: HasPrefix_def mail_command_def)
  then show ?thesis
    unfolding smtp_Mail_def by (intro maintains_steps) (auto intro: frame hello_keeps)
qed

lemma Rcpt_keeps: "maintains I (smtp_Rcpt srv to)"
  unfolding smtp_Rcpt_def by (intro maintains_steps) (auto intro!: frame cmd_ok_keeps simp: HasPrefix_def)

lemma auth_reply_keeps: "maintains I (auth_reply srv r)"
  unfolding auth_reply_def by (intro frame smtp_cmd_keeps Quit_keeps) (simp add: HasPrefix_def)

lemma Auth_keeps:
  assumes "\<And>c resp. I c \<Longrightarrow> plain_Start u p host c = Inr resp \<Longrightarrow>
    I (logged (Command (TrimSpace (''AUTH PLAIN '' @ b64_padded resp) @ crlf)) c)"
  shows "maintains I (smtp_Auth srv u p host)"
proof -
  have "maintains I (do { s \<leftarrow> State (\<lambda>c. (plain_Start u p host c, c)); auth_start srv s })" (is "maintains I ?m")
  proof (rule maintainsI)
    fix c a c' assume c: "I c" and run: "run_state ?m c = (a, c')"
    show "I c'"
    proof (cases "plain_Start u p host c")
      case (Inl e)
      have "maintains I (auth_start srv (Inl e))" unfolding auth_start_def by (simp add: maintains_bind Quit_keeps maintains_return)
      moreover have "run_state (auth_start srv (Inl e)) c = (a, c')" using run Inl by simp
      ultimately show ?thesis using c by (rule maintainsD)
    next
      case (Inr resp)
      then have "I (logged (Command (TrimSpace (''AUTH PLAIN '' @ b64_padded resp) @ crlf)) c)" using assms c by blast
      with auth_reply_keeps show ?thesis
        using run Inr by (rule_tac maintainsD) (auto simp: auth_start_def smtp_cmd_def Let_def)
    qed
  qed
  then show ?thesis unfolding smtp_Auth_def by (intro maintains_steps) (auto intro: hello_keeps)
qed

end

section \<open>What is sent in clear\<close>

fun is_auth :: "smtp_event \<Rightarrow> bool" where
  "is_auth (Command l) \<longleftrightarrow> HasPrefix l ''AUTH''"
| "is_auth (Payload p) \<longleftrightarrow> False"

definition greetings :: "smtp_event set" where
  "greetings = (\<lambda>l. Command (l @ crlf)) ` {''EHLO localhost'', ''HELO localhost'', ''STARTTLS''}"

definition auth_protected :: "string \<Rightarrow> smtp_conn \<Rightarrow> bool" where
  "auth_protected host c \<longleftrightarrow> (\<forall>(t, ev) \<in> set (cn_log c). t \<or> isLocalhost host \<or> \<not> is_auth ev)"

definition greets_in_clear :: "smtp_conn \<Rightarrow> bool" where
  "greets_in_clear c \<longleftrightarrow> (\<forall>(t, ev) \<in> set (cn_log c). t \<or> ev \<in> greetings)"

definition under_tls :: "smtp_conn \<Rightarrow> bool" where
  "under_tls c \<longleftrightarrow> cn_tls c \<and> greets_in_clear c"

interpretation auth_protected: dialogue_invariant "auth_protected host" for host
  by unfold_locales (auto simp: auth_protected_def HasPrefix_def)

interpretation greets_in_clear: greeting_invariant greets_in_clear
  by unfold_locales (auto simp: greets_in_clear_def greetings_def)

interpretation under_tls: dialogue_invariant under_tls
  by unfold_locales (auto simp: under_tls_def greets_in_clear_def)

lemma under_tls_logged: "under_tls c \<Longrightarrow> under_tls (logged ev c)"
  by (auto simp: under_tls_def greets_in_clear_def)

text \<open>The part of the dialogue after the encryption has been negotiated.\<close>

definition mail_steps :: "smtp_server \<Rightarrow> smtp_Config \<Rightarrow> Message \<Rightarrow> smtp_op list" where
  "mail_steps srv cfg msg =
     (if mc_AuthEnabled cfg then [smtp_Auth srv (mc_Username cfg) (mc_Password cfg) (mc_Host cfg)] else []) @
     [smtp_Mail srv (mc_FromEmail cfg)] @ map (smtp_Rcpt srv) (mm_ToEmails msg) @
     [cmd_ok srv 354 ''DATA'', data_Write srv (build_message cfg msg), data_Close srv, smtp_Quit srv]"

lemma mail_dialogue_steps:
  "mail_dialogue srv cfg msg = steps ((if mc_StartTLS cfg then [smtp_StartTLS srv] else []) @ mail_steps srv cfg msg)"
  by (simp add: mail_dialogue_def mail_steps_def)

lemma data_Close_keeps: "maintains I (data_Close srv)"
  unfolding data_Close_def by (rule maintains_State) simp

lemma mail_steps_under_tls:
  assumes "m \<in> set (mail_steps srv cfg msg)"
  shows "maintains under_tls m"
proof -
  have "maintains under_tls (data_Write srv (build_message cfg msg))"
    unfolding data_Write_def by (rule maintains_State) (simp add: under_tls_logged Let_def)
  moreover have "maintains under_tls (smtp_Auth srv (mc_Username cfg) (mc_Password cfg) (mc_Host cfg))"
    by (rule under_tls.Auth_keeps) (rule under_tls_logged)
  ultimately show ?thesis
    using assms under_tls.cmd_ok_keeps [of "''DATA''" srv 354]
    by (auto simp: mail_steps_def HasPrefix_def data_Close_keeps under_tls.Mail_keeps under_tls.Rcpt_keeps
        under_tls.Quit_keeps split: if_splits)
qed

lemma StartTLS_greets: "maintains greets_in_clear (smtp_StartTLS srv)"
proof -
  have "maintains greets_in_clear (State (\<lambda>c. (None, c\<lparr>cn_tls := True\<rparr>)))"
    by (rule maintains_State) (simp add: greets_in_clear_def)
  then show ?thesis
    unfolding smtp_StartTLS_def
    by (intro maintains_steps) (auto intro: greets_in_clear.hello_keeps greets_in_clear.cmd_ok_greet greets_in_clear.ehlo_keeps)
qed

lemma ehlo_tls: "keeps cn_tls (ehlo srv)"
  unfolding ehlo_def smtp_cmd_def by (rule keepsI) (auto simp: Let_def split: prod.splits sum.splits)

lemma StartTLS_tls:
  assumes "run_state (smtp_StartTLS srv) c = (None, c')"
  shows "cn_tls c'"
  using assms by (auto simp: smtp_StartTLS_def split: prod.splits option.splits dest!: keepsD [OF ehlo_tls])

lemma mail_dialogue_tls:
  assumes "mc_StartTLS cfg" and "run_state (mail_dialogue srv cfg msg) c = (r, c')" and "greets_in_clear c"
  shows "greets_in_clear c'"
proof -
  obtain e c1 where st: "run_state (smtp_StartTLS srv) c = (e, c1)" by (metis prod.collapse)
  have c1: "greets_in_clear c1" by (rule maintainsD [OF StartTLS_greets st assms(3)])
  show ?thesis
  proof (cases e)
    case None
    have "under_tls c1" using c1 StartTLS_tls st None by (auto simp: under_tls_def)
    moreover have "run_state (steps (mail_steps srv cfg msg)) c1 = (r, c')"
      using assms(1,2) st None by (simp add: mail_dialogue_steps)
    moreover have "maintains under_tls (steps (mail_steps srv cfg msg))"
      by (rule maintains_steps) (rule mail_steps_under_tls)
    ultimately have "under_tls c'" by (blast dest: maintainsD)
    then show ?thesis by (simp add: under_tls_def)
  next
    case (Some x)
    then show ?thesis using assms(1,2) st c1 by (simp add: mail_dialogue_steps)
  qed
qed

lemma mail_dialogue_auth: "maintains (auth_protected (mc_Host cfg)) (mail_dialogue srv cfg msg)"
proof -
  let ?I = "auth_protected (mc_Host cfg)"
  have "maintains ?I (State (\<lambda>c. (None, c\<lparr>cn_tls := True\<rparr>)))"
    by (rule maintains_State) (simp add: auth_protected_def)
  then have "maintains ?I (smtp_StartTLS srv)"
    unfolding smtp_StartTLS_def
    by (intro maintains_steps) (auto intro: auth_protected.hello_keeps auth_protected.cmd_ok_greet auth_protected.ehlo_keeps)
  moreover have "maintains ?I (data_Write srv (build_message cfg msg))"
    unfolding data_Write_def by (rule maintains_State) (auto simp: auth_protected_def Let_def)
  moreover have "maintains ?I (smtp_Auth srv (mc_Username cfg) (mc_Password cfg) (mc_Host cfg))"
    by (rule auth_protected.Auth_keeps) (auto simp: auth_protected_def plain_Start_def split: if_splits)
  ultimately show ?thesis
    using auth_protected.cmd_ok_keeps [of "''DATA''" "mc_Host cfg" srv 354] unfolding mail_dialogue_def
    by (intro maintains_steps)
      (auto simp: HasPrefix_def data_Close_keeps auth_protected.Mail_keeps auth_protected.Rcpt_keeps
        auth_protected.Quit_keeps split: if_splits)
qed

text \<open>
  (C31) What goes over the wire unprotected, whatever the server answers. With StartTLS configured,
  nothing is sent in clear but the greeting and the STARTTLS command itself, so neither the password
  nor the mail, not even when the server refuses to encrypt. And with or without it, the SMTP password
  is never sent in clear to a host other than the local one.
\<close>

theorem mail_secrets_encrypted:
  assumes "(False, ev) \<in> set (snd (SendEmail srv cfg msg))"
  shows "(mc_StartTLS cfg \<longrightarrow> ev \<in> greetings) \<and> (is_auth ev \<longrightarrow> isLocalhost (mc_Host cfg))"
proof (cases "smtp_Dial srv (mc_Host cfg) (mc_Port cfg)")
  case (Inl e)
  then show ?thesis using assms by (simp add: SendEmail_def)
next
  case (Inr c)
  obtain r c' where run: "run_state (mail_dialogue srv cfg msg) c = (r, c')" by (metis prod.collapse)
  have ev: "(False, ev) \<in> set (cn_log c')" using assms Inr run by (simp add: SendEmail_def)
  have start: "cn_log c = []" using Inr by (auto simp: smtp_Dial_def split: option.splits sum.splits)
  have "auth_protected (mc_Host cfg) c'"
    by (rule maintainsD [OF mail_dialogue_auth run]) (simp add: auth_protected_def start)
  moreover have "mc_StartTLS cfg \<Longrightarrow> greets_in_clear c'"
    by (rule mail_dialogue_tls [OF _ run]) (simp_all add: greets_in_clear_def start)
  ultimately show ?thesis using ev by (fastforce simp: auth_protected_def greets_in_clear_def)
qed

section \<open>What the server receives\<close>

text \<open>
  A server's reading of a message: lines end with CR LF, a line of a single dot ends the message, and a
  leading dot is dropped. The result is the lines and what follows the message.
\<close>

definition undot :: "string \<Rightarrow> string" where
  "undot l = (if l \<noteq> '''' \<and> hd l = CHR ''.'' then tl l else l)"

fun read_data :: "string \<Rightarrow> string \<Rightarrow> (string list \<times> string) option" where
  "read_data acc [] = None"
| "read_data acc (c # s) =
     (if c = CR \<and> s \<noteq> [] \<and> hd s = LF
      then if acc = ''.'' then Some ([], tl s)
           else map_option (\<lambda>(ls, r). (undot (rev acc) # ls, r)) (read_data '''' (tl s))
      else read_data (c # acc) s)"

definition plain_line :: "string \<Rightarrow> bool" where
  "plain_line l \<longleftrightarrow> CR \<notin> set l \<and> LF \<notin> set l"

definition dotted :: "string \<Rightarrow> string" where
  "dotted l = (if l \<noteq> '''' \<and> hd l = CHR ''.'' then CHR ''.'' # l else l)"

lemma undot_dotted [simp]: "undot (dotted l) = l"
  by (simp add: undot_def dotted_def)

lemma dotted_not_dot: "dotted l \<noteq> ''.''"
  by (cases l) (auto simp: dotted_def)

lemma dotted_plain: "plain_line l \<Longrightarrow> plain_line (dotted l)"
  by (auto simp: dotted_def plain_line_def)

lemma read_data_line:
  assumes "CR \<notin> set l"
  shows "read_data acc (l @ CR # LF # s) =
    (if rev l @ acc = ''.'' then Some ([], s)
     else map_option (\<lambda>(ls, r). (undot (rev (rev l @ acc)) # ls, r)) (read_data '''' s))"
  using assms by (induction l arbitrary: acc) auto

lemma read_data_dotted:
  assumes "plain_line l"
  shows "read_data '''' (dotted l @ CR # LF # s) = map_option (\<lambda>(ls, r). (l # ls, r)) (read_data '''' s)"
proof -
  have "CR \<notin> set (dotted l)" using dotted_plain [OF assms] by (simp add: plain_line_def)
  moreover have "rev (dotted l) \<noteq> ''.''" using dotted_not_dot [of l] by (metis rev_singleton_conv)
  ultimately show ?thesis by (simp add: read_data_line)
qed

lemma read_data_end: "read_data '''' (''.'' @ crlf @ s) = Some ([], s)"
  by simp

lemma dot_writer_inside:
  assumes "plain_line l"
  shows "dot_writer WData (l @ CR # LF # s) = l @ CR # LF # dot_writer WBeginLine s"
    and "dot_writer WData (l @ LF # s) = l @ CR # LF # dot_writer WBeginLine s"
    and "dot_writer WData l = l @ crlf @ ''.'' @ crlf"
  using assms by (induction l) (auto simp: plain_line_def)

lemma dot_writer_line:
  assumes "plain_line l" and "st = WBegin \<or> st = WBeginLine"
  shows "dot_writer st (l @ CR # LF # s) = dotted l @ CR # LF # dot_writer WBeginLine s"
    and "dot_writer st (l @ LF # s) = dotted l @ CR # LF # dot_writer WBeginLine s"
    and "l \<noteq> [] \<Longrightarrow> dot_writer st l = dotted l @ crlf @ ''.'' @ crlf"
proof -
  have "plain_line (tl l)" using assms(1) by (cases l) (auto simp: plain_line_def)
  note inside = dot_writer_inside [OF this]
  show "dot_writer st (l @ CR # LF # s) = dotted l @ CR # LF # dot_writer WBeginLine s"
    "dot_writer st (l @ LF # s) = dotted l @ CR # LF # dot_writer WBeginLine s"
    "l \<noteq> [] \<Longrightarrow> dot_writer st l = dotted l @ crlf @ ''.'' @ crlf"
    using assms inside by (cases l; auto simp: dotted_def plain_line_def)+
qed

text \<open>The lines of a text whose lines end with LF, where the last need not.\<close>

definition body_lines :: "string \<Rightarrow> string list" where
  "body_lines b = (if b = '''' \<or> last b = LF then butlast (Split b LF) else Split b LF)"

lemma split_from_nonempty: "split_from sep acc s \<noteq> []"
  by (induction sep acc s rule: split_from.induct) auto

lemma Split_nonempty: "Split s sep \<noteq> []"
  by (simp add: Split_def split_from_nonempty)

lemma body_lines_Nil: "body_lines '''' = []"
  by (simp add: body_lines_def Split_def)

lemma body_lines_Cons:
  assumes "LF \<notin> set l"
  shows "body_lines (l @ LF # s) = l # body_lines s"
  using assms Split_nonempty [of s LF] by (auto simp: body_lines_def Split_Cons Split_single)

lemma body_lines_single:
  assumes "LF \<notin> set l" and "l \<noteq> ''''"
  shows "body_lines l = [l]"
proof -
  have "last l \<noteq> LF" using assms by (metis last_in_set)
  then show ?thesis using assms by (simp add: body_lines_def Split_single)
qed

lemma read_text:
  assumes "CR \<notin> set b"
  shows "read_data '''' (dot_writer WBeginLine b @ rest) = Some (body_lines b, rest)"
  using assms
proof (induction "length b" arbitrary: b rule: less_induct)
  case less
  show ?case
  proof (cases "LF \<in> set b")
    case True
    then obtain l s where b: "b = l @ LF # s" "LF \<notin> set l" by (meson split_list_first)
    then have l: "plain_line l" using less.prems by (simp add: plain_line_def)
    have "read_data '''' (dot_writer WBeginLine s @ rest) = Some (body_lines s, rest)"
      using less b by simp
    then show ?thesis
      by (simp add: b body_lines_Cons dot_writer_line [OF l] read_data_dotted [OF l])
  next
    case False
    then have l: "plain_line b" using less.prems by (simp add: plain_line_def)
    show ?thesis
    proof (cases "b = ''''")
      case False
      then show ?thesis
        using dot_writer_line(3) [OF l] \<open>LF \<notin> set b\<close>
        by (simp add: body_lines_single read_data_dotted [OF l])
    qed (simp add: body_lines_Nil)
  qed
qed

lemma read_headers:
  assumes "\<And>h. h \<in> set hs \<Longrightarrow> plain_line h" and "CR \<notin> set b" and "st = WBeginLine \<or> st = WBegin \<and> hs \<noteq> []"
  shows "read_data '''' (dot_writer st (concat (map (\<lambda>h. h @ crlf) hs) @ b) @ rest) = Some (hs @ body_lines b, rest)"
  using assms
proof (induction hs arbitrary: st)
  case Nil
  then show ?case by (simp add: read_text)
next
  case (Cons h hs)
  then have h: "plain_line h" by simp
  have "read_data '''' (dot_writer WBeginLine (concat (map (\<lambda>h. h @ crlf) hs) @ b) @ rest) = Some (hs @ body_lines b, rest)"
    using Cons.prems by (intro Cons.IH) simp_all
  moreover have "dot_writer st (h @ CR # LF # s) = dotted h @ CR # LF # dot_writer WBeginLine s" for s
    by (rule dot_writer_line(1) [OF h]) (use Cons.prems(3) in auto)
  ultimately show ?case by (simp add: read_data_dotted [OF h])
qed

definition header_lines :: "smtp_Config \<Rightarrow> Message \<Rightarrow> string list" where
  "header_lines cfg msg =
     [''Subject: '' @ mm_Subject msg, ''From: '' @ mc_FromName cfg @ '' <'' @ mc_FromEmail cfg @ ''>'',
      ''To: '' @ join_with (CHR '','') (mm_ToEmails msg), content_type (mm_IsHTML msg), '''']"

lemma build_message_lines:
  "build_message cfg msg = concat (map (\<lambda>h. h @ crlf) (header_lines cfg msg)) @ mm_Body msg"
  by (simp add: build_message_def header_lines_def Let_def)

lemma join_with_plain: "(\<And>x. x \<in> set xs \<Longrightarrow> plain_line x) \<Longrightarrow> plain_line (join_with (CHR '','') xs)"
  by (induction "CHR '',''" xs rule: join_with.induct) (auto simp: plain_line_def)

lemma read_built:
  assumes "plain_line (mm_Subject msg)" "plain_line (mc_FromName cfg)" "plain_line (mc_FromEmail cfg)"
    and "\<And>x. x \<in> set (mm_ToEmails msg) \<Longrightarrow> plain_line x" and "CR \<notin> set (mm_Body msg)"
  shows "read_data '''' (dot_writer WBegin (build_message cfg msg)) = Some (header_lines cfg msg @ body_lines (mm_Body msg), '''')"
proof -
  have "plain_line (content_type b)" for b by (simp add: content_type_def plain_line_def)
  moreover have "plain_line (join_with (CHR '','') (mm_ToEmails msg))" using assms(4) by (rule join_with_plain)
  ultimately have h: "plain_line h" if "h \<in> set (header_lines cfg msg)" for h
    using that assms(1-3) by (auto simp: header_lines_def plain_line_def)
  have "header_lines cfg msg \<noteq> []" by (simp add: header_lines_def)
  with read_headers [of "header_lines cfg msg" "mm_Body msg" WBegin "''''"] h assms(5) show ?thesis
    by (simp add: build_message_lines)
qed

text \<open>What the operations before the message leave behind when they succeed.\<close>

definition no_payload :: "smtp_conn \<Rightarrow> bool" where
  "no_payload c \<longleftrightarrow> (\<forall>t p. (t, Payload p) \<notin> set (cn_log c))"

interpretation no_payload: dialogue_invariant no_payload
  by unfold_locales (auto simp: no_payload_def)

lemma cmd_ok_success: "run_state (cmd_ok srv n l) c = (None, c') \<Longrightarrow> c' = logged (Command (l @ crlf)) c"
  by (auto simp: cmd_ok_def smtp_cmd_def Let_def split: prod.splits sum.splits)

lemma keeps_State: "(\<And>s. f (snd (g s)) = f s) \<Longrightarrow> keeps f (State g)"
  by (simp add: keeps_def)

lemma hello_did: "run_state (hello srv) c = (r, c') \<Longrightarrow> cn_did_hello c'"
proof -
  have k: "keeps cn_did_hello (ehlo srv)" "keeps cn_did_hello (helo srv)"
    unfolding ehlo_def helo_def cmd_ok_def smtp_cmd_def by (intro frame keeps_State; simp add: Let_def)+
  show "run_state (hello srv) c = (r, c') \<Longrightarrow> cn_did_hello c'"
    by (auto simp: hello_def split: prod.splits if_splits option.splits dest!: keepsD [OF k(1)] keepsD [OF k(2)])
qed

lemma hello_again: "cn_did_hello c \<Longrightarrow> run_state (hello srv) c = (cn_hello_error c, c)"
  by (cases c) (simp add: hello_def)

lemma Mail_success:
  assumes "run_state (smtp_Mail srv from) c = (None, c')"
  shows "plain_line from" and "\<exists>pre ext. cn_log c' = pre @ [(cn_tls c', Command (mail_command from ext @ crlf))]"
    and "cn_did_hello c'"
  using assms
  by (auto simp: smtp_Mail_def validateLine_def plain_line_def split: prod.splits option.splits if_splits
      dest!: cmd_ok_success hello_did)

lemma Rcpt_success:
  assumes "run_state (smtp_Rcpt srv to) c = (None, c')"
  shows "plain_line to" and "c' = logged (Command (''RCPT TO:<'' @ to @ ''>'' @ crlf)) c"
  using assms cmd_ok_success [of srv 25 "''RCPT TO:<'' @ to @ ''>''" c c']
  by (auto simp: smtp_Rcpt_def validateLine_def plain_line_def split: prod.splits option.splits if_splits)

lemma Rcpts_success:
  assumes "run_state (steps (map (smtp_Rcpt srv) tos)) c = (None, c')"
  shows "(\<forall>x \<in> set tos. plain_line x) \<and>
    cn_log c' = cn_log c @ map (\<lambda>x. (cn_tls c, Command (''RCPT TO:<'' @ x @ ''>'' @ crlf))) tos \<and>
    cn_tls c' = cn_tls c \<and> cn_did_hello c' = cn_did_hello c"
  using assms
proof (induction tos arbitrary: c)
  case (Cons x tos)
  then obtain c1 where c1: "run_state (smtp_Rcpt srv x) c = (None, c1)" "run_state (steps (map (smtp_Rcpt srv) tos)) c1 = (None, c')"
    by (auto split: prod.splits option.splits)
  from Rcpt_success [OF c1(1)] Cons.IH [OF c1(2)] show ?case by simp
qed simp

text \<open>The operations up to the message, and from the message on.\<close>

definition envelope_steps :: "smtp_server \<Rightarrow> smtp_Config \<Rightarrow> Message \<Rightarrow> smtp_op list" where
  "envelope_steps srv cfg msg =
     (if mc_StartTLS cfg then [smtp_StartTLS srv] else []) @
     (if mc_AuthEnabled cfg then [smtp_Auth srv (mc_Username cfg) (mc_Password cfg) (mc_Host cfg)] else []) @
     [smtp_Mail srv (mc_FromEmail cfg)] @ map (smtp_Rcpt srv) (mm_ToEmails msg) @ [cmd_ok srv 354 ''DATA'']"

lemma mail_dialogue_envelope:
  "mail_dialogue srv cfg msg =
     steps (envelope_steps srv cfg msg @ [data_Write srv (build_message cfg msg), data_Close srv, smtp_Quit srv])"
  by (simp add: mail_dialogue_def envelope_steps_def)

lemma envelope_no_payload: "maintains no_payload (steps (envelope_steps srv cfg msg))"
proof -
  have "maintains no_payload (State (\<lambda>c. (None, c\<lparr>cn_tls := True\<rparr>)))"
    by (rule maintains_State) (simp add: no_payload_def)
  then have "maintains no_payload (smtp_StartTLS srv)"
    unfolding smtp_StartTLS_def
    by (intro maintains_steps) (auto intro: no_payload.hello_keeps no_payload.cmd_ok_greet no_payload.ehlo_keeps)
  moreover have "maintains no_payload (smtp_Auth srv (mc_Username cfg) (mc_Password cfg) (mc_Host cfg))"
    by (rule no_payload.Auth_keeps) (auto simp: no_payload_def)
  ultimately show ?thesis
    unfolding envelope_steps_def
    by (intro maintains_steps)
      (auto simp: HasPrefix_def intro: no_payload.Mail_keeps no_payload.Rcpt_keeps no_payload.cmd_ok_keeps split: if_splits)
qed

definition envelope_log :: "smtp_log \<Rightarrow> bool \<Rightarrow> string list option \<Rightarrow> smtp_Config \<Rightarrow> Message \<Rightarrow> smtp_log" where
  "envelope_log pre t ext cfg msg =
     pre @ [(t, Command (mail_command (mc_FromEmail cfg) ext @ crlf))] @
     map (\<lambda>x. (t, Command (''RCPT TO:<'' @ x @ ''>'' @ crlf))) (mm_ToEmails msg) @ [(t, Command (''DATA'' @ crlf))]"

lemma envelope_success:
  assumes "run_state (steps (envelope_steps srv cfg msg)) c = (None, c')"
  shows "plain_line (mc_FromEmail cfg) \<and> (\<forall>x \<in> set (mm_ToEmails msg). plain_line x) \<and> cn_did_hello c' \<and>
    (\<exists>pre ext. cn_log c' = envelope_log pre (cn_tls c') ext cfg msg)"
proof -
  obtain c1 c2 c3 where c1: "run_state (smtp_Mail srv (mc_FromEmail cfg)) c1 = (None, c2)"
    and c2: "run_state (steps (map (smtp_Rcpt srv) (mm_ToEmails msg))) c2 = (None, c3)"
    and c3: "run_state (cmd_ok srv 354 ''DATA'') c3 = (None, c')"
    using assms unfolding envelope_steps_def run_steps_append
    by (auto simp: run_steps_append split: prod.splits option.splits if_splits)
  show ?thesis
    using Mail_success [OF c1] Rcpts_success [OF c2] cmd_ok_success [OF c3] by (auto simp: envelope_log_def)
qed

lemma rest_run:
  assumes "run_state (steps [data_Write srv m, data_Close srv, smtp_Quit srv]) c = (r, c')" and "cn_did_hello c"
  shows "\<exists>l. cn_log c' = cn_log c @ (cn_tls c, Payload (dot_writer WBegin m)) # l \<and>
     (l = [] \<or> l = [(cn_tls c, Command (''QUIT'' @ crlf))]) \<and> (r = None \<longrightarrow> l \<noteq> [])"
proof -
  let ?c = "logged (Payload (dot_writer WBegin m)) c"
  have "cn_did_hello ?c" using assms(2) by simp
  then show ?thesis
    using assms(1)
    by (auto simp: data_Write_def data_Close_def smtp_Quit_def hello_again cmd_ok_def smtp_cmd_def Let_def
        split: prod.splits option.splits sum.splits)
qed


section \<open>Witnesses\<close>

text \<open>A server that accepts everything.\<close>

definition accepting_server :: smtp_server where
  "accepting_server =
     \<lparr>ss_dial = (\<lambda>_. None),
      ss_reply = (\<lambda>log. Inr (if log = [] then 220
        else case snd (last log) of
          Command l \<Rightarrow> if HasPrefix l ''DATA'' then 354 else if HasPrefix l ''QUIT'' then 221
                       else if HasPrefix l ''STARTTLS'' then 220 else 250
        | Payload _ \<Rightarrow> 250, ''ok'')),
      ss_write = (\<lambda>_. None), ss_close = (\<lambda>_. None)\<rparr>"

definition sample_mailer :: smtp_Config where
  "sample_mailer = \<lparr>mc_Host = ''mail'', mc_Port = 587, mc_Username = '''', mc_Password = '''', mc_FromEmail = ''id@x'',
     mc_FromName = ''Identra'', mc_StartTLS = True, mc_AuthEnabled = False\<rparr>"

definition sample_mail :: Message where
  "sample_mail = \<lparr>mm_ToEmails = [''a@x''], mm_Subject = ''Code'', mm_Body = ''.1'', mm_IsHTML = False\<rparr>"

lemmas smtp_defs = smtp_StartTLS_def smtp_Mail_def smtp_Rcpt_def smtp_Quit_def hello_def ehlo_def helo_def cmd_ok_def
  smtp_cmd_def data_Write_def data_Close_def ReadResponse_def validateLine_def logged_def

lemma sample_sends:
  "fst (SendEmail accepting_server sample_mailer sample_mail) = None"
  "(False, Command (''STARTTLS'' @ crlf)) \<in> set (snd (SendEmail accepting_server sample_mailer sample_mail))"
  by (simp_all add: SendEmail_def mail_dialogue_def smtp_Dial_def sample_mailer_def sample_mail_def smtp_defs
      accepting_server_def HasPrefix_def code_expected_def mail_command_def Let_def)

theorem mail_secrets_encrypted_witness:
  "(False, Command (''STARTTLS'' @ crlf)) \<in> set (snd (SendEmail accepting_server sample_mailer sample_mail)) \<and>
   Command (''STARTTLS'' @ crlf) \<in> greetings"
  using mail_secrets_encrypted [OF sample_sends(2)] sample_sends(2) by (simp add: sample_mailer_def)


end
