(* ===== verification/App_Wiring.thy ===== *)
theory App_Wiring
  imports Key_File Mail Session_Replay
begin

text \<open>
  Putting the service together: \<^verbatim>\<open>internal/app\<close> and the Redis client factory of \<^verbatim>\<open>internal/cache/redis\<close>. The
  state is the host the process starts on: the database file, the disk, the world the stores work
  in, and whether the database is open.
\<close>

section \<open>Redis\<close>

datatype redis_client = Client string string | ClusterClient "string list" string

definition NewRDB :: "redis_Config \<Rightarrow> string + redis_client" where
  "NewRDB cfg =
     (case rcfg_Urls cfg of
        [] \<Rightarrow> Inl ''redisclient: no redis hosts configured''
      | [url] \<Rightarrow> Inr (Client url (rcfg_Password cfg))
      | urls \<Rightarrow> Inr (ClusterClient urls (rcfg_Password cfg)))"

record redisDependencies =
  rd_emailCodeStore :: redisEmailCodeStore
  rd_oauthStateStore :: redisOAuthStateStore
  rd_loginRateLimiter :: redisRateLimiter
  rd_sendCodeRateLimiter :: redisRateLimiter
  rd_refreshTokenRevocations :: redisRevocationStore
  rd_serviceTokenRateLimiter :: redisRateLimiter

abbreviation DefaultServiceTokenMaxAttempts :: int where "DefaultServiceTokenMaxAttempts \<equiv> 10"
abbreviation DefaultServiceTokenWindow :: go_duration where "DefaultServiceTokenWindow \<equiv> 15 * minute"

text \<open>\<^verbatim>\<open>x, err := ...; if err != nil { return fmt.Errorf(what + ": %w", err) }\<close> without effects.\<close>

definition try_wrapped :: "string \<Rightarrow> string + 'a \<Rightarrow> ('a \<Rightarrow> string + 'b) \<Rightarrow> string + 'b" where
  "try_wrapped what x f = (case x of Inl e \<Rightarrow> Inl (what @ '': '' @ e) | Inr a \<Rightarrow> f a)"

definition buildRedisDependencies :: "redis_Config \<Rightarrow> OAuthConfig \<Rightarrow> string + redisDependencies" where
  "buildRedisDependencies redisCfg oauthCfg =
     try_wrapped ''failed to initialize redis client'' (NewRDB redisCfg) (\<lambda>rdb.
     try_wrapped ''failed to initialize email code store'' (NewRedisEmailCodeStore (10 * minute) True) (\<lambda>emailStore.
     let stateTTL = (if co_StateExpirationDuration oauthCfg \<le> 0 then DefaultOAuthStateExpiration
                     else co_StateExpirationDuration oauthCfg)
     in try_wrapped ''failed to initialize oauth state store'' (NewRedisOAuthStateStore stateTTL True) (\<lambda>oauthStore.
     try_wrapped ''failed to initialize login rate limiter''
       (NewRedisRateLimiter True ''identra:rl:login:'' DefaultLoginMaxAttempts DefaultLoginLockoutDuration) (\<lambda>loginLimiter.
     try_wrapped ''failed to initialize send-code rate limiter''
       (NewRedisRateLimiter True ''identra:rl:send_code:'' DefaultSendCodeMaxAttempts DefaultSendCodeWindow) (\<lambda>sendCodeLimiter.
     try_wrapped ''failed to initialize refresh token revocation store''
       (NewRedisRefreshTokenRevocationStore True) (\<lambda>refreshRevocations.
     try_wrapped ''failed to initialize service-token rate limiter''
       (NewRedisRateLimiter True ''identra:rl:service_token:'' DefaultServiceTokenMaxAttempts DefaultServiceTokenWindow)
       (\<lambda>serviceTokenLimiter.
          Inr \<lparr>rd_emailCodeStore = emailStore, rd_oauthStateStore = oauthStore, rd_loginRateLimiter = loginLimiter,
               rd_sendCodeRateLimiter = sendCodeLimiter, rd_refreshTokenRevocations = refreshRevocations,
               rd_serviceTokenRateLimiter = serviceTokenLimiter\<rparr>)))))))"

section \<open>OAuth and mail\<close>

definition buildGithubOAuthConfig :: "OAuthConfig \<Rightarrow> oauth2_Config" where
  "buildGithubOAuthConfig cfg =
     \<lparr>oc_ClientID = co_GithubClientID cfg, oc_ClientSecret = co_GithubClientSecret cfg,
      oc_Scopes = [''read:user'', ''user:email''], oc_RedirectURL = ''''\<rparr>"

text \<open>A mailer is its configuration; without a host there is none.\<close>

definition buildMailer :: "smtp_Config \<Rightarrow> smtp_Config option" where
  "buildMailer cfg = (if TrimSpace (mc_Host cfg) = '''' then None else Some cfg)"

definition smtpMailerAdapter_SendEmail ::
  "smtp_server \<Rightarrow> smtp_Config \<Rightarrow> EmailMessage \<Rightarrow> smtp_error option \<times> smtp_log" where
  "smtpMailerAdapter_SendEmail srv sender message =
     SendEmail srv sender
       \<lparr>mm_ToEmails = em_ToEmails message, mm_Subject = em_Subject message, mm_Body = em_Body message,
        mm_IsHTML = em_IsHTML message\<rparr>"

section \<open>The host\<close>

record ('s, 'r) host =
  h_mig :: "'s mig_state"
  h_disk :: disk
  h_world :: "'r world"
  h_open :: bool

record ('s, 'r) host_env =
  he_mig :: "'s mig_env"
  he_embed :: embed_FS
  he_disk :: disk_env
  he_env :: "'r env"
  he_x509 :: x509_lib
  he_newkey :: "rsa_private option"

text \<open>Programs over one part of the host.\<close>

definition on_mig :: "('s mig_state, 'a) state \<Rightarrow> (('s, 'r) host, 'a) state" where
  "on_mig m = State (\<lambda>h. case run_state m (h_mig h) of (a, s) \<Rightarrow> (a, h\<lparr>h_mig := s\<rparr>))"

definition on_disk :: "(disk, 'a) state \<Rightarrow> (('s, 'r) host, 'a) state" where
  "on_disk m = State (\<lambda>h. case run_state m (h_disk h) of (a, s) \<Rightarrow> (a, h\<lparr>h_disk := s\<rparr>))"

definition on_world :: "('r world, 'a) state \<Rightarrow> (('s, 'r) host, 'a) state" where
  "on_world m = State (\<lambda>h. case run_state m (h_world h) of (a, s) \<Rightarrow> (a, h\<lparr>h_world := s\<rparr>))"

definition set_open :: "bool \<Rightarrow> (('s, 'r) host, unit) state" where
  "set_open b = State (\<lambda>h. ((), h\<lparr>h_open := b\<rparr>))"

definition buildStores :: "('s, 'r) host_env \<Rightarrow> PersistenceConfig \<Rightarrow> (('s, 'r) host, string + unit) state" where
  "buildStores H cfg = do {
     let repoType = ToLower (e_unicode_lower (he_env H)) (TrimSpace (pe_Type cfg));
     if repoType \<noteq> '''' \<and> repoType \<noteq> ''sqlite'' then
       State_Monad.return (Inl (''unsupported user repository type: '' @ pe_Type cfg))
     else do {
       r \<leftarrow> on_mig (sqlite_Open (he_mig H) (he_embed H) (pe_SQLite cfg));
       case r of
         Inl e \<Rightarrow> State_Monad.return (Inl (''failed to initialize sqlite database: '' @ e))
       | Inr _ \<Rightarrow> do { set_open True; State_Monad.return (Inr ()) }
     }
   }"

text \<open>
  Identifiers are ASCII (they match the scope pattern or are generated), so that ASCII case folding is
  what \<^verbatim>\<open>strings.EqualFold\<close> does to them.
\<close>

definition bootstrapServiceAccount :: "'r env \<Rightarrow> BootstrapConfig \<Rightarrow> ('r world, string + unit) state" where
  "bootstrapServiceAccount E cfg =
     (if \<not> cb_Enabled cfg then State_Monad.return (Inr ())
      else do {
        r \<leftarrow> Bootstrap E \<lparr>bq_Name = cb_Name cfg, bq_Scopes = cb_Scopes cfg, bq_ClientID = cb_ClientID cfg,
                          bq_ClientSecret = cb_ClientSecret cfg, bq_IfNotExists = True, bq_Force = False\<rparr>;
        State_Monad.return
          (case r of
             Inl e \<Rightarrow> Inl (''bootstrap configured service account: '' @ sa_text e)
           | Inr result \<Rightarrow>
               if \<not> EqualFold_ascii (ac_ID (bs_Account result)) (TrimSpace (cb_ClientID cfg))
               then Inl (''bootstrap service account '' @ Quote (e_unicode_quote E) (cb_Name cfg) @
                         '' already exists with a different client ID'')
               else Inr ())
      })"

definition server_info :: ServerInfo where
  "server_info =
     \<lparr>si_Version = ''dev'', si_Commit = ''unknown'', si_BuildDate = ''unknown'',
      si_SchemaVersion = nat CurrentSchemaVersion,
      si_Capabilities = [''auth.password'', ''auth.email_code'', ''auth.oauth.github'', ''service_accounts'',
                         ''user_management'', ''audit_events'']\<rparr>"

definition assemble :: "GRPCConfig \<Rightarrow> smtp_Config option \<Rightarrow> tokenKeys \<Rightarrow> redisDependencies \<Rightarrow> Dependencies" where
  "assemble cfg mailer keys redisDeps =
     \<lparr>dp_EmailCodeStore = Some (rd_emailCodeStore redisDeps),
      dp_OAuthStateStore = Some (rd_oauthStateStore redisDeps),
      dp_UserStore = True, dp_ExternalIdentityStore = True, dp_ServiceAccountStore = True,
      dp_KeyManager = Some (tk_manager keys), dp_TokenConfig = tk_tokenConfig keys,
      dp_GithubOAuthConfig = Some (buildGithubOAuthConfig (ca_OAuth (gc_Auth cfg))),
      dp_OAuthFetchEmailIfMissing = co_FetchEmailIfMissing (ca_OAuth (gc_Auth cfg)),
      dp_Mailer = (mailer \<noteq> None),
      dp_LoginRateLimiter = Some (rd_loginRateLimiter redisDeps),
      dp_SendCodeRateLimiter = Some (rd_sendCodeRateLimiter redisDeps),
      dp_RefreshTokenRevocations = Some (rd_refreshTokenRevocations redisDeps),
      dp_ServiceTokenRateLimiter = Some (rd_serviceTokenRateLimiter redisDeps),
      dp_AuditStore = True, dp_ServerInfo = server_info\<rparr>"

definition buildIdentraDependencies ::
  "('s, 'r) host_env \<Rightarrow> GRPCConfig \<Rightarrow> (('s, 'r) host, string + Dependencies) state" where
  "buildIdentraDependencies H cfg = do {
     let mailer = buildMailer (gc_SmtpMailer cfg);
     st \<leftarrow> buildStores H (gc_Persistence cfg);
     case st of
       Inl e \<Rightarrow> State_Monad.return (Inl e)
     | Inr _ \<Rightarrow> do {
         b \<leftarrow> on_world (bootstrapServiceAccount (he_env H) (gc_Bootstrap cfg));
         case b of
           Inl e \<Rightarrow> do { set_open False; State_Monad.return (Inl e) }
         | Inr _ \<Rightarrow> do {
             k \<leftarrow> on_disk (buildTokenKeys (he_disk H) (e_sha256 (he_env H)) (he_x509 H) (he_newkey H) (gc_Auth cfg));
             case k of
               Inl e \<Rightarrow> do { set_open False; State_Monad.return (Inl e) }
             | Inr keys \<Rightarrow>
                 (case buildRedisDependencies (gc_Redis cfg) (ca_OAuth (gc_Auth cfg)) of
                    Inl e \<Rightarrow> do { set_open False; State_Monad.return (Inl e) }
                  | Inr redisDeps \<Rightarrow> State_Monad.return (Inr (assemble cfg mailer keys redisDeps)))
           }
       }
   }"

definition app_NewService :: "('s, 'r) host_env \<Rightarrow> GRPCConfig \<Rightarrow> (('s, 'r) host, string + Service) state" where
  "app_NewService H cfg =
     (case GRPCConfig_Validate (e_unicode_lower (he_env H)) (e_unicode_quote (he_env H)) cfg of
        Some e \<Rightarrow> State_Monad.return (Inl (''invalid gRPC config: '' @ e))
      | None \<Rightarrow> do {
          d \<leftarrow> buildIdentraDependencies H cfg;
          State_Monad.return (case d of Inl e \<Rightarrow> Inl e | Inr deps \<Rightarrow> NewService deps)
        })"

section \<open>What a start-up leaves behind\<close>

text \<open>No other store has a key that may be a revocation mark.\<close>

definition separate_keys :: "redisDependencies \<Rightarrow> bool" where
  "separate_keys deps \<longleftrightarrow>
     (\<forall>i. \<forall>p \<in> {ecs_prefix (rd_emailCodeStore deps), rs_prefix (rd_oauthStateStore deps), rl_prefix (rd_loginRateLimiter deps),
                rl_prefix (rd_sendCodeRateLimiter deps), rl_prefix (rd_serviceTokenRateLimiter deps)}.
        outside p {rv_key (rd_refreshTokenRevocations deps) i})"

lemma buildRedisDependencies_ok:
  assumes "validateRedis (gc_Redis cfg) = None"
  shows "\<exists>deps. buildRedisDependencies (gc_Redis cfg) oauth = Inr deps \<and>
     rl_maxAttempts (rd_loginRateLimiter deps) = 5 \<and> rl_window (rd_loginRateLimiter deps) = 15 * minute \<and>
     0 < rs_ttl (rd_oauthStateStore deps) \<and> ecs_ttl (rd_emailCodeStore deps) = 10 * minute \<and> separate_keys deps"
proof -
  have "\<exists>rdb. NewRDB (gc_Redis cfg) = Inr rdb"
    using assms by (auto simp: NewRDB_def validateRedis_def split: list.splits if_splits)
  then show ?thesis
    by (auto simp: buildRedisDependencies_def try_wrapped_def NewRedisEmailCodeStore_def NewRedisOAuthStateStore_def
        NewRedisRateLimiter_def NewRedisRefreshTokenRevocationStore_def Let_def separate_keys_def outside_def rv_key_def)
qed

lemma buildTokenKeys_keys:
  assumes "run_state (buildTokenKeys D sha X gen cfg) d = (Inr keys, d')"
  shows "tc_PrivateKey (tk_tokenConfig keys) \<noteq> None" and "tc_PublicKey (tk_tokenConfig keys) \<noteq> None"
    and "tk_tokenConfig keys = token_config cfg (tk_manager keys)"
  using assms by (auto simp: buildTokenKeys_def Let_def split: prod.splits sum.splits if_splits)

lemma NewService_assemble:
  assumes "tc_PrivateKey (tk_tokenConfig keys) \<noteq> None" and "tc_PublicKey (tk_tokenConfig keys) \<noteq> None"
  shows "\<exists>S. NewService (assemble cfg mailer keys deps) = Inr S \<and> sv_tokenCfg S = tk_tokenConfig keys \<and>
     sv_keyManager S = tk_manager keys \<and> sv_loginRateLimiter S = Some (rd_loginRateLimiter deps) \<and>
     sv_sendCodeRateLimiter S = Some (rd_sendCodeRateLimiter deps) \<and>
     sv_refreshTokenRevocations S = Some (rd_refreshTokenRevocations deps) \<and>
     sv_serviceTokenRateLimiter S = Some (rd_serviceTokenRateLimiter deps) \<and>
     sv_emailCodeStore S = rd_emailCodeStore deps \<and> sv_oauthStateStore S = rd_oauthStateStore deps \<and> sv_mailer S = (mailer \<noteq> None)"
  using assms by (simp add: NewService_def assemble_def)

lemma PersistenceConfig_type:
  assumes "PersistenceConfig_Validate lower quote cfg = None"
  shows "ToLower lower (TrimSpace (pe_Type cfg)) \<in> {'''', ''sqlite''}" and "sqlite_Validate (pe_SQLite cfg) = None"
  using assms by (auto simp: PersistenceConfig_Validate_def Let_def split: if_splits)

lemma GRPCConfig_parts:
  assumes "GRPCConfig_Validate lower quote cfg = None"
  shows "validateRedis (gc_Redis cfg) = None" and "PersistenceConfig_Validate lower quote (gc_Persistence cfg) = None"
  using assms by (auto simp: GRPCConfig_Validate_def wrapped_def split: option.splits if_splits)

text \<open>What the start-up needs from outside: an openable database, an account, a signing key.\<close>

definition opens_db :: "('s, 'r) host_env \<Rightarrow> GRPCConfig \<Rightarrow> ('s, 'r) host \<Rightarrow> bool" where
  "opens_db H cfg h \<longleftrightarrow>
     fst (run_state (sqlite_Open (he_mig H) (he_embed H) (pe_SQLite (gc_Persistence cfg))) (h_mig h)) = Inr ()"

definition bootstraps :: "('s, 'r) host_env \<Rightarrow> GRPCConfig \<Rightarrow> ('s, 'r) host \<Rightarrow> bool" where
  "bootstraps H cfg h \<longleftrightarrow>
     fst (run_state (bootstrapServiceAccount (he_env H) (gc_Bootstrap cfg)) (h_world h)) = Inr ()"

definition has_keys :: "('s, 'r) host_env \<Rightarrow> GRPCConfig \<Rightarrow> ('s, 'r) host \<Rightarrow> bool" where
  "has_keys H cfg h \<longleftrightarrow>
     (\<exists>keys. fst (run_state (buildTokenKeys (he_disk H) (e_sha256 (he_env H)) (he_x509 H) (he_newkey H) (gc_Auth cfg)) (h_disk h)) = Inr keys)"

text \<open>A service that is complete: it signs with the ring's key and has every guard.\<close>

definition complete_service :: "GRPCConfig \<Rightarrow> Service \<Rightarrow> bool" where
  "complete_service cfg S \<longleftrightarrow>
     sv_tokenCfg S = token_config (gc_Auth cfg) (sv_keyManager S) \<and> tc_PrivateKey (sv_tokenCfg S) \<noteq> None \<and>
     sv_mailer S = (buildMailer (gc_SmtpMailer cfg) \<noteq> None) \<and> sv_refreshTokenRevocations S \<noteq> None \<and>
     sv_sendCodeRateLimiter S \<noteq> None \<and> sv_serviceTokenRateLimiter S \<noteq> None \<and>
     (\<exists>rl. sv_loginRateLimiter S = Some rl \<and> rl_maxAttempts rl = 5 \<and> rl_window rl = 15 * minute) \<and>
     0 < rs_ttl (sv_oauthStateStore S) \<and> ecs_ttl (sv_emailCodeStore S) = 10 * minute \<and>
     (\<exists>store. sv_refreshTokenRevocations S = Some store \<and> (\<forall>i. foreign_keys S {rv_key store i}))"

lemma buildIdentraDependencies_run:
  assumes "GRPCConfig_Validate (e_unicode_lower (he_env H)) (e_unicode_quote (he_env H)) cfg = None"
    and "run_state (buildIdentraDependencies H cfg) h = (r, h')" and "\<not> h_open h"
  shows "(\<exists>e. r = Inl e \<and> \<not> h_open h' \<and> \<not> (opens_db H cfg h \<and> bootstraps H cfg h \<and> has_keys H cfg h)) \<or>
         (\<exists>deps S. r = Inr deps \<and> h_open h' \<and> opens_db H cfg h \<and> bootstraps H cfg h \<and> has_keys H cfg h \<and>
            NewService deps = Inr S \<and> complete_service cfg S)"
proof -
  note parts = GRPCConfig_parts [OF assms(1)]
  have ty: "ToLower (e_unicode_lower (he_env H)) (TrimSpace (pe_Type (gc_Persistence cfg))) \<in> {'''', ''sqlite''}"
    using PersistenceConfig_type [OF parts(2)] by blast
  obtain deps where rd: "buildRedisDependencies (gc_Redis cfg) (ca_OAuth (gc_Auth cfg)) = Inr deps"
    "rl_maxAttempts (rd_loginRateLimiter deps) = 5" "rl_window (rd_loginRateLimiter deps) = 15 * minute"
    "0 < rs_ttl (rd_oauthStateStore deps)" "ecs_ttl (rd_emailCodeStore deps) = 10 * minute" "separate_keys deps"
    using buildRedisDependencies_ok [OF parts(1)] by blast
  obtain q m where q: "run_state (sqlite_Open (he_mig H) (he_embed H) (pe_SQLite (gc_Persistence cfg))) (h_mig h) = (q, m)"
    by (metis prod.collapse)
  obtain b w where b: "run_state (bootstrapServiceAccount (he_env H) (gc_Bootstrap cfg)) (h_world h) = (b, w)"
    by (metis prod.collapse)
  obtain k d where k: "run_state (buildTokenKeys (he_disk H) (e_sha256 (he_env H)) (he_x509 H) (he_newkey H) (gc_Auth cfg)) (h_disk h) = (k, d)"
    by (metis prod.collapse)
  have run: "run_state (buildStores H (gc_Persistence cfg)) h =
      (case q of Inl e \<Rightarrow> (Inl (''failed to initialize sqlite database: '' @ e), h\<lparr>h_mig := m\<rparr>)
       | Inr _ \<Rightarrow> (Inr (), h\<lparr>h_mig := m, h_open := True\<rparr>))"
    using ty q by (auto simp: buildStores_def on_mig_def set_open_def split: sum.splits)
  consider (no_db) e where "q = Inl e" | (no_account) e where "q = Inr ()" "b = Inl e"
    | (no_key) e where "q = Inr ()" "b = Inr ()" "k = Inl e" | (all) keys where "q = Inr ()" "b = Inr ()" "k = Inr keys"
    by (cases q; cases b; cases k) auto
  then show ?thesis
  proof cases
    case no_db
    then show ?thesis using assms(2,3) run q by (auto simp: buildIdentraDependencies_def opens_db_def)
  next
    case no_account
    then show ?thesis using assms(2,3) run q b
      by (auto simp: buildIdentraDependencies_def on_world_def set_open_def opens_db_def bootstraps_def)
  next
    case no_key
    then show ?thesis using assms(2,3) run q b k
      by (auto simp: buildIdentraDependencies_def on_world_def on_disk_def set_open_def has_keys_def)
  next
    case (all keys)
    note tk = buildTokenKeys_keys [OF k [unfolded all(3)]]
    let ?dd = "assemble cfg (buildMailer (gc_SmtpMailer cfg)) keys deps"
    have "r = Inr ?dd" "h_open h'"
      using assms(2) run q b k rd(1) all by (auto simp: buildIdentraDependencies_def on_world_def on_disk_def)
    moreover obtain S where S: "NewService ?dd = Inr S" "sv_tokenCfg S = tk_tokenConfig keys"
      "sv_keyManager S = tk_manager keys" "sv_loginRateLimiter S = Some (rd_loginRateLimiter deps)"
      "sv_sendCodeRateLimiter S = Some (rd_sendCodeRateLimiter deps)" "sv_refreshTokenRevocations S = Some (rd_refreshTokenRevocations deps)"
      "sv_serviceTokenRateLimiter S = Some (rd_serviceTokenRateLimiter deps)" "sv_emailCodeStore S = rd_emailCodeStore deps"
      "sv_oauthStateStore S = rd_oauthStateStore deps" "sv_mailer S = (buildMailer (gc_SmtpMailer cfg) \<noteq> None)"
      using NewService_assemble [OF tk(1,2)] by blast
    moreover have "complete_service cfg S"
      using tk(1,3) rd(2-6) by (auto simp: complete_service_def S(2-10) separate_keys_def foreign_keys_def)
    moreover have "opens_db H cfg h" "bootstraps H cfg h" "has_keys H cfg h"
      using q b k all by (simp_all add: opens_db_def bootstraps_def has_keys_def)
    ultimately show ?thesis by blast
  qed
qed

lemma app_NewService_closed:
  assumes "run_state (app_NewService H cfg) h = (Inl e, h')" and "\<not> h_open h"
  shows "\<not> h_open h'"
proof (cases "GRPCConfig_Validate (e_unicode_lower (he_env H)) (e_unicode_quote (he_env H)) cfg")
  case (Some x)
  then show ?thesis using assms by (simp add: app_NewService_def)
next
  case None
  obtain x h1 where x: "run_state (buildIdentraDependencies H cfg) h = (x, h1)" by (metis prod.collapse)
  have "(case x of Inl e \<Rightarrow> Inl e | Inr deps \<Rightarrow> NewService deps) = Inl e" "h' = h1"
    using assms(1) None x by (auto simp: app_NewService_def)
  with buildIdentraDependencies_run [OF None x assms(2)] show ?thesis by fastforce
qed

text \<open>
  (C25) Start-up is all or nothing. The service comes up exactly when its configuration is valid and
  the database opens, the configured account can be bootstrapped and there is a signing key. It then
  signs with the key of its ring and has its mailer as configured, its code and state stores with
  positive lifetimes, and every rate limiter and the revocation store, whose keys no other store can
  touch: no guard is silently missing.
  When it does not come up, the database is not left open.
\<close>

theorem startup_all_or_nothing:
  assumes "run_state (app_NewService H cfg) h = (r, h')" and "\<not> h_open h"
  shows "((\<exists>S. r = Inr S) \<longleftrightarrow>
            GRPCConfig_Validate (e_unicode_lower (he_env H)) (e_unicode_quote (he_env H)) cfg = None \<and>
            opens_db H cfg h \<and> bootstraps H cfg h \<and> has_keys H cfg h) \<and>
         (\<forall>S. r = Inr S \<longrightarrow> h_open h' \<and> complete_service cfg S) \<and> (\<forall>e. r = Inl e \<longrightarrow> \<not> h_open h')"
proof (cases "GRPCConfig_Validate (e_unicode_lower (he_env H)) (e_unicode_quote (he_env H)) cfg")
  case (Some e)
  then show ?thesis using assms by (auto simp: app_NewService_def)
next
  case None
  obtain x h1 where x: "run_state (buildIdentraDependencies H cfg) h = (x, h1)" by (metis prod.collapse)
  have "r = (case x of Inl e \<Rightarrow> Inl e | Inr deps \<Rightarrow> NewService deps)" "h' = h1"
    using assms(1) None x by (auto simp: app_NewService_def)
  with buildIdentraDependencies_run [OF None x assms(2)] None show ?thesis by fastforce
qed

section \<open>Witness\<close>

definition sample_config :: GRPCConfig where
  "sample_config =
     \<lparr>gc_GRPCPort = 50051, gc_Redis = \<lparr>rcfg_Urls = [''r''], rcfg_Password = ''''\<rparr>,
      gc_SmtpMailer = \<lparr>mc_Host = '''', mc_Port = 0, mc_Username = '''', mc_Password = '''', mc_FromEmail = '''',
                       mc_FromName = '''', mc_StartTLS = False, mc_AuthEnabled = False\<rparr>,
      gc_Persistence = \<lparr>pe_Type = ''sqlite'', pe_SQLite = \<lparr>sq_Path = ''data/users.db''\<rparr>\<rparr>,
      gc_Auth = sample_auth,
      gc_Bootstrap = \<lparr>cb_Enabled = False, cb_Name = '''', cb_ClientID = '''', cb_ClientSecret = '''', cb_Scopes = []\<rparr>\<rparr>"

definition sample_host_env :: "(string list, mem_redis_state) host_env" where
  "sample_host_env = \<lparr>he_mig = sample_mig, he_embed = migrationFiles id, he_disk = sample_disk_env, he_env = sample_env,
     he_x509 = sample_pem, he_newkey = Some key_a\<rparr>"

definition sample_host :: "(string list, mem_redis_state) host" where
  "sample_host = \<lparr>h_mig = sample_mig_state, h_disk = sample_disk, h_world = sample_world, h_open = False\<rparr>"

lemma sample_trims:
  "TrimSpace ''sqlite'' = ''sqlite''" "TrimSpace ''r'' = ''r''" "TrimSpace ''identra'' = ''identra''"
  by (simp_all add: TrimSpace_def strip_tokens_id lead_token_def space_runes_def)

lemma sample_config_valid:
  "GRPCConfig_Validate (e_unicode_lower sample_env) (e_unicode_quote sample_env) sample_config = None"
  using sample_auth_path
  by (simp add: GRPCConfig_Validate_def sample_config_def validateRedis_def validateMailer_def PersistenceConfig_Validate_def
      AuthConfig_Validate_def BootstrapConfig_Validate_def sqlite_Validate_def wrapped_def sample_auth_def
      sample_trims sample_path ToLower_def is_ascii_def lower_char_def)

lemma sample_starts:
  "opens_db sample_host_env sample_config sample_host" "bootstraps sample_host_env sample_config sample_host"
  "has_keys sample_host_env sample_config sample_host"
proof -
  have "\<exists>s'. run_state (sqlite_Open sample_mig (migrationFiles id) \<lparr>sq_Path = ''data/users.db''\<rparr>) sample_mig_state = (Inr (), s') \<and>
      ms_version s' = CurrentSchemaVersion \<and> ms_schema s' = migration_names"
    by (rule sqlite_Open_ok [OF _ _ sample_at_version]) (simp_all add: sample_path sample_mig_def migration_names_def)
  then show "opens_db sample_host_env sample_config sample_host"
    by (auto simp: opens_db_def sample_host_env_def sample_config_def sample_host_def)
  show "bootstraps sample_host_env sample_config sample_host"
    by (simp add: bootstraps_def sample_config_def bootstrapServiceAccount_def)
  have "e_sha256 sample_env = id" by (rule ext) simp
  then show "has_keys sample_host_env sample_config sample_host"
    using sample_build by (auto simp: has_keys_def sample_host_env_def sample_config_def sample_host_def)
qed

theorem startup_all_or_nothing_witness:
  "\<exists>S h'. run_state (app_NewService sample_host_env sample_config) sample_host = (Inr S, h') \<and>
     h_open h' \<and> complete_service sample_config S"
proof -
  obtain r h' where run: "run_state (app_NewService sample_host_env sample_config) sample_host = (r, h')"
    by (metis prod.collapse)
  have "\<not> h_open sample_host" "he_env sample_host_env = sample_env" by (simp_all add: sample_host_def sample_host_env_def)
  with startup_all_or_nothing [OF run] sample_config_valid sample_starts run show ?thesis by fastforce
qed

end
