(* ===== verification/Process_Startup.thy ===== *)
theory Process_Startup
  imports Configuration Sample_Env
begin

text \<open>
  \<^verbatim>\<open>internal/bootstrap\<close>: what a process does before it serves (find its configuration, set up logging), and
  the log attributes that travel with a request. The attributes are a Go slice kept in the context, so
  they are modelled with their backing arrays: appending to a slice that has room writes into an array
  that another context may share.
\<close>

section \<open>Logging set-up\<close>

datatype slog_Level = LevelDebug | LevelInfo | LevelWarn | LevelError

datatype log_handler = JSONHandler slog_Level | TextHandler slog_Level | TintHandler slog_Level

definition stringToSlogLevel :: "string \<Rightarrow> slog_Level" where
  "stringToSlogLevel level =
     (if level = ''debug'' then LevelDebug else if level = ''info'' then LevelInfo
      else if level = ''warn'' then LevelWarn else if level = ''error'' then LevelError else LevelInfo)"

definition initLog :: "'v viper_lib \<Rightarrow> 'v \<Rightarrow> log_handler" where
  "initLog V v =
     (let logLevel = stringToSlogLevel (vp_GetString V v ''log.level'');
          format = vp_GetString V v ''log.format''
      in if format = ''json'' then JSONHandler logLevel
         else if format = ''plain-text'' then TextHandler logLevel
         else TintHandler logLevel)"

fun handler_level :: "log_handler \<Rightarrow> slog_Level" where
  "handler_level (JSONHandler l) = l"
| "handler_level (TextHandler l) = l"
| "handler_level (TintHandler l) = l"

text \<open>\<^verbatim>\<open>slog.Info\<close> is dropped by a handler whose level is above it.\<close>

definition info_enabled :: "log_handler \<Rightarrow> bool" where
  "info_enabled h \<longleftrightarrow> handler_level h = LevelDebug \<or> handler_level h = LevelInfo"

datatype log_value = LogString string | LogInt int | LogUint nat | LogStrings "string list"

type_synonym log_line = "string \<times> (string \<times> log_value) list"

definition logGRPCConfig :: "'v viper_lib \<Rightarrow> 'v \<Rightarrow> log_line" where
  "logGRPCConfig V v =
     (''gRPC server configuration'',
      [(''grpc_port'', LogUint (vp_GetUint V v ''grpc_port'')),
       (''persistence.type'', LogString (vp_GetString V v ''persistence.type'')),
       (''persistence.sqlite.path'', LogString (vp_GetString V v ''persistence.sqlite.path'')),
       (''redis.urls'', LogStrings (vp_GetStringSlice V v ''redis.urls'')),
       (''smtp_mailer.host'', LogString (vp_GetString V v ''smtp_mailer.host'')),
       (''smtp_mailer.port'', LogInt (vp_GetInt V v ''smtp_mailer.port'')),
       (''auth.oauth_state_expiration'', LogString (vp_GetString V v ''auth.oauth_state_expiration'')),
       (''auth.access_token_expiration'', LogString (vp_GetString V v ''auth.access_token_expiration'')),
       (''auth.refresh_token_expiration'', LogString (vp_GetString V v ''auth.refresh_token_expiration'')),
       (''auth.service_token_expiration'', LogString (vp_GetString V v ''auth.service_token_expiration'')),
       (''auth.token_issuer'', LogString (vp_GetString V v ''auth.token_issuer''))])"

definition logConfig :: "'v viper_lib \<Rightarrow> string \<Rightarrow> 'v \<Rightarrow> log_line list" where
  "logConfig V cmdName v =
     (''Configuration loaded'',
      [(''log.level'', LogString (vp_GetString V v ''log.level'')),
       (''log.format'', LogString (vp_GetString V v ''log.format''))]) #
     (if cmdName = ''serve'' then [logGRPCConfig V v] else [])"

section \<open>Initialisation\<close>

record 'v app_init =
  ai_cmdName :: string
  ai_config :: 'v
  ai_handler :: log_handler
  ai_log :: "log_line list"

definition InitWithConfigPathE :: "'v viper_lib \<Rightarrow> string \<Rightarrow> string \<Rightarrow> string + 'v app_init" where
  "InitWithConfigPathE V cmd configPath =
     (case initConfig V configPath of
        Inl e \<Rightarrow> Inl e
      | Inr v \<Rightarrow>
          let handler = initLog V v
          in Inr \<lparr>ai_cmdName = cmd, ai_config = v, ai_handler = handler,
                  ai_log = (if info_enabled handler then logConfig V cmd v @ [(''APP initialized'', [])] else [])\<rparr>)"

definition InitE ::
  "'v viper_lib \<Rightarrow> string + string \<Rightarrow> (string \<Rightarrow> bool) \<Rightarrow> string \<Rightarrow> string + 'v app_init" where
  "InitE V getwd stat cmd =
     (case getwd of
        Inl e \<Rightarrow> Inl e
      | Inr workdir \<Rightarrow> InitWithConfigPathE V cmd (findRootWorkdir stat workdir))"

section \<open>Log attributes of a request\<close>

type_synonym log_attr = "string \<times> string"

record slice =
  sl_array :: nat
  sl_len :: nat
  sl_cap :: nat

text \<open>The heap is the list of backing arrays; a slice names one of them.\<close>

type_synonym attr_heap = "log_attr list list"

definition elems :: "attr_heap \<Rightarrow> slice \<Rightarrow> log_attr list" where
  "elems h s = (if sl_len s = 0 then [] else take (sl_len s) (h ! sl_array s))"

text \<open>
  \<^verbatim>\<open>append\<close>: into the array behind the slice when it has room, otherwise into a new array with the
  capacity that the runtime chooses, which is at least what is needed.
\<close>

definition append_slice ::
  "(nat \<Rightarrow> nat \<Rightarrow> nat) \<Rightarrow> slice \<Rightarrow> log_attr list \<Rightarrow> attr_heap \<Rightarrow> slice \<times> attr_heap" where
  "append_slice grow s xs h =
     (let need = sl_len s + length xs
      in if need \<le> sl_cap s
         then (s\<lparr>sl_len := need\<rparr>,
               if xs = [] then h
               else h[sl_array s := take (sl_len s) (h ! sl_array s) @ xs @ drop need (h ! sl_array s)])
         else let room = max (grow (sl_cap s) need) need
              in (\<lparr>sl_array = length h, sl_len = need, sl_cap = room\<rparr>,
                  h @ [elems h s @ xs @ replicate (room - need) ('''', '''')]))"

definition empty_slice :: slice where
  "empty_slice = \<lparr>sl_array = 0, sl_len = 0, sl_cap = 0\<rparr>"

definition WithLogAttrs ::
  "(nat \<Rightarrow> nat \<Rightarrow> nat) \<Rightarrow> slice option \<Rightarrow> log_attr list \<Rightarrow> attr_heap \<Rightarrow> slice option \<times> attr_heap" where
  "WithLogAttrs grow ctx attrs h =
     (case append_slice grow (case ctx of None \<Rightarrow> empty_slice | Some s \<Rightarrow> s) attrs h of (s, h') \<Rightarrow> (Some s, h'))"

text \<open>The attributes of the record that the wrapped handler gets.\<close>

definition logHandler_Handle ::
  "string \<Rightarrow> string \<Rightarrow> slice option \<Rightarrow> attr_heap \<Rightarrow> log_attr list \<Rightarrow> log_attr list" where
  "logHandler_Handle cmdName hostname ctx h attrs =
     attrs @ (if cmdName \<noteq> '''' then [(''cmd'', cmdName)] else []) @
     (if hostname \<noteq> '''' then [(''hostname'', hostname)] else []) @
     (case ctx of None \<Rightarrow> [] | Some s \<Rightarrow> elems h s)"

text \<open>
  The interceptor around a handler: the handler's answer, and the response header. A failure to set
  the header is only logged.
\<close>

definition requestID :: "'r env \<Rightarrow> (string \<Rightarrow> string list) \<Rightarrow> ('r world, string) state" where
  "requestID E md =
     (let ids = md ''x-request-id''
      in if ids \<noteq> [] \<and> hd ids \<noteq> '''' then State_Monad.return (hd ids) else uuid_NewString E)"

definition BuildRequestIDInterceptor ::
  "'r env \<Rightarrow> (nat \<Rightarrow> nat \<Rightarrow> nat) \<Rightarrow> (string \<Rightarrow> string list) \<Rightarrow> slice option \<Rightarrow>
   (slice option \<Rightarrow> attr_heap \<Rightarrow> ('r world, 'a) state) \<Rightarrow> attr_heap \<Rightarrow>
   ('r world, 'a \<times> (string \<times> string) \<times> slice option \<times> attr_heap) state" where
  "BuildRequestIDInterceptor E grow md ctx handler h = do {
     rid \<leftarrow> requestID E md;
     let (ctx1, h1) = WithLogAttrs grow ctx [(''request_id'', rid)] h;
     resp \<leftarrow> handler ctx1 h1;
     State_Monad.return (resp, (''x-request-id'', rid), ctx1, h1)
   }"

section \<open>Attributes stay with their request\<close>

definition valid_slice :: "attr_heap \<Rightarrow> slice \<Rightarrow> bool" where
  "valid_slice h s \<longleftrightarrow> sl_len s \<le> sl_cap s \<and>
     (sl_cap s = 0 \<or> (sl_array s < length h \<and> length (h ! sl_array s) = sl_cap s))"

lemma append_slice_elems:
  assumes "valid_slice h s" and "append_slice grow s xs h = (s', h')"
  shows "elems h' s' = elems h s @ xs" and "valid_slice h' s'"
  using assms
  by (cases xs; auto simp: append_slice_def valid_slice_def elems_def Let_def min_def split: if_splits)+

lemma append_slice_full:
  assumes "valid_slice h t" and "append_slice grow s xs h = (s', h')" and "sl_cap s < sl_len s + length xs"
  shows "elems h' t = elems h t"
  using assms by (auto simp: append_slice_def valid_slice_def elems_def Let_def nth_append)


text \<open>
  The guarantee is only for contexts made from one without attributes: from a context whose slice has
  room left, the second of two derived contexts overwrites the attribute of the first.
\<close>

lemma derived_contexts_share:
  "let (p, h0) = WithLogAttrs (\<lambda>cap need. 2 * cap) (Some \<lparr>sl_array = 0, sl_len = 2, sl_cap = 2\<rparr>) [(''c'', ''3'')]
                   [[(''a'', ''1''), (''b'', ''2'')]];
       (a, h1) = WithLogAttrs (\<lambda>cap need. 2 * cap) p [(''user'', ''alice'')] h0;
       (b, h2) = WithLogAttrs (\<lambda>cap need. 2 * cap) p [(''user'', ''bob'')] h1
   in logHandler_Handle '''' '''' a h1 [] = [(''a'', ''1''), (''b'', ''2''), (''c'', ''3''), (''user'', ''alice'')] \<and>
      logHandler_Handle '''' '''' a h2 [] = [(''a'', ''1''), (''b'', ''2''), (''c'', ''3''), (''user'', ''bob'')]"
  by (simp add: WithLogAttrs_def append_slice_def elems_def logHandler_Handle_def)

section \<open>Secrets stay out of the log\<close>

definition secret_keys :: "string set" where
  "secret_keys = {''redis.password'', ''smtp_mailer.username'', ''smtp_mailer.password'', ''auth.rsa_private_key'',
     ''auth.github.client_id'', ''auth.github.client_secret'', ''bootstrap.service_account.client_id'',
     ''bootstrap.service_account.client_secret''}"

definition same_but_secrets :: "'v viper_lib \<Rightarrow> 'v \<Rightarrow> 'v \<Rightarrow> bool" where
  "same_but_secrets V v v' \<longleftrightarrow>
     (\<forall>k. k \<notin> secret_keys \<longrightarrow>
        vp_GetString V v k = vp_GetString V v' k \<and> vp_GetUint V v k = vp_GetUint V v' k \<and>
        vp_GetInt V v k = vp_GetInt V v' k \<and> vp_GetStringSlice V v k = vp_GetStringSlice V v' k)"


section \<open>Witnesses\<close>

definition two_requests_heap :: attr_heap where
  "two_requests_heap = snd (WithLogAttrs (\<lambda>cap need. 2 * cap) None [(''request_id'', ''r-0'')] [])"

definition sample_intercept where
  "sample_intercept = run_state (BuildRequestIDInterceptor sample_env (\<lambda>cap need. 2 * cap)
     (\<lambda>k. if k = ''x-request-id'' then [''r-1''] else []) None (\<lambda>_ _. State_Monad.return ()) two_requests_heap) sample_world"


text \<open>A viper in which the Redis password depends on the directory of the configuration.\<close>

definition two_files :: "(string \<Rightarrow> cfg_value option) viper_lib" where
  "two_files = sample_viper\<lparr>vp_AddConfigPath := (\<lambda>p v. v(''redis.password'' \<mapsto> CfgString p))\<rparr>"


end
