(* ===== verification/Go_Flag.thy ===== *)
theory Go_Flag
  imports Go_Strings Identra_Prelude "HOL-Library.AList"
begin

text \<open>
  What the command line uses of Go's \<^verbatim>\<open>flag\<close> package (with \<^verbatim>\<open>ContinueOnError\<close>) and of \<^verbatim>\<open>strconv\<close> for it. A flag
  set is the list of its flags with their current values. The help text that goes to the error output
  is left out. \<^verbatim>\<open>time.ParseDuration\<close> computes with floating-point numbers and is a parameter.
\<close>

section \<open>Numbers\<close>

datatype num_result = NumOk nat | NumSyntax | NumRange

definition alnum_digit :: "char \<Rightarrow> nat option" where
  "alnum_digit c =
     (let n = of_char c :: nat; l = of_char (lower_char c) :: nat
      in if 48 \<le> n \<and> n \<le> 57 then Some (n - 48)
         else if 97 \<le> l \<and> l \<le> 122 then Some (l - 97 + 10) else None)"

text \<open>The digits in the given base; an underscore is skipped.\<close>

fun uint_digits :: "nat \<Rightarrow> nat \<Rightarrow> string \<Rightarrow> num_result" where
  "uint_digits base n [] = NumOk n"
| "uint_digits base n (c # cs) =
     (if c = CHR ''_'' then uint_digits base n cs
      else case alnum_digit c of
             None \<Rightarrow> NumSyntax
           | Some d \<Rightarrow> if base \<le> d then NumSyntax
                       else if 2 ^ 64 \<le> n * base + d then NumRange
                       else uint_digits base (n * base + d) cs)"

definition uint_prefix :: "string \<Rightarrow> nat \<times> string" where
  "uint_prefix s =
     (if hd s = CHR ''0''
      then if 3 \<le> length s \<and> lower_char (s ! 1) = CHR ''b'' then (2, drop 2 s)
           else if 3 \<le> length s \<and> lower_char (s ! 1) = CHR ''o'' then (8, drop 2 s)
           else if 3 \<le> length s \<and> lower_char (s ! 1) = CHR ''x'' then (16, drop 2 s)
           else (8, drop 1 s)
      else (10, s))"

text \<open>Underscores only between digits; the last character seen is a digit, an underscore or neither.\<close>

datatype seen = SeenDigit | SeenUnderscore | SeenOther

fun underscores_ok :: "bool \<Rightarrow> seen \<Rightarrow> string \<Rightarrow> bool" where
  "underscores_ok hexa i [] \<longleftrightarrow> i \<noteq> SeenUnderscore"
| "underscores_ok hexa i (c # cs) \<longleftrightarrow>
     (if (case alnum_digit c of None \<Rightarrow> False | Some d \<Rightarrow> d < (if hexa then 16 else 10))
      then underscores_ok hexa SeenDigit cs
      else if c = CHR ''_'' then i = SeenDigit \<and> underscores_ok hexa SeenUnderscore cs
      else i \<noteq> SeenUnderscore \<and> underscores_ok hexa SeenOther cs)"

definition underscoreOK :: "string \<Rightarrow> bool" where
  "underscoreOK s =
     (if 2 \<le> length s \<and> hd s = CHR ''0'' \<and> lower_char (s ! 1) \<in> {CHR ''b'', CHR ''o'', CHR ''x''}
      then underscores_ok (lower_char (s ! 1) = CHR ''x'') SeenDigit (drop 2 s)
      else underscores_ok False SeenOther s)"

definition ParseUint :: "string \<Rightarrow> num_result" where
  "ParseUint s =
     (if s = '''' then NumSyntax
      else case uint_prefix s of (base, ds) \<Rightarrow>
        (case uint_digits base 0 ds of
           NumOk n \<Rightarrow> if CHR ''_'' \<in> set ds \<and> \<not> underscoreOK s then NumSyntax else NumOk n
         | r \<Rightarrow> r))"

definition ParseBool :: "string \<Rightarrow> bool option" where
  "ParseBool s =
     (if s \<in> {''1'', ''t'', ''T'', ''true'', ''TRUE'', ''True''} then Some True
      else if s \<in> {''0'', ''f'', ''F'', ''false'', ''FALSE'', ''False''} then Some False
      else None)"

section \<open>Flags\<close>

datatype flag_value = FString string | FBool bool | FDuration go_duration | FUint nat | FList "string list"

type_synonym flag_set = "(string \<times> flag_value) list"

fun is_bool_flag :: "flag_value \<Rightarrow> bool" where
  "is_bool_flag (FBool _) = True"
| "is_bool_flag _ = False"

fun set_value :: "(string \<Rightarrow> go_duration option) \<Rightarrow> flag_value \<Rightarrow> string \<Rightarrow> string + flag_value" where
  "set_value dur (FString _) s = Inr (FString s)"
| "set_value dur (FBool _) s = (case ParseBool s of None \<Rightarrow> Inl ''parse error'' | Some b \<Rightarrow> Inr (FBool b))"
| "set_value dur (FDuration _) s = (case dur s of None \<Rightarrow> Inl ''parse error'' | Some d \<Rightarrow> Inr (FDuration d))"
| "set_value dur (FUint _) s =
     (case ParseUint s of NumOk n \<Rightarrow> Inr (FUint n) | NumSyntax \<Rightarrow> Inl ''parse error'' | NumRange \<Rightarrow> Inl ''value out of range'')"
| "set_value dur (FList xs) s = Inr (FList (xs @ [s]))"

text \<open>The name of a flag argument without its dashes and, after an equals sign, its value.\<close>

definition split_flag :: "string \<Rightarrow> string \<times> string option" where
  "split_flag name =
     (case Cut (tl name) (CHR ''='') of
        Some (a, b) \<Rightarrow> (hd name # a, Some b)
      | None \<Rightarrow> (name, None))"

definition flag_name :: "string \<Rightarrow> string" where
  "flag_name s = (if s ! 1 = CHR ''-'' then drop 2 s else drop 1 s)"

fun parse_flags ::
  "(string \<Rightarrow> go_duration option) \<Rightarrow> (string \<Rightarrow> string) \<Rightarrow> flag_set \<Rightarrow> string list \<Rightarrow> string + flag_set \<times> string list" where
  "parse_flags dur quote fs [] = Inr (fs, [])"
| "parse_flags dur quote fs (s # args) =
     (if length s < 2 \<or> hd s \<noteq> CHR ''-'' then Inr (fs, s # args)
      else if s = ''--'' then Inr (fs, args)
      else if flag_name s = '''' \<or> hd (flag_name s) = CHR ''-'' \<or> hd (flag_name s) = CHR ''=''
        then Inl (''bad flag syntax: '' @ s)
      else
        let (name, val) = split_flag (flag_name s) in
        case map_of fs name of
          None \<Rightarrow>
            if name = ''help'' \<or> name = ''h'' then Inl ''flag: help requested''
            else Inl (''flag provided but not defined: -'' @ name)
        | Some cur \<Rightarrow>
            if is_bool_flag cur then
              (case set_value dur cur (case val of Some x \<Rightarrow> x | None \<Rightarrow> ''true'') of
                 Inl e \<Rightarrow> Inl (''invalid boolean value '' @ Quote quote (case val of Some x \<Rightarrow> x | None \<Rightarrow> ''true'') @ '' for -'' @ name @ '': '' @ e)
               | Inr new \<Rightarrow> parse_flags dur quote (AList.update name new fs) args)
            else
              (case (val, args) of
                 (Some x, _) \<Rightarrow>
                   (case set_value dur cur x of
                      Inl e \<Rightarrow> Inl (''invalid value '' @ Quote quote x @ '' for flag -'' @ name @ '': '' @ e)
                    | Inr new \<Rightarrow> parse_flags dur quote (AList.update name new fs) args)
               | (None, []) \<Rightarrow> Inl (''flag needs an argument: -'' @ name)
               | (None, x # rest) \<Rightarrow>
                   (case set_value dur cur x of
                      Inl e \<Rightarrow> Inl (''invalid value '' @ Quote quote x @ '' for flag -'' @ name @ '': '' @ e)
                    | Inr new \<Rightarrow> parse_flags dur quote (AList.update name new fs) rest)))"

text \<open>The value of a flag, with the default of its type when there is no such flag.\<close>

definition get_string :: "flag_set \<Rightarrow> string \<Rightarrow> string" where
  "get_string fs name = (case map_of fs name of Some (FString s) \<Rightarrow> s | _ \<Rightarrow> '''')"

definition get_bool :: "flag_set \<Rightarrow> string \<Rightarrow> bool" where
  "get_bool fs name = (case map_of fs name of Some (FBool b) \<Rightarrow> b | _ \<Rightarrow> False)"

definition get_duration :: "flag_set \<Rightarrow> string \<Rightarrow> go_duration" where
  "get_duration fs name = (case map_of fs name of Some (FDuration d) \<Rightarrow> d | _ \<Rightarrow> 0)"

definition get_uint :: "flag_set \<Rightarrow> string \<Rightarrow> nat" where
  "get_uint fs name = (case map_of fs name of Some (FUint n) \<Rightarrow> n | _ \<Rightarrow> 0)"

definition get_list :: "flag_set \<Rightarrow> string \<Rightarrow> string list" where
  "get_list fs name = (case map_of fs name of Some (FList xs) \<Rightarrow> xs | _ \<Rightarrow> [])"

section \<open>Numbers read back\<close>

lemma alnum_digit_char: "d < 10 \<Longrightarrow> alnum_digit (digit_char d) = Some d"
  by (simp add: alnum_digit_def)

lemma digit_not_underscore: "d < 10 \<Longrightarrow> digit_char d \<noteq> CHR ''_''"
proof
  assume "d < 10" "digit_char d = CHR ''_''"
  then have "(of_char (CHR ''_'') :: nat) = 48 + d" using of_char_digit [of d] by simp
  then show False using \<open>d < 10\<close> by simp
qed

lemma uint_digits_append:
  "uint_digits b n (xs @ ys) = (case uint_digits b n xs of NumOk m \<Rightarrow> uint_digits b m ys | r \<Rightarrow> r)"
  by (induction xs arbitrary: n) (auto split: option.splits)

lemma uint_digits_dec: "uint_digits 10 0 (dec_digits n) = (if n < 2 ^ 64 then NumOk n else NumRange)"
proof (induction n rule: dec_digits.induct)
  case (1 n)
  have step: "uint_digits 10 m [digit_char d] = (if m * 10 + d < 2 ^ 64 then NumOk (m * 10 + d) else NumRange)"
    if "d < 10" for m d
    using that by (simp add: alnum_digit_char digit_not_underscore)
  show ?case
  proof (cases "n < 10")
    case True
    then show ?thesis using step [of n 0] by (subst dec_digits.simps) simp
  next
    case False
    then have ih: "uint_digits 10 0 (dec_digits (n div 10)) = (if n div 10 < 2 ^ 64 then NumOk (n div 10) else NumRange)"
      by (rule 1)
    have "n div 10 * 10 + n mod 10 = n" by simp
    moreover have "dec_digits n = dec_digits (n div 10) @ [digit_char (n mod 10)]"
      using False by (subst dec_digits.simps) simp
    moreover have "n mod 10 < 10" by simp
    ultimately show ?thesis
      using ih step [of "n mod 10" "n div 10"] by (auto simp: uint_digits_append)
  qed
qed

lemma hd_dec_digits: "0 < n \<Longrightarrow> hd (dec_digits n) \<noteq> CHR ''0''"
proof (induction n rule: dec_digits.induct)
  case (1 n)
  show ?case
  proof (cases "n < 10")
    case True
    have "of_char (digit_char n) = (48 + n :: nat)" using True by simp
    moreover have "of_char (CHR ''0'') = (48 :: nat)" by simp
    ultimately have "digit_char n \<noteq> CHR ''0''" using "1.prems" by (metis add_cancel_right_right less_numeral_extra(3))
    then show ?thesis using True by (subst dec_digits.simps) simp
  next
    case False
    then have "hd (dec_digits (n div 10)) \<noteq> CHR ''0''" by (intro "1.IH") simp_all
    then show ?thesis using False by (subst dec_digits.simps) simp
  qed
qed

lemma no_underscore: "CHR ''_'' \<notin> set (dec_digits n)"
  using dec_digits_all [of "CHR ''_''" n] digit_not_underscore by force

lemma ParseUint_dec: "ParseUint (dec_digits n) = (if n < 2 ^ 64 then NumOk n else NumRange)"
proof (cases "n = 0")
  case True
  have "digit_char 0 = CHR ''0''" by code_simp
  then have "dec_digits 0 = ''0''" by (simp add: dec_digits.simps)
  then show ?thesis using True by (simp add: ParseUint_def uint_prefix_def)
next
  case False
  then have "uint_prefix (dec_digits n) = (10, dec_digits n)" using hd_dec_digits by (simp add: uint_prefix_def)
  then show ?thesis using uint_digits_dec [of n] no_underscore by (simp add: ParseUint_def)
qed

end
