(* ===== verification/Command_Line.thy ===== *)
theory Command_Line
  imports App_Wiring Process_Startup Go_Flag Service_Authorization
begin

text \<open>
  \<^verbatim>\<open>cmd/identra\<close>: the commands of the program. The state of a run is the host, what was printed, and what
  happened to the gRPC server. A command that talks to a running server does so through the transport,
  a parameter: the call is not sent, or it is handled by the server's handler and the answer arrives or
  gets lost. Marshalling of answers is a parameter; help on the error output is left out.
\<close>

section \<open>The surrounding\<close>

datatype rpc_outcome = Answered | NotSent string | AnswerLost string

datatype cli_response =
    RespToken Token
  | RespCreated pb_ServiceAccount string string
  | RespAccounts "pb_ServiceAccount list"
  | RespAccount pb_ServiceAccount
  | RespRotated string string
  | RespAudit "pb_AuditEvent list" string
  | RespInfo ServerInfo

datatype serve_result = ServeOk | ServerStopped | ServeFailed string

text \<open>How serving ends: the server returns by itself, or a signal arrives and the graceful stop is done in time or not.\<close>

datatype serve_wait = ServeEnded serve_result | Signalled bool serve_result

datatype server_event = Health bool | Listening nat | GracefulStop | ForcedStop | ServiceClosed

record ('s, 'r) proc =
  pr_host :: "('s, 'r) host"
  pr_stdout :: string
  pr_server :: "server_event list"

record ('s, 'r, 'v) cli_env =
  ce_host :: "('s, 'r) host_env"
  ce_viper :: "'v viper_lib"
  ce_Getwd :: "string + string"
  ce_stat :: "string \<Rightarrow> bool"
  ce_Getenv :: "string \<Rightarrow> string"
  ce_ReadFile :: "string \<Rightarrow> string + bytes"
  ce_ParseDuration :: "string \<Rightarrow> go_duration option"
  ce_stdout :: "string \<Rightarrow> string option"
  ce_stderr :: "string \<Rightarrow> string option"
  ce_NewClient :: "string \<Rightarrow> bool \<Rightarrow> string option"
  ce_rpc :: "string \<Rightarrow> bool \<Rightarrow> go_duration \<Rightarrow> (string \<times> string) list \<Rightarrow> rpc_outcome"
  ce_crash :: string
  ce_server :: Service
  ce_protojson :: "cli_response \<Rightarrow> string + string"
  ce_json :: "BootstrapResult \<Rightarrow> string"
  ce_listen :: "nat \<Rightarrow> string option"
  ce_calls :: "rpc_call list"
  ce_wait :: serve_wait

type_synonym ('s, 'r) cmd = "(('s, 'r) proc, string option) state"

definition on_host :: "(('s, 'r) host, 'a) state \<Rightarrow> (('s, 'r) proc, 'a) state" where
  "on_host m = State (\<lambda>p. case run_state m (pr_host p) of (a, h) \<Rightarrow> (a, p\<lparr>pr_host := h\<rparr>))"

definition server_does :: "server_event \<Rightarrow> (('s, 'r) proc, unit) state" where
  "server_does ev = State (\<lambda>p. ((), p\<lparr>pr_server := pr_server p @ [ev]\<rparr>))"

definition cmd_fail :: "string \<Rightarrow> ('s, 'r) cmd" where
  "cmd_fail e = State_Monad.return (Some e)"

definition write_stdout :: "('s, 'r, 'v) cli_env \<Rightarrow> string \<Rightarrow> ('s, 'r) cmd" where
  "write_stdout C text = State (\<lambda>p.
     case ce_stdout C text of
       Some e \<Rightarrow> (Some e, p)
     | None \<Rightarrow> (None, p\<lparr>pr_stdout := pr_stdout p @ text\<rparr>))"

abbreviation newline :: char where "newline \<equiv> CHR 0x0A"

definition usage_text :: string where
  "usage_text =
     ''Usage:'' @ [newline] @
     ''  identra serve'' @ [newline] @
     ''  identra bootstrap service-account --name NAME --scope SCOPE [--scope SCOPE...]'' @ [newline] @
     ''  identra token service --client-id ID [--client-secret-file FILE]'' @ [newline] @
     ''  identra service-account create|list|disable|rotate [options]'' @ [newline] @
     ''  identra audit list [options]'' @ [newline] @
     ''  identra server-info [options]'' @ [newline] @
     ''  identra version'' @ [newline]"

section \<open>Calling a server\<close>

fun code_text :: "code \<Rightarrow> string" where
  "code_text InvalidArgument = ''InvalidArgument''"
| "code_text NotFound = ''NotFound''"
| "code_text AlreadyExists = ''AlreadyExists''"
| "code_text PermissionDenied = ''PermissionDenied''"
| "code_text ResourceExhausted = ''ResourceExhausted''"
| "code_text FailedPrecondition = ''FailedPrecondition''"
| "code_text Internal = ''Internal''"
| "code_text Unauthenticated = ''Unauthenticated''"

fun rpc_text :: "string \<Rightarrow> rpc_error \<Rightarrow> string" where
  "rpc_text crash (Status c msg) = ''rpc error: code = '' @ code_text c @ '' desc = '' @ msg"
| "rpc_text crash Panicked = crash"

definition defaultEndpoint :: string where
  "defaultEndpoint = ''localhost:50051''"

record grpcClientFlags =
  cf_endpoint :: string
  cf_tls :: bool
  cf_timeout :: go_duration

definition addGRPCClientFlags :: "('s, 'r, 'v) cli_env \<Rightarrow> flag_set" where
  "addGRPCClientFlags C =
     (let env = TrimSpace (ce_Getenv C ''IDENTRA_ENDPOINT'')
      in [(''endpoint'', FString (if env = '''' then defaultEndpoint else env)), (''tls'', FBool False),
          (''timeout'', FDuration (15 * second))])"

definition client_flags :: "flag_set \<Rightarrow> grpcClientFlags" where
  "client_flags fs =
     \<lparr>cf_endpoint = get_string fs ''endpoint'', cf_tls = get_bool fs ''tls'', cf_timeout = get_duration fs ''timeout''\<rparr>"

definition connect :: "('s, 'r, 'v) cli_env \<Rightarrow> grpcClientFlags \<Rightarrow> string option" where
  "connect C f =
     (if TrimSpace (cf_endpoint f) = '''' then Some ''endpoint is required''
      else case ce_NewClient C (cf_endpoint f) (cf_tls f) of
             Some e \<Rightarrow> Some (''create gRPC client: '' @ e)
           | None \<Rightarrow> None)"

definition remote ::
  "('s, 'r, 'v) cli_env \<Rightarrow> grpcClientFlags \<Rightarrow> (string \<times> string) list \<Rightarrow> ('r, 'a) rpc \<Rightarrow> (('s, 'r) proc, string + 'a) state" where
  "remote C f md m =
     (case ce_rpc C (cf_endpoint f) (cf_tls f) (cf_timeout f) md of
        NotSent e \<Rightarrow> State_Monad.return (Inl e)
      | AnswerLost e \<Rightarrow> do { _ \<leftarrow> on_host (on_world m); State_Monad.return (Inl e) }
      | Answered \<Rightarrow> do {
          r \<leftarrow> on_host (on_world m);
          State_Monad.return (case r of Inl e \<Rightarrow> Inl (rpc_text (ce_crash C) e) | Inr a \<Rightarrow> Inr a)
        })"

text \<open>The metadata with the token, and how the server reads it.\<close>

definition bearer_metadata :: "string \<Rightarrow> (string \<times> string) list" where
  "bearer_metadata token = [(''authorization'', ''Bearer '' @ token)]"

definition incoming :: "(string \<times> string) list \<Rightarrow> rpc_ctx" where
  "incoming md = (\<lambda>k. map snd (filter (\<lambda>(k', _). k' = k) md))"

definition writeProtoJSON :: "('s, 'r, 'v) cli_env \<Rightarrow> cli_response \<Rightarrow> ('s, 'r) cmd" where
  "writeProtoJSON C m =
     (case ce_protojson C m of
        Inl e \<Rightarrow> cmd_fail (''encode response: '' @ e)
      | Inr text \<Rightarrow> write_stdout C (text @ [newline]))"

definition readSecret :: "('s, 'r, 'v) cli_env \<Rightarrow> string \<Rightarrow> string \<Rightarrow> string + string" where
  "readSecret C path environmentName =
     (if TrimSpace path \<noteq> ''''
      then case ce_ReadFile C path of
             Inl e \<Rightarrow> Inl (''read secret file: '' @ e)
           | Inr value0 \<Rightarrow>
               if TrimSpace value0 \<noteq> '''' then Inr (TrimSpace value0) else Inl ''secret file is empty''
      else if TrimSpace (ce_Getenv C environmentName) \<noteq> '''' then Inr (TrimSpace (ce_Getenv C environmentName))
      else Inl (''secret is required through --token-file/--client-secret-file or '' @ environmentName))"

definition unexpected :: "string list \<Rightarrow> string" where
  "unexpected args = ''unexpected arguments: '' @ join_with (CHR '' '') args"

definition parse_for :: "('s, 'r, 'v) cli_env \<Rightarrow> flag_set \<Rightarrow> string list \<Rightarrow> string + flag_set \<times> string list" where
  "parse_for C fs args = parse_flags (ce_ParseDuration C) (e_unicode_quote (he_env (ce_host C))) fs args"

section \<open>Commands that call a server\<close>

abbreviation server_env :: "('s, 'r, 'v) cli_env \<Rightarrow> 'r env" where
  "server_env C \<equiv> he_env (ce_host C)"

definition runTokenCommand :: "('s, 'r, 'v) cli_env \<Rightarrow> string list \<Rightarrow> ('s, 'r) cmd" where
  "runTokenCommand C args =
     (if args = [] \<or> hd args \<noteq> ''service''
      then cmd_fail ''usage: identra token service --client-id ID [--client-secret-file FILE]''
      else case parse_for C
             (addGRPCClientFlags C @
              [(''client-id'', FString (TrimSpace (ce_Getenv C ''IDENTRA_CLIENT_ID''))), (''client-secret-file'', FString '''')])
             (tl args) of
        Inl e \<Rightarrow> cmd_fail e
      | Inr (fs, rest) \<Rightarrow>
          if rest \<noteq> [] then cmd_fail (unexpected rest)
          else case readSecret C (get_string fs ''client-secret-file'') ''IDENTRA_CLIENT_SECRET'' of
            Inl e \<Rightarrow> cmd_fail e
          | Inr secret \<Rightarrow>
              if TrimSpace (get_string fs ''client-id'') = '''' then cmd_fail ''client ID is required''
              else case connect C (client_flags fs) of
                Some e \<Rightarrow> cmd_fail e
              | None \<Rightarrow> do {
                  r \<leftarrow> remote C (client_flags fs) []
                         (ExchangeServiceToken (server_env C) (ce_server C) (get_string fs ''client-id'') secret);
                  case r of
                    Inl e \<Rightarrow> cmd_fail (''exchange service token: '' @ e)
                  | Inr response \<Rightarrow> writeProtoJSON C (RespToken response)
                })"

definition callServiceAccountRPC ::
  "('s, 'r, 'v) cli_env \<Rightarrow> flag_set \<Rightarrow> string list \<Rightarrow> (rpc_ctx \<Rightarrow> ('r, cli_response) rpc) \<Rightarrow>
   (('s, 'r) proc, string + cli_response) state" where
  "callServiceAccountRPC C fs rest invoke =
     (if rest \<noteq> [] then State_Monad.return (Inl (unexpected rest))
      else case readSecret C (get_string fs ''token-file'') ''IDENTRA_SERVICE_TOKEN'' of
        Inl e \<Rightarrow> State_Monad.return (Inl e)
      | Inr token \<Rightarrow>
          (case connect C (client_flags fs) of
             Some e \<Rightarrow> State_Monad.return (Inl e)
           | None \<Rightarrow> do {
               r \<leftarrow> remote C (client_flags fs) (bearer_metadata token) (invoke (incoming (bearer_metadata token)));
               State_Monad.return (case r of Inl e \<Rightarrow> Inl (''service-account RPC: '' @ e) | Inr a \<Rightarrow> Inr a)
             }))"

definition answered :: "('a \<Rightarrow> cli_response) \<Rightarrow> ('r, 'a) rpc \<Rightarrow> ('r, cli_response) rpc" where
  "answered f m = do { r \<leftarrow> m; State_Monad.return (case r of Inl e \<Rightarrow> Inl e | Inr a \<Rightarrow> Inr (f a)) }"

definition account_command ::
  "('s, 'r, 'v) cli_env \<Rightarrow> flag_set \<Rightarrow> string list \<Rightarrow> (flag_set \<Rightarrow> rpc_ctx \<Rightarrow> ('r, cli_response) rpc) \<Rightarrow> ('s, 'r) cmd" where
  "account_command C flags args invoke =
     (case parse_for C flags args of
        Inl e \<Rightarrow> cmd_fail e
      | Inr (fs, rest) \<Rightarrow> do {
          r \<leftarrow> callServiceAccountRPC C fs rest (invoke fs);
          case r of Inl e \<Rightarrow> cmd_fail e | Inr response \<Rightarrow> writeProtoJSON C response
        })"

definition runServiceAccountCreate :: "('s, 'r, 'v) cli_env \<Rightarrow> string list \<Rightarrow> ('s, 'r) cmd" where
  "runServiceAccountCreate C args =
     account_command C
       (addGRPCClientFlags C @ [(''name'', FString ''''), (''token-file'', FString ''''), (''scope'', FList [])]) args
       (\<lambda>fs ctx. answered (\<lambda>(a, i, secret). RespCreated a i secret)
          (CreateServiceAccount (server_env C) (ce_server C) ctx (get_string fs ''name'') (get_list fs ''scope'')))"

definition runServiceAccountList :: "('s, 'r, 'v) cli_env \<Rightarrow> string list \<Rightarrow> ('s, 'r) cmd" where
  "runServiceAccountList C args =
     account_command C (addGRPCClientFlags C @ [(''token-file'', FString '''')]) args
       (\<lambda>fs ctx. answered RespAccounts (ListServiceAccounts (server_env C) (ce_server C) ctx))"

definition runServiceAccountByID ::
  "('s, 'r, 'v) cli_env \<Rightarrow> string list \<Rightarrow> (rpc_ctx \<Rightarrow> string \<Rightarrow> ('r, cli_response) rpc) \<Rightarrow> ('s, 'r) cmd" where
  "runServiceAccountByID C args invoke =
     account_command C
       (addGRPCClientFlags C @ [(''client-id'', FString ''''), (''token-file'', FString '''')]) args
       (\<lambda>fs ctx. invoke ctx (TrimSpace (get_string fs ''client-id'')))"

definition runServiceAccountDisable :: "('s, 'r, 'v) cli_env \<Rightarrow> string list \<Rightarrow> ('s, 'r) cmd" where
  "runServiceAccountDisable C args =
     runServiceAccountByID C args (\<lambda>ctx clientID.
       answered RespAccount (DisableServiceAccount (server_env C) (ce_server C) ctx clientID))"

definition runServiceAccountRotate :: "('s, 'r, 'v) cli_env \<Rightarrow> string list \<Rightarrow> ('s, 'r) cmd" where
  "runServiceAccountRotate C args =
     runServiceAccountByID C args (\<lambda>ctx clientID.
       answered (\<lambda>(i, secret). RespRotated i secret)
         (RotateServiceAccountSecret (server_env C) (ce_server C) ctx clientID))"

definition runServiceAccountCommand :: "('s, 'r, 'v) cli_env \<Rightarrow> string list \<Rightarrow> ('s, 'r) cmd" where
  "runServiceAccountCommand C args =
     (case args of
        [] \<Rightarrow> cmd_fail ''usage: identra service-account create|list|disable|rotate''
      | cmd # rest \<Rightarrow>
          if cmd = ''create'' then runServiceAccountCreate C rest
          else if cmd = ''list'' then runServiceAccountList C rest
          else if cmd = ''disable'' then runServiceAccountDisable C rest
          else if cmd = ''rotate'' then runServiceAccountRotate C rest
          else cmd_fail (''unknown service-account command '' @ Quote (e_unicode_quote (server_env C)) cmd))"

definition runAuditCommand :: "('s, 'r, 'v) cli_env \<Rightarrow> string list \<Rightarrow> ('s, 'r) cmd" where
  "runAuditCommand C args =
     (if args = [] \<or> hd args \<noteq> ''list''
      then cmd_fail ''usage: identra audit list [--page-size N] [--page-token TOKEN]''
      else case parse_for C
             (addGRPCClientFlags C @ [(''token-file'', FString ''''), (''page-size'', FUint 50), (''page-token'', FString '''')])
             (tl args) of
        Inl e \<Rightarrow> cmd_fail e
      | Inr (fs, rest) \<Rightarrow>
          if rest \<noteq> [] then cmd_fail (unexpected rest)
          else case readSecret C (get_string fs ''token-file'') ''IDENTRA_SERVICE_TOKEN'' of
            Inl e \<Rightarrow> cmd_fail e
          | Inr token \<Rightarrow>
              (case connect C (client_flags fs) of
                 Some e \<Rightarrow> cmd_fail e
               | None \<Rightarrow> do {
                   r \<leftarrow> remote C (client_flags fs) (bearer_metadata token)
                          (ListAuditEvents (server_env C) (ce_server C) (incoming (bearer_metadata token))
                             (word_of_nat (get_uint fs ''page-size'')) (TrimSpace (get_string fs ''page-token'')));
                   case r of
                     Inl e \<Rightarrow> cmd_fail (''list audit events: '' @ e)
                   | Inr (events, next_token) \<Rightarrow> writeProtoJSON C (RespAudit events next_token)
                 }))"

definition runServerInfoCommand :: "('s, 'r, 'v) cli_env \<Rightarrow> string list \<Rightarrow> ('s, 'r) cmd" where
  "runServerInfoCommand C args =
     (case parse_for C (addGRPCClientFlags C) args of
        Inl e \<Rightarrow> cmd_fail e
      | Inr (fs, rest) \<Rightarrow>
          if rest \<noteq> [] then cmd_fail (unexpected rest)
          else case connect C (client_flags fs) of
            Some e \<Rightarrow> cmd_fail e
          | None \<Rightarrow> do {
              r \<leftarrow> remote C (client_flags fs) [] (reply (GetServerInfo (ce_server C)));
              case r of
                Inl e \<Rightarrow> cmd_fail (''get server info: '' @ e)
              | Inr info \<Rightarrow> writeProtoJSON C (RespInfo info)
            })"

section \<open>Bootstrap\<close>

fun strings_Join :: "string list \<Rightarrow> string \<Rightarrow> string" where
  "strings_Join [] sep = ''''"
| "strings_Join [s] sep = s"
| "strings_Join (s # t # ts) sep = s @ sep @ strings_Join (t # ts) sep"

definition bootstrap_report :: "('s, 'r, 'v) cli_env \<Rightarrow> BootstrapResult \<Rightarrow> string" where
  "bootstrap_report C result =
     (if \<not> bs_Created result
      then ''Service account '' @ Quote (e_unicode_quote (server_env C)) (ac_Name (bs_Account result)) @
           '' already exists (client_id: '' @ ac_ID (bs_Account result) @ ''); no new secret was created.'' @ [newline]
      else ''Service account created. Store the client secret now; it will not be shown again.'' @ [newline, newline] @
           ''client_id:     '' @ ac_ID (bs_Account result) @ [newline] @
           ''client_secret: '' @ bs_ClientSecret result @ [newline] @
           ''scopes:        '' @ strings_Join (ac_Scopes (bs_Account result)) '', '' @ [newline])"

definition runBootstrap :: "('s, 'r, 'v) cli_env \<Rightarrow> string list \<Rightarrow> ('s, 'r) cmd" where
  "runBootstrap C args =
     (if args = [] \<or> hd args \<noteq> ''service-account''
      then cmd_fail ''usage: identra bootstrap service-account --name NAME --scope SCOPE''
      else case parse_for C
             [(''name'', FString ''''), (''if-not-exists'', FBool False), (''force'', FBool False),
              (''output'', FString ''human''), (''scope'', FList [])] (tl args) of
        Inl e \<Rightarrow> cmd_fail e
      | Inr (fs, rest) \<Rightarrow>
          if rest \<noteq> [] then cmd_fail (unexpected rest)
          else if get_string fs ''output'' \<noteq> ''human'' \<and> get_string fs ''output'' \<noteq> ''json''
            then cmd_fail ''output must be human or json''
          else case InitE (ce_viper C) (ce_Getwd C) (ce_stat C) ''bootstrap'' of
            Inl e \<Rightarrow> cmd_fail (''initialize application: '' @ e)
          | Inr app \<Rightarrow>
              let persistence = LoadPersistence (ce_viper C) (ai_config app)
              in case PersistenceConfig_Validate (e_unicode_lower (server_env C)) (e_unicode_quote (server_env C)) persistence of
                Some e \<Rightarrow> cmd_fail (''invalid persistence config: '' @ e)
              | None \<Rightarrow> do {
                  r \<leftarrow> on_host (on_mig (sqlite_Open (he_mig (ce_host C)) (he_embed (ce_host C)) (pe_SQLite persistence)));
                  case r of
                    Inl e \<Rightarrow> cmd_fail e
                  | Inr _ \<Rightarrow> do {
                      on_host (set_open True);
                      b \<leftarrow> on_host (on_world (Bootstrap (server_env C)
                             \<lparr>bq_Name = get_string fs ''name'', bq_Scopes = get_list fs ''scope'', bq_ClientID = '''',
                              bq_ClientSecret = '''', bq_IfNotExists = get_bool fs ''if-not-exists'',
                              bq_Force = get_bool fs ''force''\<rparr>));
                      e \<leftarrow> (case b of
                             Inl e \<Rightarrow> cmd_fail (sa_text e)
                           | Inr result \<Rightarrow>
                               write_stdout C (if get_string fs ''output'' = ''json'' then ce_json C result
                                               else bootstrap_report C result));
                      on_host (set_open False);
                      State_Monad.return e
                    }
                })"

section \<open>Serving\<close>

fun serve_error :: "serve_result \<Rightarrow> string option" where
  "serve_error ServeOk = None"
| "serve_error ServerStopped = None"
| "serve_error (ServeFailed e) = Some (''serve gRPC: '' @ e)"

text \<open>The end of serving. A signal takes the health status back before the server stops.\<close>

definition await_end :: "serve_wait \<Rightarrow> (('s, 'r) proc, string option) state" where
  "await_end wait =
     (case wait of
        ServeEnded r \<Rightarrow> State_Monad.return (serve_error r)
      | Signalled in_time r \<Rightarrow> do {
          server_does (Health False);
          server_does GracefulStop;
          (if in_time then State_Monad.return () else server_does ForcedStop);
          State_Monad.return (serve_error r)
        })"

text \<open>While the server runs it handles calls; they are given, in the order they take effect.\<close>

definition handle_calls :: "'r env \<Rightarrow> Service \<Rightarrow> rpc_call list \<Rightarrow> ('r world, unit) state" where
  "handle_calls E S calls = State (\<lambda>w. ((), fold (serve E S) calls w))"

definition serve_command :: "('s, 'r, 'v) cli_env \<Rightarrow> ('s, 'r) cmd" where
  "serve_command C =
     (case InitE (ce_viper C) (ce_Getwd C) (ce_stat C) ''serve'' of
        Inl e \<Rightarrow> cmd_fail (''initialize application: '' @ e)
      | Inr app \<Rightarrow>
          let cfg = LoadGRPC (ce_viper C) (ai_config app)
          in case GRPCConfig_Validate (e_unicode_lower (server_env C)) (e_unicode_quote (server_env C)) cfg of
            Some e \<Rightarrow> cmd_fail (''invalid gRPC config: '' @ e)
          | None \<Rightarrow> do {
              s \<leftarrow> on_host (app_NewService (ce_host C) cfg);
              case s of
                Inl e \<Rightarrow> cmd_fail (''create identra service: '' @ e)
              | Inr authService \<Rightarrow> do {
                  server_does (Health True);
                  e \<leftarrow> (case ce_listen C (gc_GRPCPort cfg) of
                         Some e \<Rightarrow> cmd_fail (''listen on gRPC port: '' @ e)
                       | None \<Rightarrow> do {
                           server_does (Listening (gc_GRPCPort cfg));
                           on_host (on_world (handle_calls (server_env C) authService (ce_calls C)));
                           await_end (ce_wait C)
                         });
                  on_host (set_open False);
                  server_does ServiceClosed;
                  State_Monad.return e
                }
            })"

section \<open>Dispatch\<close>

definition run_command :: "('s, 'r, 'v) cli_env \<Rightarrow> string list \<Rightarrow> ('s, 'r) cmd" where
  "run_command C args =
     (case args of
        [] \<Rightarrow>
          (case ce_stderr C usage_text of Some e \<Rightarrow> cmd_fail e | None \<Rightarrow> cmd_fail ''a command is required'')
      | cmd # rest \<Rightarrow>
          if cmd = ''serve''
          then if rest \<noteq> [] then cmd_fail ''serve does not accept arguments'' else serve_command C
          else if cmd = ''bootstrap'' then runBootstrap C rest
          else if cmd = ''token'' then runTokenCommand C rest
          else if cmd = ''service-account'' then runServiceAccountCommand C rest
          else if cmd = ''audit'' then runAuditCommand C rest
          else if cmd = ''server-info'' then runServerInfoCommand C rest
          else if cmd \<in> {''version'', ''--version'', ''-v''}
            then write_stdout C (''identra dev (commit unknown, built unknown)'' @ [newline])
          else if cmd \<in> {''help'', ''--help'', ''-h''} then write_stdout C usage_text
          else (case ce_stderr C usage_text of
                  Some e \<Rightarrow> cmd_fail e
                | None \<Rightarrow> cmd_fail (''unknown command '' @ Quote (e_unicode_quote (server_env C)) cmd)))"

text \<open>\<^verbatim>\<open>main\<close>: an error goes to the error output and makes the exit status 1.\<close>

definition main_exit :: "('s, 'r, 'v) cli_env \<Rightarrow> string list \<Rightarrow> (('s, 'r) proc, nat \<times> string) state" where
  "main_exit C args = do {
     r \<leftarrow> run_command C args;
     State_Monad.return (case r of None \<Rightarrow> (0, '''') | Some e \<Rightarrow> (1, ''identra: '' @ e @ [newline]))
   }"

section \<open>What a command does to the data\<close>

definition world_of :: "('s, 'r) proc \<Rightarrow> 'r world" where
  "world_of p = h_world (pr_host p)"

text \<open>The program calls at most one handler of the server, or bootstraps, and does nothing else to the data.\<close>

definition one_call :: "('s, 'r, 'v) cli_env \<Rightarrow> (('s, 'r) proc, 'a) state \<Rightarrow> bool" where
  "one_call C m \<longleftrightarrow> (\<forall>p. world_of (snd (run_state m p)) = world_of p \<or>
     (\<exists>c. world_of (snd (run_state m p)) = serve (server_env C) (ce_server C) c (world_of p)))"

lemma one_call_keeps: "keeps world_of m \<Longrightarrow> one_call C m"
  by (simp add: one_call_def keeps_def)

lemma one_call_bind:
  assumes "one_call C m" and "\<And>a. keeps world_of (f a)"
  shows "one_call C (State_Monad.bind m f)"
  unfolding one_call_def
proof
  fix p
  obtain a p1 where m: "run_state m p = (a, p1)" by (metis prod.collapse)
  have "world_of (snd (run_state (f a) p1)) = world_of p1" using assms(2) by (simp add: keeps_def)
  then show "world_of (snd (run_state (State_Monad.bind m f) p)) = world_of p \<or>
      (\<exists>c. world_of (snd (run_state (State_Monad.bind m f) p)) = serve (server_env C) (ce_server C) c (world_of p))"
    using assms(1) m unfolding one_call_def by (metis run_state_bind snd_conv case_prod_conv)
qed

lemma one_call_after:
  assumes "keeps world_of m" and "\<And>a. one_call C (f a)"
  shows "one_call C (State_Monad.bind m f)"
  unfolding one_call_def
proof
  fix p
  obtain a p1 where m: "run_state m p = (a, p1)" by (metis prod.collapse)
  have "world_of p1 = world_of p" using assms(1) m by (metis keepsD)
  then show "world_of (snd (run_state (State_Monad.bind m f) p)) = world_of p \<or>
      (\<exists>c. world_of (snd (run_state (State_Monad.bind m f) p)) = serve (server_env C) (ce_server C) c (world_of p))"
    using assms(2) [of a] m unfolding one_call_def by (metis run_state_bind snd_conv case_prod_conv)
qed

lemma keeps_cmd [frame]:
  "keeps world_of (cmd_fail e)" "keeps world_of (write_stdout C text)" "keeps world_of (writeProtoJSON C m)"
  "keeps world_of (on_host (set_open b))" "keeps world_of (on_host (on_mig mig))" "keeps world_of (server_does ev)"
proof -
  have ws: "keeps world_of (write_stdout C s)" and cf: "keeps world_of (cmd_fail s)" for s
    by (auto simp: keeps_def write_stdout_def cmd_fail_def world_of_def split: option.splits)
  show "keeps world_of (cmd_fail e)" "keeps world_of (write_stdout C text)" by (rule cf, rule ws)
  show "keeps world_of (writeProtoJSON C m)" using ws cf by (auto simp: writeProtoJSON_def split: sum.splits)
qed (auto simp: keeps_def on_host_def set_open_def on_mig_def server_does_def world_of_def split: prod.splits)

lemma world_of_on_world: "world_of (snd (run_state (on_host (on_world m)) p)) = effect_of m (world_of p)"
  by (auto simp: on_host_def on_world_def effect_of_def world_of_def split: prod.splits)

lemma one_call_world:
  assumes "\<And>w. \<exists>c. effect_of m w = serve (server_env C) (ce_server C) c w"
  shows "one_call C (on_host (on_world m))"
  using assms by (simp add: one_call_def world_of_on_world)

lemma one_call_remote:
  assumes "\<And>w. \<exists>c. effect_of m w = serve (server_env C) (ce_server C) c w"
  shows "one_call C (remote C f md m)"
proof -
  note call = one_call_world [OF assms]
  show ?thesis
    unfolding remote_def
    by (cases "ce_rpc C (cf_endpoint f) (cf_tls f) (cf_timeout f) md")
      (simp_all add: one_call_bind [OF call] one_call_keeps keeps_return)
qed

lemma effect_of_answered [simp]: "effect_of (answered f m) = effect_of m"
  by (rule ext) (auto simp: effect_of_def answered_def split: prod.splits)

lemma one_call_cmd_fail: "one_call C (cmd_fail e)"
  by (rule one_call_keeps) (rule keeps_cmd)

lemma one_call_account:
  assumes "\<And>fs ctx w. \<exists>c. effect_of (invoke fs ctx) w = serve (server_env C) (ce_server C) c w"
  shows "one_call C (account_command C flags args invoke)"
proof -
  have "one_call C (callServiceAccountRPC C fs rest (invoke fs))" for fs rest
  proof -
    have "one_call C (remote C f md (invoke fs ctx))" for f md ctx by (rule one_call_remote) (rule assms)
    then show ?thesis
      unfolding callServiceAccountRPC_def
      by (auto intro!: one_call_bind one_call_keeps [OF keeps_return] keeps_return split: sum.splits option.splits)
  qed
  then have "one_call C (do { r \<leftarrow> callServiceAccountRPC C fs rest (invoke fs);
      case r of Inl e \<Rightarrow> cmd_fail e | Inr response \<Rightarrow> writeProtoJSON C response })" for fs rest
    by (rule one_call_bind) (auto intro: keeps_cmd split: sum.splits)
  then show ?thesis
    unfolding account_command_def by (auto intro: one_call_cmd_fail split: sum.splits)
qed

lemma serve_is_call:
  "\<exists>c. effect_of (ExchangeServiceToken E S i s) w = serve E S c w"
  "\<exists>c. effect_of (CreateServiceAccount E S ctx n scs) w = serve E S c w"
  "\<exists>c. effect_of (ListServiceAccounts E S ctx) w = serve E S c w"
  "\<exists>c. effect_of (DisableServiceAccount E S ctx i) w = serve E S c w"
  "\<exists>c. effect_of (RotateServiceAccountSecret E S ctx i) w = serve E S c w"
  "\<exists>c. effect_of (ListAuditEvents E S ctx sz t) w = serve E S c w"
  "\<exists>c. effect_of (Bootstrap E req) w = serve E S c w"
  using serve.simps by metis+

lemma one_call_accounts: "one_call C (runServiceAccountCommand C args)"
proof -
  have "one_call C (runServiceAccountCreate C rest)" "one_call C (runServiceAccountList C rest)"
    "one_call C (runServiceAccountDisable C rest)" "one_call C (runServiceAccountRotate C rest)" for rest
    unfolding runServiceAccountCreate_def runServiceAccountList_def runServiceAccountDisable_def
      runServiceAccountRotate_def runServiceAccountByID_def
    by (rule one_call_account; simp add: serve_is_call)+
  then show ?thesis
    by (auto simp: runServiceAccountCommand_def intro: one_call_cmd_fail split: list.splits)
qed

lemma one_call_token: "one_call C (runTokenCommand C args)"
proof -
  have "one_call C (remote C f md (ExchangeServiceToken (server_env C) (ce_server C) i s))" for f md i s
    by (rule one_call_remote) (rule serve_is_call)
  then show ?thesis
    unfolding runTokenCommand_def
    by (auto intro!: one_call_bind one_call_cmd_fail keeps_cmd split: sum.splits option.splits prod.splits)
qed

lemma one_call_audit: "one_call C (runAuditCommand C args)"
proof -
  have "one_call C (remote C f md (ListAuditEvents (server_env C) (ce_server C) ctx sz t))" for f md ctx sz t
    by (rule one_call_remote) (rule serve_is_call)
  then show ?thesis
    unfolding runAuditCommand_def
    by (auto intro!: one_call_bind one_call_cmd_fail keeps_cmd split: sum.splits option.splits prod.splits)
qed

lemma one_call_info: "one_call C (runServerInfoCommand C args)"
proof -
  have "keeps world_of (on_host (on_world (reply a)))" for a
    by (simp add: keeps_def on_host_def on_world_def reply_def world_of_def)
  then have "keeps world_of (remote C f md (reply a))" for f md a
    unfolding remote_def by (auto intro!: frame split: rpc_outcome.splits)
  then have "one_call C (do { r \<leftarrow> remote C f md (reply a);
      case r of Inl e \<Rightarrow> cmd_fail (''get server info: '' @ e) | Inr info \<Rightarrow> writeProtoJSON C (RespInfo info) })" for f md a
    by (intro one_call_keeps frame)
  then show ?thesis
    unfolding runServerInfoCommand_def by (auto intro: one_call_cmd_fail split: sum.splits option.splits)
qed

lemma one_call_if: "one_call C m \<Longrightarrow> one_call C n \<Longrightarrow> one_call C (if b then m else n)"
  by simp

lemma one_call_usage: "one_call C (case x of Some e \<Rightarrow> cmd_fail e | None \<Rightarrow> cmd_fail e')"
  by (cases x) (simp_all add: one_call_cmd_fail)

lemma one_call_bootstrap: "one_call C (runBootstrap C args)"
proof -
  have b: "one_call C (on_host (on_world (Bootstrap (server_env C) req)))" for req
    by (rule one_call_world) (rule serve_is_call)
  show ?thesis
    unfolding runBootstrap_def Let_def
    by (auto intro!: one_call_cmd_fail one_call_after [OF keeps_cmd(5)] one_call_after [OF keeps_cmd(4)] one_call_bind [OF b] frame
        split: sum.splits option.splits prod.splits)
qed


section \<open>Page sizes\<close>

text \<open>The command once its flags have been read.\<close>

definition audit_flags :: "('s, 'r, 'v) cli_env \<Rightarrow> nat \<Rightarrow> flag_set" where
  "audit_flags C n =
     addGRPCClientFlags C @ [(''token-file'', FString ''''), (''page-size'', FUint n), (''page-token'', FString '''')]"

lemma audit_flags_parse:
  "parse_for C (audit_flags C 50) [''--page-size'', dec_digits n] =
     (if n < 2 ^ 64 then Inr (audit_flags C n, [])
      else Inl (''invalid value '' @ Quote (e_unicode_quote (server_env C)) (dec_digits n) @
                '' for flag -page-size: value out of range''))"
  by (simp add: parse_for_def audit_flags_def addGRPCClientFlags_def flag_name_def split_flag_def Let_def ParseUint_dec)

lemma audit_flags_get:
  "get_string (audit_flags C n) ''token-file'' = ''''" "client_flags (audit_flags C n) = client_flags (audit_flags C m)"
  "get_uint (audit_flags C n) ''page-size'' = n" "get_string (audit_flags C n) ''page-token'' = ''''"
  by (simp_all add: audit_flags_def addGRPCClientFlags_def get_string_def client_flags_def get_bool_def get_duration_def
      get_uint_def Let_def)

lemma audit_run:
  "run_command C [''audit'', ''list'', ''--page-size'', dec_digits n] =
     (case parse_for C (audit_flags C 50) [''--page-size'', dec_digits n] of
        Inl e \<Rightarrow> cmd_fail e
      | Inr (fs, rest) \<Rightarrow>
          if rest \<noteq> [] then cmd_fail (unexpected rest)
          else case readSecret C (get_string fs ''token-file'') ''IDENTRA_SERVICE_TOKEN'' of
            Inl e \<Rightarrow> cmd_fail e
          | Inr token \<Rightarrow>
              (case connect C (client_flags fs) of
                 Some e \<Rightarrow> cmd_fail e
               | None \<Rightarrow> do {
                   r \<leftarrow> remote C (client_flags fs) (bearer_metadata token)
                          (ListAuditEvents (server_env C) (ce_server C) (incoming (bearer_metadata token))
                             (word_of_nat (get_uint fs ''page-size'')) (TrimSpace (get_string fs ''page-token'')));
                   case r of
                     Inl e \<Rightarrow> cmd_fail (''list audit events: '' @ e)
                   | Inr (events, next_token) \<Rightarrow> writeProtoJSON C (RespAudit events next_token)
                 }))"
  by (simp add: run_command_def runAuditCommand_def audit_flags_def)

lemma word_of_nat_mod32: "(word_of_nat (n mod 2 ^ 32) :: 32 word) = word_of_nat n"
  by (simp add: word_of_nat_eq_iff take_bit_eq_mod)


section \<open>Shutting down\<close>

lemma on_host_server: "pr_server (snd (run_state (on_host m) p)) = pr_server p"
  by (auto simp: on_host_def split: prod.splits)

lemma run_server_does [simp]: "run_state (server_does ev) p = ((), p\<lparr>pr_server := pr_server p @ [ev]\<rparr>)"
  by (simp add: server_does_def)

text \<open>What the server is seen to do between its registration and the closing of the service.\<close>

fun end_events :: "serve_wait \<Rightarrow> server_event list" where
  "end_events (ServeEnded r) = []"
| "end_events (Signalled in_time r) = [Health False, GracefulStop] @ (if in_time then [] else [ForcedStop])"

fun end_error :: "serve_wait \<Rightarrow> string option" where
  "end_error (ServeEnded r) = serve_error r"
| "end_error (Signalled in_time r) = serve_error r"

lemma run_await_end: "run_state (await_end wt) p = (end_error wt, p\<lparr>pr_server := pr_server p @ end_events wt\<rparr>)"
  by (cases wt) (simp_all add: await_end_def)

text \<open>
  (C36) Serving ends in order. Whatever happens, the database is not left open. When the service cannot
  be built, nothing has been announced. Otherwise it is announced as healthy, and closed last, after
  the server has ended; on a signal it is taken back from service before the server begins to stop,
  and the stop is forced exactly when the graceful stop took more than its ten seconds.
\<close>

theorem serve_ends_in_order:
  assumes "run_state (serve_command C) p = (r, p')" and "\<not> h_open (pr_host p)"
  shows "\<not> h_open (pr_host p') \<and>
     (r \<noteq> None \<and> pr_server p' = pr_server p \<or>
      r \<noteq> None \<and> pr_server p' = pr_server p @ [Health True, ServiceClosed] \<or>
      r = end_error (ce_wait C) \<and>
        (\<exists>port. pr_server p' = pr_server p @ [Health True, Listening port] @ end_events (ce_wait C) @ [ServiceClosed]))"
proof (cases "InitE (ce_viper C) (ce_Getwd C) (ce_stat C) ''serve''")
  case (Inl e)
  then show ?thesis using assms by (auto simp: serve_command_def cmd_fail_def)
next
  case (Inr app)
  let ?cfg = "LoadGRPC (ce_viper C) (ai_config app)"
  show ?thesis
  proof (cases "GRPCConfig_Validate (e_unicode_lower (server_env C)) (e_unicode_quote (server_env C)) ?cfg")
    case (Some e)
    then show ?thesis using Inr assms by (auto simp: serve_command_def cmd_fail_def)
  next
    case None
    obtain s h where s: "run_state (app_NewService (ce_host C) ?cfg) (pr_host p) = (s, h)" by (metis prod.collapse)
    then have oh: "run_state (on_host (app_NewService (ce_host C) ?cfg)) p = (s, p\<lparr>pr_host := h\<rparr>)"
      by (simp add: on_host_def)
    show ?thesis
    proof (cases s)
      case (Inl e)
      then have "\<not> h_open h" using app_NewService_closed [OF s [unfolded Inl] assms(2)] by simp
      then show ?thesis using assms(1) Inr None oh Inl by (auto simp: serve_command_def cmd_fail_def)
    next
      case (Inr S)
      show ?thesis
      proof (cases "ce_listen C (gc_GRPCPort ?cfg)")
        case (Some e)
        then show ?thesis
          using assms(1) \<open>InitE _ _ _ _ = _\<close> None oh \<open>s = Inr S\<close>
          by (auto simp: serve_command_def cmd_fail_def on_host_def set_open_def)
      next
        case no_err: None
        then show ?thesis
          using assms(1) \<open>InitE _ _ _ _ = _\<close> None oh \<open>s = Inr S\<close>
          by (auto simp: serve_command_def on_host_def set_open_def on_world_def handle_calls_def run_await_end)
      qed
    qed
  qed
qed

section \<open>Witnesses\<close>

definition sample_cli :: "(string list, mem_redis_state, string \<Rightarrow> cfg_value option) cli_env" where
  "sample_cli =
     \<lparr>ce_host = sample_host_env, ce_viper = sample_viper, ce_Getwd = Inr ''/work'', ce_stat = (\<lambda>_. False),
      ce_Getenv = (\<lambda>k. if k = ''IDENTRA_SERVICE_TOKEN'' then ''t'' else ''''), ce_ReadFile = (\<lambda>_. Inl ''no file''),
      ce_ParseDuration = (\<lambda>_. None), ce_stdout = (\<lambda>_. None), ce_stderr = (\<lambda>_. None), ce_NewClient = (\<lambda>_ _. None),
      ce_rpc = (\<lambda>_ _ _ _. Answered), ce_crash = ''crash'', ce_server = sample_service,
      ce_protojson = (\<lambda>_. Inr ''ok''), ce_json = (\<lambda>_. ''ok''), ce_listen = (\<lambda>_. None), ce_calls = [],
      ce_wait = ServeEnded ServeOk\<rparr>"

definition sample_proc :: "(string list, mem_redis_state) proc" where
  "sample_proc = \<lparr>pr_host = sample_host, pr_stdout = '''', pr_server = []\<rparr>"



theorem serve_ends_in_order_witness:
  "\<not> h_open (pr_host (snd (run_state (serve_command sample_cli) sample_proc)))"
  using serve_ends_in_order [of sample_cli sample_proc "fst (run_state (serve_command sample_cli) sample_proc)"
      "snd (run_state (serve_command sample_cli) sample_proc)"]
  by (simp add: sample_proc_def sample_host_def)

end
