(* ===== verification/Tracking_Cache.thy ===== *)
theory Tracking_Cache
  imports Identra_Prelude
begin

text \<open>
  \<^verbatim>\<open>internal/cache/redis/cache.go\<close>: a cache with a local part in every process, a shared part in Redis, and
  events that make the other processes drop an entry that was written. The library
  \<^verbatim>\<open>go-redis/cache\<close> and the Redis client are parameters. A configuration holds all processes that use the
  cache; their calls interleave as whole calls of the library.
\<close>

section \<open>The library and the client\<close>

text \<open>
  Every call gets an index that stands for the faults it meets. \<open>'l\<close> is the local part of a process,
  \<open>'r\<close> the shared part.
\<close>

record ('l, 'r, 'v) cache_lib =
  lb_New :: "int \<Rightarrow> go_duration \<Rightarrow> 'l"
  lb_Get :: "nat \<Rightarrow> string \<Rightarrow> 'l \<Rightarrow> 'r \<Rightarrow> (string + 'v) \<times> 'l"
  lb_Set :: "nat \<Rightarrow> string \<Rightarrow> 'v \<Rightarrow> go_duration \<Rightarrow> 'l \<Rightarrow> 'r \<Rightarrow> string option \<times> 'l \<times> 'r"
  lb_Delete :: "nat \<Rightarrow> string \<Rightarrow> 'l \<Rightarrow> 'r \<Rightarrow> string option \<times> 'l \<times> 'r"
  lb_DeleteFromLocalCache :: "string \<Rightarrow> 'l \<Rightarrow> 'l"
  lb_SetChannel :: "nat \<Rightarrow> string \<Rightarrow> 'r \<Rightarrow> string option \<times> 'r"
  lb_Publish :: "nat \<Rightarrow> bool \<times> string option"

text \<open>A process: its local part, its channel, whether its goroutine has subscribed, and the events on their way to it.\<close>

record 'l node =
  nd_cache :: 'l
  nd_refreshEventChannel :: string
  nd_subscribed :: bool
  nd_inbox :: "string list"

record ('l, 'r) cluster =
  cl_nodes :: "'l node list"
  cl_remote :: 'r

section \<open>The cache\<close>

record CacheConfig =
  kc_Redis :: bool
  kc_RefreshEventChannel :: string
  kc_LocalCacheSize :: int
  kc_LocalCacheTTL :: go_duration

definition channel_of :: "CacheConfig \<Rightarrow> string" where
  "channel_of cfg = (if kc_RefreshEventChannel cfg = '''' then ''cacheRefreshEventChannel'' else kc_RefreshEventChannel cfg)"

definition NewCache :: "('l, 'r, 'v) cache_lib \<Rightarrow> nat \<Rightarrow> CacheConfig \<Rightarrow> ('l, 'r) cluster \<Rightarrow> string option \<times> ('l, 'r) cluster" where
  "NewCache L n cfg C =
     (if \<not> kc_Redis cfg then (Some ''redisclient: Redis client is required for cache'', C)
      else
        let refreshEventChannel = channel_of cfg;
            localCacheSize = (if kc_LocalCacheSize cfg = 0 then 1000 else kc_LocalCacheSize cfg);
            localCacheTTL = (if kc_LocalCacheTTL cfg = 0 then minute else kc_LocalCacheTTL cfg)
        in case lb_SetChannel L n refreshEventChannel (cl_remote C) of
             (Some e, r) \<Rightarrow> (Some e, C\<lparr>cl_remote := r\<rparr>)
           | (None, r) \<Rightarrow>
               (None, C\<lparr>cl_remote := r,
                        cl_nodes := cl_nodes C @
                          [\<lparr>nd_cache = lb_New L localCacheSize localCacheTTL, nd_refreshEventChannel = refreshEventChannel,
                            nd_subscribed = False, nd_inbox = []\<rparr>]\<rparr>))"

text \<open>The goroutine: it subscribes, then drops from the local part every key that arrives.\<close>

definition subscribe :: "nat \<Rightarrow> ('l, 'r) cluster \<Rightarrow> ('l, 'r) cluster" where
  "subscribe i C = C\<lparr>cl_nodes := (cl_nodes C)[i := (cl_nodes C ! i)\<lparr>nd_subscribed := True\<rparr>]\<rparr>"

definition receive_event :: "('l, 'r, 'v) cache_lib \<Rightarrow> nat \<Rightarrow> ('l, 'r) cluster \<Rightarrow> ('l, 'r) cluster" where
  "receive_event L i C =
     (case nd_inbox (cl_nodes C ! i) of
        [] \<Rightarrow> C
      | key # rest \<Rightarrow>
          C\<lparr>cl_nodes := (cl_nodes C)[i := (cl_nodes C ! i)
              \<lparr>nd_inbox := rest, nd_cache := lb_DeleteFromLocalCache L key (nd_cache (cl_nodes C ! i))\<rparr>]\<rparr>)"

definition notify :: "string \<Rightarrow> string \<Rightarrow> 'l node \<Rightarrow> 'l node" where
  "notify channel key nd =
     (if nd_subscribed nd \<and> nd_refreshEventChannel nd = channel then nd\<lparr>nd_inbox := nd_inbox nd @ [key]\<rparr> else nd)"

definition publishCacheRefreshEvent ::
  "('l, 'r, 'v) cache_lib \<Rightarrow> nat \<Rightarrow> nat \<Rightarrow> string \<Rightarrow> ('l, 'r) cluster \<Rightarrow> string option \<times> ('l, 'r) cluster" where
  "publishCacheRefreshEvent L n i key C =
     (case lb_Publish L n of
        (sent, err) \<Rightarrow>
          (err, if sent then C\<lparr>cl_nodes := map (notify (nd_refreshEventChannel (cl_nodes C ! i)) key) (cl_nodes C)\<rparr> else C))"

definition set_node :: "nat \<Rightarrow> 'l \<Rightarrow> 'r \<Rightarrow> ('l, 'r) cluster \<Rightarrow> ('l, 'r) cluster" where
  "set_node i l r C = C\<lparr>cl_remote := r, cl_nodes := (cl_nodes C)[i := (cl_nodes C ! i)\<lparr>nd_cache := l\<rparr>]\<rparr>"

definition Cache_Get ::
  "('l, 'r, 'v) cache_lib \<Rightarrow> nat \<Rightarrow> nat \<Rightarrow> string \<Rightarrow> ('l, 'r) cluster \<Rightarrow> (string + 'v) \<times> ('l, 'r) cluster" where
  "Cache_Get L n i key C =
     (case lb_Get L n key (nd_cache (cl_nodes C ! i)) (cl_remote C) of
        (x, l) \<Rightarrow> (x, set_node i l (cl_remote C) C))"

definition Cache_Set ::
  "('l, 'r, 'v) cache_lib \<Rightarrow> nat \<Rightarrow> nat \<Rightarrow> string \<Rightarrow> 'v \<Rightarrow> go_duration \<Rightarrow> ('l, 'r) cluster \<Rightarrow> string option \<times> ('l, 'r) cluster" where
  "Cache_Set L n i key v expiration C =
     (case lb_Set L n key v expiration (nd_cache (cl_nodes C ! i)) (cl_remote C) of
        (Some e, l, r) \<Rightarrow> (Some e, set_node i l r C)
      | (None, l, r) \<Rightarrow> publishCacheRefreshEvent L n i key (set_node i l r C))"

definition Cache_Delete ::
  "('l, 'r, 'v) cache_lib \<Rightarrow> nat \<Rightarrow> nat \<Rightarrow> string \<Rightarrow> ('l, 'r) cluster \<Rightarrow> string option \<times> ('l, 'r) cluster" where
  "Cache_Delete L n i key C =
     (case lb_Delete L n key (nd_cache (cl_nodes C ! i)) (cl_remote C) of
        (Some e, l, r) \<Rightarrow> (Some e, set_node i l r C)
      | (None, l, r) \<Rightarrow> publishCacheRefreshEvent L n i key (set_node i l r C))"

section \<open>What is relied on of the library\<close>

text \<open>
  \<open>loc\<close> and \<open>rem\<close> are the entries of the local and the shared part. An entry may disappear from either at
  any time (eviction, expiry), so the laws only say what an entry can be.
\<close>

definition cache_get_law :: "('l, 'r, 'v) cache_lib \<Rightarrow> ('l \<Rightarrow> string \<Rightarrow> 'v option) \<Rightarrow> ('r \<Rightarrow> string \<Rightarrow> 'v option) \<Rightarrow> bool" where
  "cache_get_law L loc rem \<longleftrightarrow>
     (\<forall>n key l r x l'. lb_Get L n key l r = (x, l') \<longrightarrow>
        (\<forall>v. x = Inr v \<longrightarrow> loc l key = Some v \<or> loc l key = None \<and> rem r key = Some v) \<and>
        (\<forall>k v. loc l' k = Some v \<longrightarrow> loc l k = Some v \<or> k = key \<and> rem r key = Some v))"

definition cache_set_law :: "('l, 'r, 'v) cache_lib \<Rightarrow> ('l \<Rightarrow> string \<Rightarrow> 'v option) \<Rightarrow> ('r \<Rightarrow> string \<Rightarrow> 'v option) \<Rightarrow> bool" where
  "cache_set_law L loc rem \<longleftrightarrow>
     (\<forall>n key v ttl l r e l' r'. lb_Set L n key v ttl l r = (e, l', r') \<longrightarrow> 0 \<le> ttl \<longrightarrow>
        (\<forall>k x. k \<noteq> key \<longrightarrow> loc l' k = Some x \<longrightarrow> loc l k = Some x) \<and>
        (\<forall>k x. k \<noteq> key \<longrightarrow> rem r' k = Some x \<longrightarrow> rem r k = Some x) \<and>
        (e = None \<longrightarrow> (\<forall>x. loc l' key = Some x \<or> rem r' key = Some x \<longrightarrow> x = v)))"

definition cache_delete_law :: "('l, 'r, 'v) cache_lib \<Rightarrow> ('l \<Rightarrow> string \<Rightarrow> 'v option) \<Rightarrow> ('r \<Rightarrow> string \<Rightarrow> 'v option) \<Rightarrow> bool" where
  "cache_delete_law L loc rem \<longleftrightarrow>
     (\<forall>n key l r e l' r'. lb_Delete L n key l r = (e, l', r') \<longrightarrow>
        (\<forall>k x. k \<noteq> key \<longrightarrow> loc l' k = Some x \<longrightarrow> loc l k = Some x) \<and>
        (\<forall>k x. k \<noteq> key \<longrightarrow> rem r' k = Some x \<longrightarrow> rem r k = Some x) \<and>
        (e = None \<longrightarrow> loc l' key = None \<and> rem r' key = None))"

definition cache_local_law :: "('l, 'r, 'v) cache_lib \<Rightarrow> ('l \<Rightarrow> string \<Rightarrow> 'v option) \<Rightarrow> bool" where
  "cache_local_law L loc \<longleftrightarrow>
     (\<forall>s t k. loc (lb_New L s t) k = None) \<and>
     (\<forall>key l k x. loc (lb_DeleteFromLocalCache L key l) k = Some x \<longrightarrow> k \<noteq> key \<and> loc l k = Some x)"

definition cache_channel_law :: "('l, 'r, 'v) cache_lib \<Rightarrow> ('r \<Rightarrow> string \<Rightarrow> 'v option) \<Rightarrow> bool" where
  "cache_channel_law L rem \<longleftrightarrow>
     (\<forall>n ch r e r' k x. lb_SetChannel L n ch r = (e, r') \<longrightarrow> k \<noteq> ch \<longrightarrow> rem r' k = Some x \<longrightarrow> rem r k = Some x)"

definition cache_laws :: "('l, 'r, 'v) cache_lib \<Rightarrow> ('l \<Rightarrow> string \<Rightarrow> 'v option) \<Rightarrow> ('r \<Rightarrow> string \<Rightarrow> 'v option) \<Rightarrow> bool" where
  "cache_laws L loc rem \<longleftrightarrow> cache_get_law L loc rem \<and> cache_set_law L loc rem \<and> cache_delete_law L loc rem \<and>
     cache_local_law L loc \<and> cache_channel_law L rem \<and> (\<forall>n. snd (lb_Publish L n) = None \<longrightarrow> fst (lb_Publish L n))"

section \<open>Runs of the processes\<close>

text \<open>
  A run carries next to the configuration what the last completed write of every key was (\<open>W\<close>), the keys
  whose last write reported an error or that collide with a channel name (\<open>U\<close>), and for every process the
  keys of events it never got (\<open>M\<close>): it had not subscribed yet, listens on another channel, or the
  subscription dropped the event.
\<close>

definition missed_event :: "nat \<Rightarrow> string \<Rightarrow> ('l, 'r) cluster \<Rightarrow> (nat \<Rightarrow> string set) \<Rightarrow> nat \<Rightarrow> string set" where
  "missed_event i key C M j =
     (if j < length (cl_nodes C) \<and>
         \<not> (nd_subscribed (cl_nodes C ! j) \<and> nd_refreshEventChannel (cl_nodes C ! j) = nd_refreshEventChannel (cl_nodes C ! i))
      then insert key (M j) else M j)"

definition drop_event :: "nat \<Rightarrow> nat \<Rightarrow> ('l, 'r) cluster \<Rightarrow> ('l, 'r) cluster" where
  "drop_event i p C =
     C\<lparr>cl_nodes := (cl_nodes C)[i := (cl_nodes C ! i)
         \<lparr>nd_inbox := take p (nd_inbox (cl_nodes C ! i)) @ drop (Suc p) (nd_inbox (cl_nodes C ! i))\<rparr>]\<rparr>"

inductive cache_run ::
  "('l, 'r, 'v) cache_lib \<Rightarrow> ('l \<Rightarrow> string \<Rightarrow> 'v option) \<Rightarrow> ('r \<Rightarrow> string \<Rightarrow> 'v option) \<Rightarrow>
   ('l, 'r) cluster \<Rightarrow> (string \<Rightarrow> 'v option) \<Rightarrow> string set \<Rightarrow> (nat \<Rightarrow> string set) \<Rightarrow> bool"
  for L :: "('l, 'r, 'v) cache_lib" and loc rem where
  run_start: "cache_run L loc rem \<lparr>cl_nodes = [], cl_remote = r\<rparr> (rem r) {} (\<lambda>i. {})"
| run_new: "cache_run L loc rem C W U M \<Longrightarrow> NewCache L n cfg C = (e, C') \<Longrightarrow>
    cache_run L loc rem C' W (insert (channel_of cfg) U) M"
| run_subscribe: "cache_run L loc rem C W U M \<Longrightarrow> i < length (cl_nodes C) \<Longrightarrow> cache_run L loc rem (subscribe i C) W U M"
| run_receive: "cache_run L loc rem C W U M \<Longrightarrow> i < length (cl_nodes C) \<Longrightarrow> nd_inbox (cl_nodes C ! i) = key # rest \<Longrightarrow>
    cache_run L loc rem (receive_event L i C) W U (M(i := M i - {key}))"
| run_lose: "cache_run L loc rem C W U M \<Longrightarrow> i < length (cl_nodes C) \<Longrightarrow> p < length (nd_inbox (cl_nodes C ! i)) \<Longrightarrow>
    cache_run L loc rem (drop_event i p C) W U (M(i := insert (nd_inbox (cl_nodes C ! i) ! p) (M i)))"
| run_expire: "cache_run L loc rem C W U M \<Longrightarrow> i < length (cl_nodes C) \<Longrightarrow>
    (\<And>k x. loc l k = Some x \<Longrightarrow> loc (nd_cache (cl_nodes C ! i)) k = Some x) \<Longrightarrow>
    (\<And>k x. rem r k = Some x \<Longrightarrow> rem (cl_remote C) k = Some x) \<Longrightarrow>
    cache_run L loc rem (set_node i l r C) W U (M(i := {k \<in> M i. loc l k \<noteq> None}))"
| run_get: "cache_run L loc rem C W U M \<Longrightarrow> i < length (cl_nodes C) \<Longrightarrow> Cache_Get L n i key C = (x, C') \<Longrightarrow>
    cache_run L loc rem C' W U M"
| run_set: "cache_run L loc rem C W U M \<Longrightarrow> i < length (cl_nodes C) \<Longrightarrow> 0 \<le> ttl \<Longrightarrow>
    Cache_Set L n i key v ttl C = (None, C') \<Longrightarrow>
    cache_run L loc rem C' (W(key \<mapsto> v)) (U - {key}) (missed_event i key C M)"
| run_set_failed: "cache_run L loc rem C W U M \<Longrightarrow> i < length (cl_nodes C) \<Longrightarrow> 0 \<le> ttl \<Longrightarrow>
    Cache_Set L n i key v ttl C = (Some e, C') \<Longrightarrow> cache_run L loc rem C' W (insert key U) M"
| run_delete: "cache_run L loc rem C W U M \<Longrightarrow> i < length (cl_nodes C) \<Longrightarrow>
    Cache_Delete L n i key C = (None, C') \<Longrightarrow>
    cache_run L loc rem C' (W(key := None)) (U - {key}) (missed_event i key C M)"
| run_delete_failed: "cache_run L loc rem C W U M \<Longrightarrow> i < length (cl_nodes C) \<Longrightarrow>
    Cache_Delete L n i key C = (Some e, C') \<Longrightarrow> cache_run L loc rem C' W (insert key U) M"

section \<open>Coherence\<close>

text \<open>What a process holds of a settled key is the last write, or an event to drop it is under way or was missed.\<close>

definition part_coherent :: "(string \<Rightarrow> 'v option) \<Rightarrow> string set \<Rightarrow> string set \<Rightarrow> (string \<Rightarrow> 'v option) \<Rightarrow> bool" where
  "part_coherent W U stale f \<longleftrightarrow> (\<forall>k x. k \<notin> U \<longrightarrow> k \<notin> stale \<longrightarrow> f k = Some x \<longrightarrow> W k = Some x)"

definition coherent ::
  "('l \<Rightarrow> string \<Rightarrow> 'v option) \<Rightarrow> ('r \<Rightarrow> string \<Rightarrow> 'v option) \<Rightarrow> ('l, 'r) cluster \<Rightarrow>
   (string \<Rightarrow> 'v option) \<Rightarrow> string set \<Rightarrow> (nat \<Rightarrow> string set) \<Rightarrow> bool" where
  "coherent loc rem C W U M \<longleftrightarrow>
     part_coherent W U {} (rem (cl_remote C)) \<and>
     (\<forall>i < length (cl_nodes C).
        part_coherent W U (set (nd_inbox (cl_nodes C ! i)) \<union> M i) (loc (nd_cache (cl_nodes C ! i))))"

named_theorems cache_ops

lemmas [cache_ops] = NewCache_def subscribe_def receive_event_def drop_event_def set_node_def notify_def
  Cache_Get_def Cache_Set_def Cache_Delete_def publishCacheRefreshEvent_def missed_event_def

lemma cache_laws_parts:
  assumes "cache_laws L loc rem"
  shows "cache_get_law L loc rem" "cache_set_law L loc rem" "cache_delete_law L loc rem"
    "cache_local_law L loc" "cache_channel_law L rem" "snd (lb_Publish L n) = None \<longrightarrow> fst (lb_Publish L n)"
  using assms unfolding cache_laws_def by blast+

lemma cache_localD:
  assumes "cache_laws L loc rem"
  shows "loc (lb_New L s t) k = None"
    and "loc (lb_DeleteFromLocalCache L key l) k = Some x \<Longrightarrow> k \<noteq> key"
    and "loc (lb_DeleteFromLocalCache L key l) k = Some x \<Longrightarrow> loc l k = Some x"
  using cache_laws_parts(4) [OF assms] unfolding cache_local_law_def by blast+

lemma cache_channelD:
  assumes "cache_laws L loc rem" "lb_SetChannel L n ch r = (e, r')" "k \<noteq> ch" "rem r' k = Some x"
  shows "rem r k = Some x"
  using cache_laws_parts(5) [OF assms(1), unfolded cache_channel_law_def, rule_format, OF assms(2-4)] .

lemma cache_publishD:
  assumes "cache_laws L loc rem" "lb_Publish L n = (sent, None)"
  shows "sent"
  using cache_laws_parts(6) [OF assms(1), of n] assms(2) by simp

lemma cache_getD:
  assumes "cache_laws L loc rem" "lb_Get L n key l r = (y, l')"
  shows "loc l' k = Some x \<Longrightarrow> loc l k = Some x \<or> k = key \<and> rem r key = Some x"
    and "y = Inr v \<Longrightarrow> loc l key = Some v \<or> rem r key = Some v"
proof -
  note law = cache_laws_parts(1) [OF assms(1), unfolded cache_get_law_def, rule_format, OF assms(2)]
  show "loc l k = Some x \<or> k = key \<and> rem r key = Some x" if "loc l' k = Some x"
    using law that by blast
  show "loc l key = Some v \<or> rem r key = Some v" if "y = Inr v"
    using law that by blast
qed

lemma cache_setD:
  assumes "cache_laws L loc rem" "lb_Set L n key v ttl l r = (e, l', r')" "0 \<le> ttl"
  shows "k \<noteq> key \<Longrightarrow> loc l' k = Some x \<Longrightarrow> loc l k = Some x"
    and "k \<noteq> key \<Longrightarrow> rem r' k = Some x \<Longrightarrow> rem r k = Some x"
    and "e = None \<Longrightarrow> loc l' key = Some x \<Longrightarrow> x = v"
    and "e = None \<Longrightarrow> rem r' key = Some x \<Longrightarrow> x = v"
proof -
  note law = cache_laws_parts(2) [OF assms(1), unfolded cache_set_law_def, rule_format, OF assms(2,3)]
  show "loc l k = Some x" if "k \<noteq> key" "loc l' k = Some x" using law that by blast
  show "rem r k = Some x" if "k \<noteq> key" "rem r' k = Some x" using law that by blast
  show "x = v" if "e = None" "loc l' key = Some x" using law that by blast
  show "x = v" if "e = None" "rem r' key = Some x" using law that by blast
qed

lemma cache_deleteD:
  assumes "cache_laws L loc rem" "lb_Delete L n key l r = (e, l', r')"
  shows "k \<noteq> key \<Longrightarrow> loc l' k = Some x \<Longrightarrow> loc l k = Some x"
    and "k \<noteq> key \<Longrightarrow> rem r' k = Some x \<Longrightarrow> rem r k = Some x"
    and "e = None \<Longrightarrow> loc l' key = None"
    and "e = None \<Longrightarrow> rem r' key = None"
proof -
  note law = cache_laws_parts(3) [OF assms(1), unfolded cache_delete_law_def, rule_format, OF assms(2)]
  show "loc l k = Some x" if "k \<noteq> key" "loc l' k = Some x" using law that by blast
  show "rem r k = Some x" if "k \<noteq> key" "rem r' k = Some x" using law that by blast
  show "loc l' key = None" if "e = None" using law that by blast
  show "rem r' key = None" if "e = None" using law that by blast
qed

subsection \<open>Every step keeps it\<close>

lemma part_coherent_weaken:
  assumes "part_coherent W U stale f" "U \<subseteq> U'" "stale \<subseteq> stale'" "\<And>k x. k \<notin> U' \<Longrightarrow> g k = Some x \<Longrightarrow> f k = Some x"
  shows "part_coherent W U' stale' g"
  using assms unfolding part_coherent_def by blast

lemma coherent_nodeD:
  assumes "coherent loc rem C W U M" "i < length (cl_nodes C)"
  shows "part_coherent W U (set (nd_inbox (cl_nodes C ! i)) \<union> M i) (loc (nd_cache (cl_nodes C ! i)))"
  using assms unfolding coherent_def by blast

lemma coherent_remoteD:
  assumes "coherent loc rem C W U M"
  shows "part_coherent W U {} (rem (cl_remote C))"
  using assms unfolding coherent_def by blast

text \<open>A step of one process: the shared part and that process are looked at, the others only weaken.\<close>

lemma coherent_step:
  assumes C: "coherent loc rem C W U M" and U: "U \<subseteq> U'" and i: "i < length (cl_nodes C)"
    and remote: "part_coherent W U' {} (rem (cl_remote C'))"
    and nodes: "cl_nodes C' = (cl_nodes C)[i := nd]"
    and local: "part_coherent W U' (set (nd_inbox nd) \<union> M' i) (loc (nd_cache nd))"
    and M: "\<And>j. j \<noteq> i \<Longrightarrow> M j \<subseteq> M' j"
  shows "coherent loc rem C' W U' M'"
  unfolding coherent_def
proof (intro conjI allI impI)
  show "part_coherent W U' {} (rem (cl_remote C'))" by fact
  fix j assume j: "j < length (cl_nodes C')"
  show "part_coherent W U' (set (nd_inbox (cl_nodes C' ! j)) \<union> M' j) (loc (nd_cache (cl_nodes C' ! j)))"
  proof (cases "j = i")
    case True
    then show ?thesis using local nodes i by simp
  next
    case False
    have "j < length (cl_nodes C)" using j nodes by simp
    from coherent_nodeD [OF C this] show ?thesis
      using False nodes by (auto intro: part_coherent_weaken [OF _ U] dest: M [OF False, THEN subsetD])
  qed
qed

lemma coherent_set_node:
  assumes C: "coherent loc rem C W U M" and U: "U \<subseteq> U'" and i: "i < length (cl_nodes C)"
    and "part_coherent W U' {} (rem r)"
    and "part_coherent W U' (set (nd_inbox (cl_nodes C ! i)) \<union> M' i) (loc l)"
    and "\<And>j. j \<noteq> i \<Longrightarrow> M j \<subseteq> M' j"
  shows "coherent loc rem (set_node i l r C) W U' M'"
  by (rule coherent_step [OF C U i, where nd = "(cl_nodes C ! i)\<lparr>nd_cache := l\<rparr>"]) (use assms in \<open>simp_all add: set_node_def\<close>)

lemma coherent_publish:
  assumes C: "coherent loc rem C W U M" and "publishCacheRefreshEvent L n i key C = (e, C')"
  shows "coherent loc rem C' W U M"
proof -
  have "coherent loc rem (C\<lparr>cl_nodes := map (notify ch key) (cl_nodes C)\<rparr>) W U M" for ch
    unfolding coherent_def
  proof (intro conjI allI impI)
    fix j assume "j < length (cl_nodes (C\<lparr>cl_nodes := map (notify ch key) (cl_nodes C)\<rparr>))"
    then have j: "j < length (cl_nodes C)" by simp
    show "part_coherent W U (set (nd_inbox (cl_nodes (C\<lparr>cl_nodes := map (notify ch key) (cl_nodes C)\<rparr>) ! j)) \<union> M j)
        (loc (nd_cache (cl_nodes (C\<lparr>cl_nodes := map (notify ch key) (cl_nodes C)\<rparr>) ! j)))"
      by (rule part_coherent_weaken [OF coherent_nodeD [OF C j]]) (use j in \<open>auto simp: notify_def split: if_splits\<close>)
  qed (use coherent_remoteD [OF C] in simp)
  then show ?thesis using assms by (auto simp: publishCacheRefreshEvent_def split: prod.splits if_splits)
qed

text \<open>A write that completed: everyone else either gets the event or is recorded as having missed it.\<close>

lemma coherent_write:
  assumes laws: "cache_laws L loc rem" and C: "coherent loc rem C W U M" and i: "i < length (cl_nodes C)"
    and other: "\<And>k x. k \<noteq> key \<Longrightarrow> loc l k = Some x \<Longrightarrow> loc (nd_cache (cl_nodes C ! i)) k = Some x"
      "\<And>k x. k \<noteq> key \<Longrightarrow> rem r k = Some x \<Longrightarrow> rem (cl_remote C) k = Some x"
    and own: "\<And>x. loc l key = Some x \<Longrightarrow> w = Some x" "\<And>x. rem r key = Some x \<Longrightarrow> w = Some x"
    and pub: "publishCacheRefreshEvent L n i key (set_node i l r C) = (None, C')"
  shows "coherent loc rem C' (W(key := w)) (U - {key}) (missed_event i key C M)"
proof -
  let ?ch = "nd_refreshEventChannel (cl_nodes C ! i)"
  obtain sent where "lb_Publish L n = (sent, None)" and C'0: "C' = (if sent
      then (set_node i l r C)\<lparr>cl_nodes := map (notify (nd_refreshEventChannel (cl_nodes (set_node i l r C) ! i)) key)
             (cl_nodes (set_node i l r C))\<rparr> else set_node i l r C)"
    using pub by (auto simp: publishCacheRefreshEvent_def split: prod.splits)
  with cache_publishD [OF laws] i have C': "cl_nodes C' = map (notify ?ch key) ((cl_nodes C)[i := (cl_nodes C ! i)\<lparr>nd_cache := l\<rparr>])"
      "cl_remote C' = r"
    by (auto simp: set_node_def)
  show ?thesis unfolding coherent_def
  proof (intro conjI allI impI)
    show "part_coherent (W(key := w)) (U - {key}) {} (rem (cl_remote C'))"
      using coherent_remoteD [OF C] other(2) own(2) C'(2) unfolding part_coherent_def by auto
    fix j assume "j < length (cl_nodes C')"
    then have j: "j < length (cl_nodes C)" using C' by simp
    show "part_coherent (W(key := w)) (U - {key}) (set (nd_inbox (cl_nodes C' ! j)) \<union> missed_event i key C M j) (loc (nd_cache (cl_nodes C' ! j)))"
      using coherent_nodeD [OF C j] other(1) own(1) j C'(1) unfolding part_coherent_def
      by (cases "i = j") (auto simp: notify_def missed_event_def)
  qed
qed

lemma coherent_write_failed:
  assumes C: "coherent loc rem C W U M" and i: "i < length (cl_nodes C)"
    and other: "\<And>k x. k \<noteq> key \<Longrightarrow> loc l k = Some x \<Longrightarrow> loc (nd_cache (cl_nodes C ! i)) k = Some x"
      "\<And>k x. k \<noteq> key \<Longrightarrow> rem r k = Some x \<Longrightarrow> rem (cl_remote C) k = Some x"
  shows "coherent loc rem (set_node i l r C) W (insert key U) M"
proof (rule coherent_set_node [OF C _ i])
  show "part_coherent W (insert key U) {} (rem r)"
    using coherent_remoteD [OF C] by (rule part_coherent_weaken) (use other(2) in auto)
  show "part_coherent W (insert key U) (set (nd_inbox (cl_nodes C ! i)) \<union> M i) (loc l)"
    using coherent_nodeD [OF C i] by (rule part_coherent_weaken) (use other(1) in auto)
qed auto

lemma coherent_new:
  assumes laws: "cache_laws L loc rem" and C: "coherent loc rem C W U M" and new: "NewCache L n cfg C = (e, C')"
  shows "coherent loc rem C' W (insert (channel_of cfg) U) M"
proof (cases "kc_Redis cfg")
  case False
  then have "C' = C" using new by (simp add: NewCache_def)
  then show ?thesis using C unfolding coherent_def part_coherent_def by blast
next
  case True
  obtain e' r where r: "lb_SetChannel L n (channel_of cfg) (cl_remote C) = (e', r)" by fastforce
  from new True r have remote: "cl_remote C' = r"
    by (auto simp: NewCache_def Let_def split: option.splits)
  from new True r obtain nds where nodes: "cl_nodes C' = cl_nodes C @ nds"
    and fresh: "\<And>nd k. nd \<in> set nds \<Longrightarrow> loc (nd_cache nd) k = None"
    by (cases e') (auto simp: NewCache_def Let_def cache_localD(1) [OF laws] split: if_splits)
  show ?thesis unfolding coherent_def
  proof (intro conjI allI impI)
    show "part_coherent W (insert (channel_of cfg) U) {} (rem (cl_remote C'))"
      using coherent_remoteD [OF C] by (rule part_coherent_weaken) (use cache_channelD [OF laws r] remote in auto)
    fix j assume j: "j < length (cl_nodes C')"
    show "part_coherent W (insert (channel_of cfg) U) (set (nd_inbox (cl_nodes C' ! j)) \<union> M j) (loc (nd_cache (cl_nodes C' ! j)))"
    proof (cases "j < length (cl_nodes C)")
      case True
      from coherent_nodeD [OF C this] show ?thesis
        by (rule part_coherent_weaken) (use True nodes in \<open>auto simp: nth_append\<close>)
    next
      case False
      then obtain nd where "cl_nodes C' ! j = nd" "nd \<in> set nds" using j nodes by (simp add: nth_append)
      then show ?thesis using fresh [of nd] by (auto simp: part_coherent_def)
    qed
  qed
qed

lemma coherent_receive:
  assumes laws: "cache_laws L loc rem" and C: "coherent loc rem C W U M" and i: "i < length (cl_nodes C)"
    and inbox: "nd_inbox (cl_nodes C ! i) = key # rest"
  shows "coherent loc rem (receive_event L i C) W U (M(i := M i - {key}))"
proof (rule coherent_step [OF C subset_refl i])
  show "part_coherent W U {} (rem (cl_remote (receive_event L i C)))"
    using coherent_remoteD [OF C] inbox by (simp add: receive_event_def)
  show "cl_nodes (receive_event L i C) = (cl_nodes C)[i := (cl_nodes C ! i)
      \<lparr>nd_inbox := rest, nd_cache := lb_DeleteFromLocalCache L key (nd_cache (cl_nodes C ! i))\<rparr>]"
    using inbox by (simp add: receive_event_def)
  show "part_coherent W U (set (nd_inbox ((cl_nodes C ! i)
      \<lparr>nd_inbox := rest, nd_cache := lb_DeleteFromLocalCache L key (nd_cache (cl_nodes C ! i))\<rparr>)) \<union> (M(i := M i - {key})) i)
    (loc (nd_cache ((cl_nodes C ! i)\<lparr>nd_inbox := rest, nd_cache := lb_DeleteFromLocalCache L key (nd_cache (cl_nodes C ! i))\<rparr>)))"
    using coherent_nodeD [OF C i] unfolding part_coherent_def by (auto simp: inbox dest: cache_localD(2,3) [OF laws])
qed simp

lemma coherent_get:
  assumes laws: "cache_laws L loc rem" and C: "coherent loc rem C W U M" and i: "i < length (cl_nodes C)"
    and get: "Cache_Get L n i key C = (x, C')"
  shows "coherent loc rem C' W U M"
proof -
  obtain l where l: "lb_Get L n key (nd_cache (cl_nodes C ! i)) (cl_remote C) = (x, l)" "C' = set_node i l (cl_remote C) C"
    using get by (auto simp: Cache_Get_def split: prod.splits)
  have "part_coherent W U (set (nd_inbox (cl_nodes C ! i)) \<union> M i) (loc l)"
    using coherent_nodeD [OF C i] coherent_remoteD [OF C] cache_getD(1) [OF laws l(1)]
    unfolding part_coherent_def by blast
  then show ?thesis using coherent_set_node [OF C subset_refl i coherent_remoteD [OF C]] l(2) by blast
qed

lemma coherent_lose:
  assumes C: "coherent loc rem C W U M" and i: "i < length (cl_nodes C)" and p: "p < length (nd_inbox (cl_nodes C ! i))"
  shows "coherent loc rem (drop_event i p C) W U (M(i := insert (nd_inbox (cl_nodes C ! i) ! p) (M i)))"
proof (rule coherent_step [OF C subset_refl i])
  let ?b = "nd_inbox (cl_nodes C ! i)"
  show "cl_nodes (drop_event i p C) = (cl_nodes C)[i := (cl_nodes C ! i)\<lparr>nd_inbox := take p ?b @ drop (Suc p) ?b\<rparr>]"
    by (simp add: drop_event_def)
  have "set ?b \<subseteq> insert (?b ! p) (set (take p ?b @ drop (Suc p) ?b))"
    using p by (subst id_take_nth_drop [OF p]) auto
  then show "part_coherent W U (set (nd_inbox ((cl_nodes C ! i)\<lparr>nd_inbox := take p ?b @ drop (Suc p) ?b\<rparr>)) \<union>
      (M(i := insert (?b ! p) (M i))) i) (loc (nd_cache ((cl_nodes C ! i)\<lparr>nd_inbox := take p ?b @ drop (Suc p) ?b\<rparr>)))"
    by (intro part_coherent_weaken [OF coherent_nodeD [OF C i]]) auto
qed (use coherent_remoteD [OF C] in \<open>auto simp: drop_event_def\<close>)

lemma coherent_subscribe:
  assumes C: "coherent loc rem C W U M" and i: "i < length (cl_nodes C)"
  shows "coherent loc rem (subscribe i C) W U M"
  by (rule coherent_step [OF C subset_refl i, where nd = "(cl_nodes C ! i)\<lparr>nd_subscribed := True\<rparr>"])
    (use coherent_remoteD [OF C] coherent_nodeD [OF C i] in \<open>simp_all add: subscribe_def\<close>)

lemma Cache_SetE:
  assumes "Cache_Set L n i key v ttl C = (e, C')"
  obtains l r where "lb_Set L n key v ttl (nd_cache (cl_nodes C ! i)) (cl_remote C) = (e, l, r)" "e \<noteq> None" "C' = set_node i l r C"
  | l r where "lb_Set L n key v ttl (nd_cache (cl_nodes C ! i)) (cl_remote C) = (None, l, r)"
      "publishCacheRefreshEvent L n i key (set_node i l r C) = (e, C')"
  using assms unfolding Cache_Set_def by (auto split: prod.splits option.splits)

lemma Cache_DeleteE:
  assumes "Cache_Delete L n i key C = (e, C')"
  obtains l r where "lb_Delete L n key (nd_cache (cl_nodes C ! i)) (cl_remote C) = (e, l, r)" "e \<noteq> None" "C' = set_node i l r C"
  | l r where "lb_Delete L n key (nd_cache (cl_nodes C ! i)) (cl_remote C) = (None, l, r)"
      "publishCacheRefreshEvent L n i key (set_node i l r C) = (e, C')"
  using assms unfolding Cache_Delete_def by (auto split: prod.splits option.splits)

lemma coherent_set:
  assumes laws: "cache_laws L loc rem" and C: "coherent loc rem C W U M" and i: "i < length (cl_nodes C)" and ttl: "0 \<le> ttl"
    and set: "Cache_Set L n i key v ttl C = (e, C')"
  shows "e = None \<Longrightarrow> coherent loc rem C' (W(key \<mapsto> v)) (U - {key}) (missed_event i key C M)"
    and "coherent loc rem C' W (insert key U) M"
proof -
  from set show "coherent loc rem C' W (insert key U) M"
  proof (cases rule: Cache_SetE)
    case (1 l r)
    show ?thesis unfolding 1(3) by (rule coherent_write_failed [OF C i]) (fact cache_setD(1,2) [OF laws 1(1) ttl])+
  next
    case (2 l r)
    show ?thesis by (rule coherent_publish [OF coherent_write_failed 2(2)]) (fact C i cache_setD(1,2) [OF laws 2(1) ttl])+
  qed
  assume e: "e = None"
  with set obtain l r where 2: "lb_Set L n key v ttl (nd_cache (cl_nodes C ! i)) (cl_remote C) = (None, l, r)"
      "publishCacheRefreshEvent L n i key (set_node i l r C) = (None, C')"
    unfolding Cache_Set_def by (auto split: prod.splits option.splits)
  show "coherent loc rem C' (W(key \<mapsto> v)) (U - {key}) (missed_event i key C M)"
    by (rule coherent_write [OF laws C i _ _ _ _ 2(2)])
      (use cache_setD [OF laws 2(1) ttl] in auto)
qed

lemma coherent_delete:
  assumes laws: "cache_laws L loc rem" and C: "coherent loc rem C W U M" and i: "i < length (cl_nodes C)"
    and del: "Cache_Delete L n i key C = (e, C')"
  shows "e = None \<Longrightarrow> coherent loc rem C' (W(key := None)) (U - {key}) (missed_event i key C M)"
    and "coherent loc rem C' W (insert key U) M"
proof -
  from del show "coherent loc rem C' W (insert key U) M"
  proof (cases rule: Cache_DeleteE)
    case (1 l r)
    show ?thesis unfolding 1(3) by (rule coherent_write_failed [OF C i]) (fact cache_deleteD(1,2) [OF laws 1(1)])+
  next
    case (2 l r)
    show ?thesis by (rule coherent_publish [OF coherent_write_failed 2(2)]) (fact C i cache_deleteD(1,2) [OF laws 2(1)])+
  qed
  assume e: "e = None"
  with del obtain l r where 2: "lb_Delete L n key (nd_cache (cl_nodes C ! i)) (cl_remote C) = (None, l, r)"
      "publishCacheRefreshEvent L n i key (set_node i l r C) = (None, C')"
    unfolding Cache_Delete_def by (auto split: prod.splits option.splits)
  show "coherent loc rem C' (W(key := None)) (U - {key}) (missed_event i key C M)"
    by (rule coherent_write [OF laws C i _ _ _ _ 2(2)])
      (use cache_deleteD [OF laws 2(1)] in simp_all)
qed

lemma coherent_expire:
  assumes C: "coherent loc rem C W U M" and i: "i < length (cl_nodes C)"
    and l: "\<And>k x. loc l k = Some x \<Longrightarrow> loc (nd_cache (cl_nodes C ! i)) k = Some x"
    and r: "\<And>k x. rem r k = Some x \<Longrightarrow> rem (cl_remote C) k = Some x"
  shows "coherent loc rem (set_node i l r C) W U (M(i := {k \<in> M i. loc l k \<noteq> None}))"
proof (rule coherent_set_node [OF C subset_refl i])
  show "part_coherent W U {} (rem r)"
    by (rule part_coherent_weaken [OF coherent_remoteD [OF C]]) (use r in auto)
  show "part_coherent W U (set (nd_inbox (cl_nodes C ! i)) \<union> (M(i := {k \<in> M i. loc l k \<noteq> None})) i) (loc l)"
    using coherent_nodeD [OF C i] l unfolding part_coherent_def by auto
qed simp

lemma cache_run_coherent:
  assumes "cache_laws L loc rem" and "cache_run L loc rem C W U M"
  shows "coherent loc rem C W U M"
  using assms(2)
proof induction
  case (run_start r)
  show ?case by (simp add: coherent_def part_coherent_def)
next
  case (run_new C W U M n cfg e C')
  then show ?case by (intro coherent_new [OF assms(1)])
next
  case (run_subscribe C W U M i)
  then show ?case by (intro coherent_subscribe)
next
  case (run_receive C W U M i key rest)
  then show ?case by (intro coherent_receive [OF assms(1)])
next
  case (run_lose C W U M i p)
  then show ?case by (intro coherent_lose)
next
  case (run_expire C W U M i l r)
  show ?case by (rule coherent_expire) (fact run_expire)+
next
  case (run_get C W U M i n key x C')
  show ?case by (rule coherent_get [OF assms(1)]) (fact run_get)+
next
  case (run_set C W U M i ttl n key v C')
  show ?case by (rule coherent_set(1) [OF assms(1) _ _ _ _ refl]) (fact run_set)+
next
  case (run_set_failed C W U M i ttl n key v e C')
  show ?case by (rule coherent_set(2) [OF assms(1)]) (fact run_set_failed)+
next
  case (run_delete C W U M i n key C')
  show ?case by (rule coherent_delete(1) [OF assms(1) _ _ _ refl]) (fact run_delete)+
next
  case (run_delete_failed C W U M i n key e C')
  show ?case by (rule coherent_delete(2) [OF assms(1)]) (fact run_delete_failed)+
qed

section \<open>What a reader gets\<close>


definition sample_cache :: "(string \<rightharpoonup> string, string \<rightharpoonup> string, string) cache_lib" where
  "sample_cache = \<lparr>
     lb_New = \<lambda>size ttl. Map.empty,
     lb_Get = \<lambda>n key l r. (case l key of Some v \<Rightarrow> (Inr v, l)
                | None \<Rightarrow> (case r key of Some v \<Rightarrow> (Inr v, l(key \<mapsto> v)) | None \<Rightarrow> (Inl ''cache: key is missing'', l))),
     lb_Set = \<lambda>n key v ttl l r. (None, l(key \<mapsto> v), r(key \<mapsto> v)),
     lb_Delete = \<lambda>n key l r. (None, l(key := None), r(key := None)),
     lb_DeleteFromLocalCache = \<lambda>key l. l(key := None),
     lb_SetChannel = \<lambda>n ch r. (None, r(ch \<mapsto> ch)),
     lb_Publish = \<lambda>n. (True, None)\<rparr>"

lemma sample_cache_sel:
  "lb_New sample_cache s t = Map.empty"
  "lb_Get sample_cache n key l r = (case l key of Some v \<Rightarrow> (Inr v, l)
     | None \<Rightarrow> (case r key of Some v \<Rightarrow> (Inr v, l(key \<mapsto> v)) | None \<Rightarrow> (Inl ''cache: key is missing'', l)))"
  "lb_Set sample_cache n key v ttl l r = (None, l(key \<mapsto> v), r(key \<mapsto> v))"
  "lb_DeleteFromLocalCache sample_cache key l = l(key := None)"
  "lb_SetChannel sample_cache n ch r = (None, r(ch \<mapsto> ch))"
  "lb_Publish sample_cache n = (True, None)"
  by (simp_all add: sample_cache_def)

lemma sample_cache_laws: "cache_laws sample_cache id id"
  unfolding cache_laws_def cache_get_law_def cache_set_law_def cache_delete_law_def cache_local_law_def cache_channel_law_def sample_cache_def
  by (auto split: option.splits if_splits)

text \<open>Two processes read and write one key; the second has received the events of both writes.\<close>

definition sample_node :: "(string \<rightharpoonup> string) \<Rightarrow> bool \<Rightarrow> string list \<Rightarrow> (string \<rightharpoonup> string) node" where
  "sample_node l s inbox = \<lparr>nd_cache = l, nd_refreshEventChannel = ''cacheRefreshEventChannel'', nd_subscribed = s, nd_inbox = inbox\<rparr>"

definition sample_cluster :: "(string \<rightharpoonup> string, string \<rightharpoonup> string) cluster" where
  "sample_cluster = \<lparr>cl_nodes = [sample_node [''u'' \<mapsto> ''b''] True [''u'', ''u''], sample_node Map.empty True []],
     cl_remote = [''cacheRefreshEventChannel'' \<mapsto> ''cacheRefreshEventChannel'', ''u'' \<mapsto> ''b'']\<rparr>"

lemma no_event_missed:
  assumes "\<forall>nd \<in> set (cl_nodes C). nd_subscribed nd \<and> nd_refreshEventChannel nd = nd_refreshEventChannel (cl_nodes C ! i)"
  shows "missed_event i key C M = M"
  using assms by (auto simp: missed_event_def fun_eq_iff)

lemma sample_cache_run:
  "cache_run sample_cache id id sample_cluster [''u'' \<mapsto> ''b''] {''cacheRefreshEventChannel''} (\<lambda>i. {})"
proof -
  let ?run = "cache_run sample_cache id id" and ?ch = "''cacheRefreshEventChannel''"
  let ?cfg = "\<lparr>kc_Redis = True, kc_RefreshEventChannel = '''', kc_LocalCacheSize = 0, kc_LocalCacheTTL = 0\<rparr>"
  note eval = cache_ops channel_of_def sample_cache_sel sample_node_def Let_def
  have "?run \<lparr>cl_nodes = [], cl_remote = Map.empty\<rparr> Map.empty {} (\<lambda>i. {})"
    using run_start [of sample_cache id id Map.empty] by simp
  from run_new [OF this, of 0 ?cfg None "\<lparr>cl_nodes = [sample_node Map.empty False []], cl_remote = [?ch \<mapsto> ?ch]\<rparr>"]
  have "?run \<lparr>cl_nodes = [sample_node Map.empty False []], cl_remote = [?ch \<mapsto> ?ch]\<rparr> Map.empty {?ch} (\<lambda>i. {})"
    by (simp add: eval)
  from run_new [OF this, of 0 ?cfg None "\<lparr>cl_nodes = [sample_node Map.empty False [], sample_node Map.empty False []], cl_remote = [?ch \<mapsto> ?ch]\<rparr>"]
  have "?run \<lparr>cl_nodes = [sample_node Map.empty False [], sample_node Map.empty False []], cl_remote = [?ch \<mapsto> ?ch]\<rparr> Map.empty {?ch} (\<lambda>i. {})"
    by (simp add: eval)
  from run_subscribe [OF run_subscribe [OF this, of 0], of 1]
  have "?run \<lparr>cl_nodes = [sample_node Map.empty True [], sample_node Map.empty True []], cl_remote = [?ch \<mapsto> ?ch]\<rparr> Map.empty {?ch} (\<lambda>i. {})"
    by (simp add: eval)
  from run_set [OF this, of 0 0 0 "''u''" "''a''" "\<lparr>cl_nodes = [sample_node [''u'' \<mapsto> ''a''] True [''u''], sample_node Map.empty True [''u'']], cl_remote = [?ch \<mapsto> ?ch, ''u'' \<mapsto> ''a'']\<rparr>"]
  have "?run \<lparr>cl_nodes = [sample_node [''u'' \<mapsto> ''a''] True [''u''], sample_node Map.empty True [''u'']], cl_remote = [?ch \<mapsto> ?ch, ''u'' \<mapsto> ''a'']\<rparr>
      [''u'' \<mapsto> ''a''] {?ch} (\<lambda>i. {})"
    by (simp add: eval insert_Diff_if no_event_missed)
  from run_get [OF this, of 1 0 "''u''" "Inr ''a''" "\<lparr>cl_nodes = [sample_node [''u'' \<mapsto> ''a''] True [''u''], sample_node [''u'' \<mapsto> ''a''] True [''u'']], cl_remote = [?ch \<mapsto> ?ch, ''u'' \<mapsto> ''a'']\<rparr>"]
  have "?run \<lparr>cl_nodes = [sample_node [''u'' \<mapsto> ''a''] True [''u''], sample_node [''u'' \<mapsto> ''a''] True [''u'']], cl_remote = [?ch \<mapsto> ?ch, ''u'' \<mapsto> ''a'']\<rparr>
      [''u'' \<mapsto> ''a''] {?ch} (\<lambda>i. {})"
    by (simp add: eval)
  from run_set [OF this, of 0 0 0 "''u''" "''b''" "\<lparr>cl_nodes = [sample_node [''u'' \<mapsto> ''b''] True [''u'', ''u''], sample_node [''u'' \<mapsto> ''a''] True [''u'', ''u'']], cl_remote = [?ch \<mapsto> ?ch, ''u'' \<mapsto> ''b'']\<rparr>"]
  have "?run \<lparr>cl_nodes = [sample_node [''u'' \<mapsto> ''b''] True [''u'', ''u''], sample_node [''u'' \<mapsto> ''a''] True [''u'', ''u'']], cl_remote = [?ch \<mapsto> ?ch, ''u'' \<mapsto> ''b'']\<rparr>
      [''u'' \<mapsto> ''b''] {?ch} (\<lambda>i. {})"
    by (simp add: eval insert_Diff_if no_event_missed)
  from run_receive [OF run_receive [OF this, of 1 "''u''" "[''u'']"], of 1 "''u''" "[]"]
  show ?thesis by (simp add: eval sample_cluster_def fun_upd_idem)
qed


end
