(* ===== verification/Stored_Values.thy ===== *)
theory Stored_Values
  imports Service_History
begin

text \<open>
  The types of what is stored. SQLite keeps password hashes, scopes, names and secrets as plain text;
  which texts they can be follows only from the code that writes them. Here that is a typing
  discipline: \<open>yields E T m\<close> says that \<open>m\<close>, run on a well-typed database, leaves one and returns a
  value of type \<open>T\<close>.
\<close>

section \<open>Types of stored values\<close>

definition password_hash :: "'r env \<Rightarrow> string \<Rightarrow> bool" where
  "password_hash E h \<longleftrightarrow>
     (\<exists>pw salt digest. h = encode_hash defaultConfig salt digest \<and> e_argon2 E pw salt 1 65536 4 32 = Some digest)"

definition secret_hash :: "'r env \<Rightarrow> string \<Rightarrow> bool" where
  "secret_hash E h \<longleftrightarrow> h \<in> range (secretHash E)"

definition user_ty :: "'r env \<Rightarrow> UserModel \<Rightarrow> bool" where
  "user_ty E u \<longleftrightarrow> um_Email u \<noteq> '''' \<and> pred_option (password_hash E) (um_HashedPassword u)"

definition account_ty :: "'r env \<Rightarrow> Account \<Rightarrow> bool" where
  "account_ty E a \<longleftrightarrow> check_name (ac_Name a) = None \<and> TrimSpace (ac_Name a) = ac_Name a \<and>
     normalizeScopes (e_unicode_quote E) (ac_Scopes a) = Inr (ac_Scopes a)"

definition record_ty :: "'r env \<Rightarrow> BootstrapRecord \<Rightarrow> bool" where
  "record_ty E r \<longleftrightarrow> account_ty E (br_Account r) \<and> secret_hash E (br_SecretHash r)"

definition db_ty :: "'r env \<Rightarrow> db \<Rightarrow> bool" where
  "db_ty E d \<longleftrightarrow> (\<forall>u \<in> set (db_users d). user_ty E (userToDomain u)) \<and>
     (\<forall>a \<in> set (db_accounts d). account_ty E (rowToAccount a)) \<and>
     (\<forall>c \<in> set (db_creds d). secret_hash E (cr_secret_hash c))"

lemma db_ty_empty: "db_ty E db_empty"
  by (simp add: db_ty_def db_empty_def)

section \<open>The typing judgement\<close>

definition yields :: "'r env \<Rightarrow> ('a \<Rightarrow> bool) \<Rightarrow> ('r world, 'a) state \<Rightarrow> bool" where
  "yields E T m \<longleftrightarrow> (\<forall>w a w'. db_ty E (w_db w) \<longrightarrow> run_state m w = (a, w') \<longrightarrow> db_ty E (w_db w') \<and> T a)"

definition succ_ty :: "('a \<Rightarrow> bool) \<Rightarrow> 'e + 'a \<Rightarrow> bool" where
  "succ_ty T r \<longleftrightarrow> (\<forall>a. r = Inr a \<longrightarrow> T a)"

abbreviation any_ty :: "'a \<Rightarrow> bool" where "any_ty \<equiv> \<lambda>_. True"

named_theorems typing \<open>typing rules of programs\<close>

lemma succ_ty_simps [simp]: "succ_ty T (Inl e)" "succ_ty T (Inr a) \<longleftrightarrow> T a" "succ_ty T (map_sum f id r) \<longleftrightarrow> succ_ty T r"
  by (auto simp: succ_ty_def, (cases r; simp)+)

lemma succ_ty_any: "succ_ty any_ty r"
  by (simp add: succ_ty_def)

lemma yieldsI:
  "(\<And>w a w'. db_ty E (w_db w) \<Longrightarrow> run_state m w = (a, w') \<Longrightarrow> db_ty E (w_db w') \<and> T a) \<Longrightarrow> yields E T m"
  unfolding yields_def by blast

lemma yieldsD: "yields E T m \<Longrightarrow> db_ty E (w_db w) \<Longrightarrow> run_state m w = (a, w') \<Longrightarrow> db_ty E (w_db w') \<and> T a"
  unfolding yields_def by blast

lemma yields_weaken: "yields E T m \<Longrightarrow> (\<And>a. T a \<Longrightarrow> T' a) \<Longrightarrow> yields E T' m"
  unfolding yields_def by blast

lemma yields_keeps: "keeps w_db m \<Longrightarrow> yields E any_ty m"
  by (rule yieldsI) (auto dest: keepsD)

lemma yields_return [typing]: "T a \<Longrightarrow> yields E T (State_Monad.return a)"
  by (simp add: yields_def)

lemma yields_bind [typing]:
  "yields E T m \<Longrightarrow> (\<And>a. T a \<Longrightarrow> yields E T' (g a)) \<Longrightarrow> yields E T' (State_Monad.bind m g)"
  by (rule yieldsI) (auto split: prod.splits dest: yieldsD)

lemma yields_if [typing]:
  "(b \<Longrightarrow> yields E T m) \<Longrightarrow> (\<not> b \<Longrightarrow> yields E T n) \<Longrightarrow> yields E T (if b then m else n)"
  by simp

lemma yields_case_sum [typing]:
  "succ_ty P x \<Longrightarrow> (\<And>e. yields E T (g e)) \<Longrightarrow> (\<And>a. P a \<Longrightarrow> yields E T (h a)) \<Longrightarrow>
   yields E T (case x of Inl e \<Rightarrow> g e | Inr a \<Rightarrow> h a)"
  by (cases x) auto

lemma yields_case_option [typing]:
  "yields E T g \<Longrightarrow> (\<And>a. yields E T (h a)) \<Longrightarrow> yields E T (case x of None \<Rightarrow> g | Some a \<Rightarrow> h a)"
  by (cases x) auto

lemma yields_case_prod [typing]: "(\<And>a b. x = (a, b) \<Longrightarrow> yields E T (g a b)) \<Longrightarrow> yields E T (case x of (a, b) \<Rightarrow> g a b)"
  by (cases x) auto

lemma yields_Let [typing]: "(\<And>x. x = t \<Longrightarrow> yields E T (g x)) \<Longrightarrow> yields E T (let x = t in g x)"
  by simp

lemma yields_andthen [typing]:
  "yields E (succ_ty P) m \<Longrightarrow> (\<And>a. P a \<Longrightarrow> yields E (succ_ty Q) (g a)) \<Longrightarrow> yields E (succ_ty Q) (andthen m g)"
  unfolding andthen_def by (rule yields_bind, assumption, rule yields_case_sum, assumption) (simp_all add: yields_return)

lemma yields_on_error [typing]: "yields E (succ_ty P) m \<Longrightarrow> yields E (succ_ty P) (on_error m f)"
  unfolding on_error_def by (rule yields_bind, assumption) (simp add: yields_return)

lemma yields_reply [typing]: "P a \<Longrightarrow> yields E (succ_ty P) (reply a)" "yields E (succ_ty P) (fail c msg)"
  by (simp_all add: reply_def fail_def yields_return)

lemma yields_Exec:
  assumes "\<And>d d' a. db_ty E d \<Longrightarrow> s d = Inr (d', a) \<Longrightarrow> db_ty E d'"
  shows "yields E any_ty (db_Exec E' s)"
  using maintainsD [OF maintains_db_Exec [where I = "db_ty E", OF assms]] by (auto intro!: yieldsI)

lemma yields_Query:
  assumes "\<And>d a. db_ty E d \<Longrightarrow> q d = Inr a \<Longrightarrow> T a"
  shows "yields E (succ_ty T) (db_Query E' q)"
  by (rule yieldsI) (auto simp: run_db_Query succ_ty_def intro: assms split: option.splits)

lemma yields_Transact [typing]:
  assumes "yields E any_ty body"
  shows "yields E (succ_ty any_ty) (db_Transact E' be ce body)"
proof -
  have "maintains (\<lambda>w. db_ty E (w_db w)) body" using assms by (auto intro!: maintainsI dest: yieldsD)
  from maintains_db_Transact [OF this, of E' be ce] show ?thesis
    by (auto intro!: yieldsI simp: succ_ty_any dest: maintainsD)
qed

section \<open>Stores\<close>

lemma yields_effects [typing]:
  "yields E any_ty (time_Now E')" "yields E any_ty (rand_Read E' k)" "yields E any_ty (rand_Int E' k)"
  "yields E any_ty (uuid_NewString E')" "yields E any_ty next_tick"
  by (intro yields_keeps frame, simp)+

lemma yields_redis_Run [typing]: "yields E any_ty (redis_Run E' c)"
  by (intro yields_keeps frame) simp_all

lemma yields_send_Mail [typing]: "yields E any_ty (send_Mail E' m)"
  by (intro yields_keeps frame) simp_all

lemma yields_create_user:
  assumes "user_ty E (userToDomain arg)"
  shows "yields E any_ty (db_Exec E' (\<lambda>d. map_sum id (\<lambda>d'. (d', ())) (CreateUser arg d)))"
proof (rule yields_Exec)
  fix d d' a assume d: "db_ty E d" and "map_sum id (\<lambda>d'. (d', ())) (CreateUser arg d) = Inr (d', a)"
  then have "CreateUser arg d = Inr d'" by (cases "CreateUser arg d") auto
  then show "db_ty E d'" using d assms by (auto simp: CreateUser_def db_ty_def userToDomain_def split: if_splits)
qed

lemma yields_create_identity [typing]:
  "yields E any_ty (db_Exec E' (\<lambda>d. map_sum id (\<lambda>d'. (d', ())) (CreateExternalIdentity arg d)))"
proof (rule yields_Exec)
  fix d d' a assume d: "db_ty E d" and "map_sum id (\<lambda>d'. (d', ())) (CreateExternalIdentity arg d) = Inr (d', a)"
  then have "CreateExternalIdentity arg d = Inr d'" by (cases "CreateExternalIdentity arg d") auto
  then show "db_ty E d'" using d by (auto simp: CreateExternalIdentity_def db_ty_def split: if_splits)
qed

lemma yields_update_users:
  "e \<noteq> '''' \<Longrightarrow> pred_option (password_hash E) hp \<Longrightarrow> yields E any_ty (db_Exec E' (UpdateUser i e hp h l t))"
  "yields E any_ty (db_Exec E' (SoftDeleteUser i t t'))"
  "pred_option (password_hash E) hp \<Longrightarrow> yields E any_ty (db_Exec E' (SetUserPassword i hp t))"
  by (rule yields_Exec, auto simp: UpdateUser_def SoftDeleteUser_def SetUserPassword_def update_users_def db_ty_def
      user_ty_def userToDomain_def split: if_splits)+

lemma yields_account_statements:
  "account_ty E a \<Longrightarrow> yields E any_ty (db_Exec E' (InsertServiceAccount a))"
  "secret_hash E s \<Longrightarrow> yields E any_ty (db_Exec E' (InsertCredential i acc s t))"
  "yields E any_ty (db_Exec E' (DisableAccount_sql i t))" "yields E any_ty (db_Exec E' (RevokeCredentials_sql i t))"
  "yields E any_ty (db_Exec E' (UpsertSystemState k v t))" "yields E any_ty (db_Exec E' (InsertAuditEvent ev))"
  by (rule yields_Exec, auto simp: InsertServiceAccount_def InsertCredential_def DisableAccount_sql_def
      RevokeCredentials_sql_def UpsertSystemState_def InsertAuditEvent_def db_ty_def account_ty_def rowToAccount_def
      Let_def split: if_splits)+

lemmas [typing] = yields_update_users(2) yields_account_statements

lemma yields_any_query: "yields E (succ_ty any_ty) (db_Query E' q)"
  by (rule yields_Query) simp

lemma yields_user_lookup [typing]:
  "yields E (succ_ty (user_ty E)) (UserStore_GetByEmail E' e)" "yields E (succ_ty (user_ty E)) (UserStore_GetByID E' i)"
proof -
  have "yields E (succ_ty (\<lambda>u. user_ty E (userToDomain u))) (db_Query E' (GetUserByEmail e))"
    "yields E (succ_ty (\<lambda>u. user_ty E (userToDomain u))) (db_Query E' (GetUserByID i))"
    by (rule yields_Query, auto simp: GetUserByEmail_def GetUserByID_def db_ty_def dest!: find_Some_iff_mem split: option.splits)+
  then show "yields E (succ_ty (user_ty E)) (UserStore_GetByEmail E' e)" "yields E (succ_ty (user_ty E)) (UserStore_GetByID E' i)"
    unfolding UserStore_GetByEmail_def UserStore_GetByID_def
    by (auto intro!: yields_bind yields_return simp: succ_ty_def map_sum_def split: sum.splits)
qed

lemma user_ty_new: "user_ty E (new_user e hp) \<longleftrightarrow> e \<noteq> '''' \<and> pred_option (password_hash E) hp"
  by (simp add: user_ty_def new_user_def)

lemma yields_user_write:
  "user_ty E u \<Longrightarrow> yields E (succ_ty (user_ty E)) (UserStore_Create E' u)"
  "user_ty E u \<Longrightarrow> yields E (succ_ty (user_ty E)) (UserStore_Update E' u)"
  "password_hash E h \<Longrightarrow> yields E (succ_ty any_ty) (UserStore_SetPassword E' i h)"
  "yields E (succ_ty any_ty) (UserStore_Delete E' i)"
  unfolding UserStore_Create_def UserStore_Update_def UserStore_SetPassword_def UserStore_Delete_def
  by (rule typing yields_create_user yields_update_users | simp add: user_ty_def userToDomain_def succ_ty_any split: sum.splits)+

lemmas [typing] = yields_user_write

lemma yields_identity_stores [typing]:
  "yields E (succ_ty any_ty) (ExternalIdentityStore_Create E' x)"
  "yields E (succ_ty any_ty) (ExternalIdentityStore_GetByProviderID E' p i)"
  "yields E (succ_ty any_ty) (ExternalIdentityStore_GetByUserID E' u)"
  "yields E (succ_ty any_ty) (UserStore_List E' off lim)"
  unfolding ExternalIdentityStore_Create_def ExternalIdentityStore_GetByProviderID_def ExternalIdentityStore_GetByUserID_def
    UserStore_List_def
  by (rule typing yields_any_query | simp add: succ_ty_any)+

section \<open>Credentials\<close>

lemma yields_HashPassword [typing]: "yields E (succ_ty (password_hash E)) (HashPassword E pw)"
  unfolding HashPassword_def
  by (rule typing | auto simp: password_hash_def defaultConfig_def succ_ty_def split: option.splits)+

lemma record_ty_new:
  assumes "check_name (TrimSpace n) = None" and "normalizeScopes (e_unicode_quote E) scs = Inr out"
  shows "record_ty E \<lparr>br_Account = new_account i (TrimSpace n) out t, br_CredentialID = c, br_SecretHash = secretHash E s\<rparr>"
  using assms by (auto simp: record_ty_def account_ty_def new_account_def secret_hash_def TrimSpace_idem normalizeScopes_fixed)

lemma yields_randomValue [typing]: "yields E any_ty (randomValue E' p k)"
  unfolding randomValue_def by (rule typing | simp)+

lemma yields_newRecord [typing]: "yields E (succ_ty (\<lambda>(r, s). record_ty E r)) (newRecord E n scs)"
proof (cases "check_name (TrimSpace n)")
  case None
  show ?thesis
  proof (cases "normalizeScopes (e_unicode_quote E) scs")
    case (Inl e)
    then show ?thesis using None by (simp add: newRecord_def yields_return)
  next
    case (Inr out)
    show ?thesis unfolding newRecord_def Let_def None Inr option.case sum.case
      by (rule typing succ_ty_any | simp add: record_ty_new [OF None Inr])+
  qed
qed (simp add: newRecord_def yields_return)

lemma yields_newBootstrapRecord [typing]: "yields E (succ_ty (\<lambda>(r, s). record_ty E r)) (newBootstrapRecord E req)"
proof (cases "check_name (TrimSpace (bq_Name req))")
  case None
  show ?thesis
  proof (cases "normalizeScopes (e_unicode_quote E) (bq_Scopes req)")
    case (Inl e)
    show ?thesis unfolding newBootstrapRecord_def Let_def None Inl option.case sum.case
      by (rule yields_if yields_newRecord yields_return succ_ty_simps)+
  next
    case (Inr out)
    show ?thesis unfolding newBootstrapRecord_def Let_def None Inr option.case sum.case
      by (rule typing succ_ty_any | simp add: record_ty_new [OF None Inr])+
  qed
next
  case (Some msg)
  show ?thesis unfolding newBootstrapRecord_def Let_def Some option.case
    by (rule yields_if yields_newRecord yields_return succ_ty_simps)+
qed

lemma yields_insertServiceAccount [typing]: "record_ty E r \<Longrightarrow> yields E any_ty (insertServiceAccount E' r)"
  unfolding insertServiceAccount_def record_ty_def
  by (rule typing succ_ty_any | simp)+

lemma yields_bootstrap_parts [typing]:
  "yields E (succ_ty any_ty) (findServiceAccountByName E' n)" "record_ty E r \<Longrightarrow> yields E any_ty (bootstrap_write E' r)"
  unfolding findServiceAccountByName_def bootstrap_write_def
  by (rule typing yields_any_query succ_ty_any TrueI | assumption)+

lemma yields_account_changes [typing]:
  "record_ty E r \<Longrightarrow> yields E (succ_ty any_ty) (ServiceAccountStore_Create E' r)"
  "record_ty E r \<Longrightarrow> yields E (succ_ty any_ty) (ServiceAccountStore_Bootstrap E' r b f)"
  "secret_hash E h \<Longrightarrow> yields E (succ_ty any_ty) (ServiceAccountStore_RotateCredential E' i c h t)"
  unfolding ServiceAccountStore_Create_def ServiceAccountStore_Bootstrap_def ServiceAccountStore_RotateCredential_def
  by (rule typing yields_any_query succ_ty_any TrueI | assumption)+

lemma yields_account_lookups [typing]:
  "yields E (succ_ty any_ty) (ServiceAccountStore_GetByID E' i)"
  "yields E (succ_ty any_ty) (ServiceAccountStore_List E')"
  "yields E (succ_ty any_ty) (ServiceAccountStore_Authenticate E' i h t)"
  unfolding ServiceAccountStore_GetByID_def ServiceAccountStore_List_def ServiceAccountStore_Authenticate_def
  by (rule typing yields_any_query succ_ty_any)+

lemma yields_Disable [typing]: "yields E (succ_ty any_ty) (ServiceAccountStore_Disable E' i t)"
  unfolding ServiceAccountStore_Disable_def by (rule typing succ_ty_any)+

section \<open>Handlers\<close>

text \<open>Programs that return a sum are typed by \<open>succ_ty\<close> throughout, the others by a type of their value.\<close>

lemma yields_sum: "yields E any_ty m \<Longrightarrow> yields E (succ_ty any_ty) m"
  by (erule yields_weaken) (rule succ_ty_any)

lemmas free = succ_ty_any TrueI yields_sum [OF yields_redis_Run]

lemma yields_record_use:
  assumes "yields E (succ_ty (\<lambda>(r, s). record_ty E r)) m" and "\<And>r s. record_ty E r \<Longrightarrow> yields E T (g r s)"
    and "\<And>e. yields E T (h e)"
  shows "yields E T (do { n \<leftarrow> m; case n of Inl e \<Rightarrow> h e | Inr (r, s) \<Rightarrow> g r s })"
  by (rule yields_bind [OF assms(1)], rule yields_case_sum, assumption) (auto intro: assms(2,3))

lemma yields_service_account [typing]:
  "yields E (succ_ty any_ty) (Create E n scs)" "yields E (succ_ty any_ty) (Bootstrap E req)"
  "yields E (succ_ty any_ty) (Authenticate E' i s)"
  unfolding Create_def Bootstrap_def Authenticate_def
  by (rule yields_record_use typing free | assumption)+

lemma yields_RotateCredential [typing]: "yields E (succ_ty any_ty) (RotateCredential E i)"
  unfolding RotateCredential_def by (rule typing free | simp add: secret_hash_def)+

lemma yields_caches [typing]:
  "yields E (succ_ty any_ty) (IsAllowed E' rl k)" "yields E (succ_ty any_ty) (Record E' rl k)" "yields E (succ_ty any_ty) (Reset E' rl k)"
  "yields E (succ_ty any_ty) (Revoke E' s i t)" "yields E (succ_ty any_ty) (IsRevoked E' s i)"
  "yields E (succ_ty any_ty) (EmailCodeStore_Set E' c e v)" "yields E (succ_ty any_ty) (EmailCodeStore_Consume E' c e v)"
  "yields E (succ_ty any_ty) (OAuthStateStore_Add E' st k p u)" "yields E (succ_ty any_ty) (OAuthStateStore_Consume E' st k)"
  unfolding IsAllowed_def Record_def Reset_def Revoke_def IsRevoked_def EmailCodeStore_Set_def
    EmailCodeStore_Consume_def OAuthStateStore_Add_def OAuthStateStore_Consume_def
  by (rule free | rule typing)+

lemma yields_limits [typing]:
  "yields E (succ_ty any_ty) (rateLimitAllowed E' rl keys)" "yields E (succ_ty any_ty) (recordRateLimit E' rl keys)"
  by (induction keys) (simp_all, (rule free typing | assumption)+)

lemma yields_limiter [typing]:
  "yields E any_ty (limited E' l keys)" "yields E any_ty (record_failure E' l keys)" "yields E any_ty (reset_limit E' l k)"
  "yields E any_ty (send_code_limited E' l keys)"
  unfolding limited_def record_failure_def reset_limit_def send_code_limited_def
  by (rule free typing)+

lemma yields_claims [typing]: "yields E any_ty (NewStandardClaims E' u ty iss x)" "yields E (succ_ty any_ty) (ValidateToken E' t pk)"
  unfolding NewStandardClaims_def ValidateToken_def by (rule free typing)+

lemma yields_tokens [typing]:
  "yields E (succ_ty any_ty) (NewTokenPair E' u cfg)" "yields E (succ_ty any_ty) (NewServiceToken E' u sc cfg)"
  "yields E (succ_ty any_ty) (ValidateAccessToken E' t pk)" "yields E (succ_ty any_ty) (ValidateRefreshToken E' t pk)"
  "yields E (succ_ty any_ty) (ValidateServiceToken E' t pk)"
  unfolding NewTokenPair_def NewServiceToken_def ValidateAccessToken_def ValidateRefreshToken_def ValidateServiceToken_def
  by (rule free typing)+

lemma yields_recordLogin [typing]: "user_ty E u \<Longrightarrow> yields E (user_ty E) (recordLogin E' u)"
  unfolding recordLogin_def Let_def
  by (rule typing | simp add: user_ty_def succ_ty_def split: sum.splits)+

lemma yields_issue_pair [typing]: "yields E (succ_ty any_ty) (issue_pair E' S u)"
  unfolding issue_pair_def by (rule typing)+

lemma yields_RegisterWithPassword [typing]: "yields E (succ_ty any_ty) (RegisterWithPassword E S e pw)"
  unfolding RegisterWithPassword_def by (rule free typing | assumption | simp add: user_ty_new)+

lemma yields_LoginWithPassword [typing]: "yields E (succ_ty any_ty) (LoginWithPassword E S ctx e pw)"
  unfolding LoginWithPassword_def by (assumption | rule free typing)+

lemma yields_RequestEmailLoginCode [typing]: "yields E (succ_ty any_ty) (RequestEmailLoginCode E S ctx e h)"
  unfolding RequestEmailLoginCode_def generateEmailCode_def sendVerificationCode_def by (rule free typing)+

lemma yields_user_of_code:
  assumes "email \<noteq> ''''" and "succ_ty (user_ty E) g"
  shows "yields E (succ_ty (user_ty E))
    (case g of Inr usr \<Rightarrow> reply usr
     | Inl err \<Rightarrow> if err = ErrNotFound then on_error (UserStore_Create E (new_user email None)) f else fail c msg)"
  by (rule yields_case_sum [OF assms(2)] yields_if yields_on_error yields_reply yields_user_write(1) | assumption
      | simp add: user_ty_new assms(1))+

lemma yields_LoginWithEmailCode [typing]: "yields E (succ_ty any_ty) (LoginWithEmailCode E S ctx e c)"
  unfolding LoginWithEmailCode_def Let_def
  by (rule free yields_andthen [OF yields_user_of_code] typing | assumption | simp)+

lemma yields_sessions [typing]: "yields E (succ_ty any_ty) (RefreshSession E S t)" "yields E (succ_ty any_ty) (RevokeSession E S t)"
  unfolding RefreshSession_def RevokeSession_def ensureRefreshTokenActive_def revokeRefreshClaims_def
  by (rule free typing)+

lemma yields_GetCurrentUser [typing]: "yields E (succ_ty any_ty) (GetCurrentUser E S ctx)"
  unfolding GetCurrentUser_def by (rule free typing)+

lemma yields_provider [typing]:
  "yields E any_ty (GetUserInfo E' t)" "yields E any_ty (GetEmail E' t)" "yields E any_ty (generateOAuthState E')"
  "yields E any_ty (oauth_Exchange E' cfg c)"
  unfolding GetUserInfo_def GetEmail_def generateOAuthState_def oauth_Exchange_def by (rule free typing)+

lemma yields_oauth_user [typing]:
  "user_ty E u \<Longrightarrow> yields E (succ_ty (user_ty E)) (updateEmailIfNeeded E u e)"
  "user_ty E u \<Longrightarrow> yields E (succ_ty (user_ty E)) (merge_by_email E info u)"
  "ui_Email info \<noteq> '''' \<Longrightarrow> yields E (succ_ty (user_ty E)) (create_oauth_user E info)"
  unfolding updateEmailIfNeeded_def merge_by_email_def create_oauth_user_def
  by (assumption | rule free typing | simp add: user_ty_def new_user_def)+

lemma yields_ensureOAuthUser [typing]: "yields E (succ_ty (user_ty E)) (ensureOAuthUser E info)"
  unfolding ensureOAuthUser_def by (assumption | rule free typing | force)+

lemma yields_oauth_parts [typing]:
  "yields E any_ty (maybeFillOAuthEmail E S t info)" "yields E (succ_ty any_ty) (redeem_state E S st c)"
  "yields E (succ_ty any_ty) (link_identity E p i u)"
  unfolding maybeFillOAuthEmail_def redeem_state_def link_identity_def by (rule free typing)+

lemma yields_oauth [typing]:
  "yields E (succ_ty any_ty) (StartOAuthLogin E S p u)" "yields E (succ_ty any_ty) (LoginWithOAuth E S c st)"
  "yields E (succ_ty any_ty) (LinkOAuthAccount E S ctx c st)"
  unfolding StartOAuthLogin_def LoginWithOAuth_def LinkOAuthAccount_def by (assumption | rule free typing)+

lemma yields_audit [typing]: "yields E any_ty (recordManagementAudit E a act ty i)" "yields E (succ_ty any_ty) (AuditStore_List E off lim)"
  unfolding recordManagementAudit_def AuditStore_Record_def AuditStore_List_def
  by (rule free typing yields_any_query)+

lemma yields_authorize [typing]: "yields E (succ_ty any_ty) (authorizeServiceAccount E S ctx scs)"
  unfolding authorizeServiceAccount_def by (rule free typing)+

lemma yields_accounts_api [typing]:
  "yields E (succ_ty any_ty) (ExchangeServiceToken E S c s)" "yields E (succ_ty any_ty) (CreateServiceAccount E S ctx n scs)"
  "yields E (succ_ty any_ty) (ListServiceAccounts E S ctx)" "yields E (succ_ty any_ty) (DisableServiceAccount E S ctx c)"
  "yields E (succ_ty any_ty) (RotateServiceAccountSecret E S ctx c)"
  unfolding ExchangeServiceToken_def CreateServiceAccount_def ListServiceAccounts_def DisableServiceAccount_def RotateServiceAccountSecret_def
  by (rule free typing)+

lemma yields_users_api [typing]:
  "yields E (succ_ty any_ty) (ListUsers E S ctx sz t)" "yields E (succ_ty any_ty) (CreatePasswordUser E S ctx em pw)"
  "yields E (succ_ty any_ty) (DeleteUser E S ctx i)" "yields E (succ_ty any_ty) (ResetUserPassword E S ctx i pw)"
  "yields E (succ_ty any_ty) (ListAuditEvents E S ctx sz t)"
  unfolding ListUsers_def CreatePasswordUser_def DeleteUser_def ResetUserPassword_def ListAuditEvents_def
  by (assumption | rule free typing | simp add: user_ty_new)+

section \<open>What every stored value is\<close>

lemma yields_effect: "yields E T m \<Longrightarrow> db_ty E (w_db w) \<Longrightarrow> db_ty E (w_db (effect_of m w))"
  unfolding effect_of_def by (metis prod.collapse yieldsD)

lemma serve_ty: "db_ty E (w_db w) \<Longrightarrow> db_ty E (w_db (serve E S c w))"
  by (cases c; simp only: serve.simps; rule yields_effect; (rule typing | assumption))

lemma served_ty: "served E S w w' \<Longrightarrow> db_ty E (w_db w) \<Longrightarrow> db_ty E (w_db w')"
  by (induction rule: served.induct) (auto intro: serve_ty)

text \<open>
  (C8) Types of the stored values. From a well-typed database (the empty one is), whatever calls are
  served and whatever faults occur, every stored password hash is one the code can read: some password
  opens it and no password makes its verification end in a format error; no user is stored without an
  email address; every service account has a trimmed, non-empty name of at most 128 bytes and scopes
  that are sorted, unique and valid, so that normalising them again changes nothing; and every stored
  secret is the digest of one.
\<close>

theorem stored_values_typed:
  assumes "served E S w w'" and "db_ty E (w_db w)" and "argon2_len E"
  shows "(\<forall>u \<in> set (db_users (w_db w')). ur_email u \<noteq> '''' \<and>
            (\<forall>h. ur_hashed_password u = Some h \<longrightarrow>
               (\<exists>pw. VerifyPassword E pw h = Inr True) \<and> (\<forall>pw msg. VerifyPassword E pw h \<noteq> Inl (PwError msg)))) \<and>
         (\<forall>a \<in> set (db_accounts (w_db w')).
            TrimSpace (ar_name a) = ar_name a \<and> ar_name a \<noteq> '''' \<and> length (ar_name a) \<le> 128 \<and>
            normalizeScopes (e_unicode_quote E) (ar_scopes a) = Inr (ar_scopes a)) \<and>
         (\<forall>c \<in> set (db_creds (w_db w')). cr_secret_hash c \<in> range (secretHash E))"
proof -
  have ty: "db_ty E (w_db w')" using assms(1,2) by (rule served_ty)
  have "(\<exists>pw. VerifyPassword E pw h = Inr True) \<and> (\<forall>pw msg. VerifyPassword E pw h \<noteq> Inl (PwError msg))"
    if p: "password_hash E h" for h
  proof -
    obtain pw salt digest where h: "h = encode_hash defaultConfig salt digest" and d: "e_argon2 E pw salt 1 65536 4 32 = Some digest"
      using p unfolding password_hash_def by blast
    note v = VerifyPassword_encoded [OF assms(3) d, folded h]
    from v [of pw] d have "VerifyPassword E pw h = Inr True" by simp
    moreover have "VerifyPassword E other h \<noteq> Inl (PwError msg)" for other msg
      by (simp add: v split: option.splits)
    ultimately show ?thesis by blast
  qed
  with ty show ?thesis
    by (auto simp: db_ty_def user_ty_def userToDomain_def account_ty_def rowToAccount_def check_name_def secret_hash_def
        split: if_splits)
qed

definition sample_typed_db :: db where
  "sample_typed_db = sample_db\<lparr>db_users := [sample_user\<lparr>ur_hashed_password :=
     Some (encode_hash defaultConfig (sample_bytes 0 16) (take 32 (''hunter2'' @ sample_bytes 0 16 @ replicate 32 CHR ''0'')))\<rparr>]\<rparr>"

lemma sample_argon2: "argon2_len sample_env" "e_argon2 sample_env pw salt 1 65536 4 32 = Some (take 32 (pw @ salt @ replicate 32 CHR ''0''))"
  by (auto simp: argon2_len_def sample_env_def split: if_splits)

lemma sample_typed_db_ty: "db_ty sample_env sample_typed_db"
proof -
  have "password_hash sample_env (encode_hash defaultConfig (sample_bytes 0 16) (take 32 (''hunter2'' @ sample_bytes 0 16 @ replicate 32 CHR ''0'')))"
    unfolding password_hash_def using sample_argon2(2) [of "''hunter2''" "sample_bytes 0 16"] by blast
  moreover have "TrimSpace ''ops'' = ''ops''" "TrimSpace ''identra.admin'' = ''identra.admin''" by (simp_all add: TrimSpace_plain)
  moreover have "scopePattern ''identra.admin''" by (simp add: alnum_def scope_char_def)
  ultimately show ?thesis
    by (simp add: sample_typed_db_def sample_db_def db_ty_def db_empty_def user_ty_def userToDomain_def sample_user_def
        account_ty_def rowToAccount_def sample_account_def check_name_def normalizeScopes_def Let_def del: scopePattern.simps)
qed

theorem stored_values_typed_witness:
  "\<exists>u \<in> set (db_users (w_db (serve sample_env sample_service (CallCurrentUser (\<lambda>_. [])) (sample_world\<lparr>w_db := sample_typed_db\<rparr>)))).
     \<exists>h. ur_hashed_password u = Some h \<and> (\<exists>pw. VerifyPassword sample_env pw h = Inr True) \<and>
         (\<forall>pw msg. VerifyPassword sample_env pw h \<noteq> Inl (PwError msg))"
proof -
  let ?w = "sample_world\<lparr>w_db := sample_typed_db\<rparr>"
  let ?w' = "serve sample_env sample_service (CallCurrentUser (\<lambda>_. [])) ?w"
  have "w_db ?w' = sample_typed_db"
    by (simp add: effect_of_def GetCurrentUser_def accessTokenFromMetadata_def fail_def)
  then show ?thesis
    using stored_values_typed [OF call [OF start, of sample_env sample_service ?w "CallCurrentUser (\<lambda>_. [])"]]
      sample_typed_db_ty sample_argon2(1)
    by (simp add: sample_typed_db_def sample_db_def)
qed

end
