(* ===== verification/Paging.thy ===== *)
theory Paging
  imports Service_Authorization
begin

text \<open>
  Following the page tokens of \<^verbatim>\<open>ListUsers\<close> and \<^verbatim>\<open>ListAuditEvents\<close> from the first page to the last.
\<close>

section \<open>Pages of a list\<close>

definition page_at :: "int \<Rightarrow> 'a list \<Rightarrow> nat \<Rightarrow> 'a list \<times> string" where
  "page_at sz rows off = page_of (int off) sz (limit_offset (sz + 1) (int off) rows)"

definition token_of :: "nat \<Rightarrow> string" where
  "token_of off = (if off = 0 then '''' else Itoa (int off))"

text \<open>\<open>P tok (us, next)\<close>: a call with the token \<open>tok\<close> gives the page \<open>us\<close> and the token \<open>next\<close>.\<close>

inductive follow :: "(string \<Rightarrow> 'a list \<times> string \<Rightarrow> bool) \<Rightarrow> string \<Rightarrow> 'a list \<Rightarrow> bool" for P where
  last_page: "P tok (us, '''') \<Longrightarrow> follow P tok us"
| next_page: "P tok (us, nxt) \<Longrightarrow> nxt \<noteq> '''' \<Longrightarrow> follow P nxt rest \<Longrightarrow> follow P tok (us @ rest)"

inductive_cases followE: "follow P tok us"

lemma int64_add_small: "0 \<le> a \<Longrightarrow> 0 \<le> b \<Longrightarrow> a + b < 2 ^ 63 \<Longrightarrow> int64_add a b = a + b"
  unfolding int64_add_def sint_sbintrunc' by (simp add: signed_take_bit_int_eq_self)

lemma page_at_eq:
  assumes "1 \<le> sz" and "sz \<le> 200" and "length rows < 2 ^ 62" and "off \<le> length rows"
  shows "page_at sz rows off =
    (take (nat sz) (drop off rows), if off + nat sz < length rows then token_of (off + nat sz) else '''')"
proof -
  have "int64_add (int off) sz = int (off + nat sz)"
    using assms by (subst int64_add_small) auto
  then show ?thesis using assms
    by (auto simp: page_at_def page_of_def limit_offset_def token_of_def Let_def min_def nat_add_distrib)
qed

lemma page_of_map: "page_of off sz (map f rows) = map_prod (map f) id (page_of off sz rows)"
  by (simp add: page_of_def take_map)

lemma limit_offset_map: "limit_offset lim off (map f rows) = map f (limit_offset lim off rows)"
  by (simp add: limit_offset_def Let_def take_map drop_map)

lemma follow_whole:
  assumes sz: "1 \<le> sz" "sz \<le> 200" and rows: "length rows < 2 ^ 62"
    and P: "\<And>off r. off \<le> length rows \<Longrightarrow> P (token_of off) r \<longleftrightarrow> r = page_at sz rows off"
  shows "off \<le> length rows \<Longrightarrow> follow P (token_of off) us \<longleftrightarrow> us = drop off rows"
proof (induction "length rows - off" arbitrary: off us rule: less_induct)
  case less
  let ?n = "off + nat sz"
  have page: "P (token_of off) r \<longleftrightarrow> r = (take (nat sz) (drop off rows), if ?n < length rows then token_of ?n else '''')" for r
    using P [OF less.prems] page_at_eq [OF sz rows less.prems] by simp
  have ne: "token_of ?n \<noteq> ''''" using sz by (simp add: token_of_def)
  show ?case
  proof (cases "?n < length rows")
    case True
    have IH: "follow P (token_of ?n) vs \<longleftrightarrow> vs = drop ?n rows" for vs
      using less.hyps [of ?n vs] True sz by simp
    have "follow P (token_of off) us \<longleftrightarrow> (\<exists>rest. us = take (nat sz) (drop off rows) @ rest \<and> follow P (token_of ?n) rest)"
      by (subst follow.simps) (use True ne in \<open>auto simp: page\<close>)
    also have "\<dots> \<longleftrightarrow> us = drop off rows"
    proof -
      have "drop off rows = take (nat sz) (drop off rows) @ drop ?n rows"
        using append_take_drop_id [of "nat sz" "drop off rows"] by (simp add: add.commute)
      then show ?thesis unfolding IH by auto
    qed
    finally show ?thesis .
  next
    case False
    then have "follow P (token_of off) us \<longleftrightarrow> us = take (nat sz) (drop off rows)"
      by (subst follow.simps) (auto simp: page)
    then show ?thesis using False by simp
  qed
qed

section \<open>The handlers\<close>

definition user_page ::
  "'r env \<Rightarrow> Service \<Rightarrow> rpc_ctx \<Rightarrow> 32 word \<Rightarrow> db \<Rightarrow> string \<Rightarrow> ManagedUser list \<times> string \<Rightarrow> bool" where
  "user_page E S ctx sz d tok r \<longleftrightarrow> (\<exists>w. w_db w = d \<and> fst (run_state (ListUsers E S ctx sz tok) w) = Inr r)"

definition audit_page ::
  "'r env \<Rightarrow> Service \<Rightarrow> rpc_ctx \<Rightarrow> 32 word \<Rightarrow> db \<Rightarrow> string \<Rightarrow> pb_AuditEvent list \<times> string \<Rightarrow> bool" where
  "audit_page E S ctx sz d tok r \<longleftrightarrow> (\<exists>w. w_db w = d \<and> fst (run_state (ListAuditEvents E S ctx sz tok) w) = Inr r)"

lemma pageOffset_token: "off < 2 ^ 63 \<Longrightarrow> pageOffset (token_of off) = Inr (int off)"
  by (simp add: pageOffset_def token_of_def TrimSpace_Itoa_nat Atoi_Itoa int64_range_def)

definition page_size :: "int \<Rightarrow> int" where
  "page_size n = (if n = 0 then 50 else n)"

lemma ListUsers_page:
  assumes auth: "run_state (authorizeServiceAccount E S ctx [ScopeUsersRead, ScopeUsersManage]) w = (Inr actor, w1)"
    and up: "db_up E" and sz: "0 \<le> sint sz" "sint sz \<le> 200" and off: "off < 2 ^ 63"
  shows "fst (run_state (ListUsers E S ctx sz (token_of off)) w) =
    Inr (page_at (page_size (sint sz)) (map (managedUserProto \<circ> userToDomain) (users_newest_first (w_db w))) off)"
proof -
  have db: "w_db w1 = w_db w" using keepsD [OF authorize_keeps_db auth] .
  show ?thesis
    using up sz
    by (simp add: ListUsers_def run_andthen auth Let_def pageOffset_token [OF off] run_on_error UserStore_List_def
        run_db_Query db_up_def ListUsers_sql_def db page_at_def page_size_def reply_def page_of_map limit_offset_map
        map_prod_def split: prod.splits)
qed

lemma ListUsers_authorized:
  assumes "fst (run_state (ListUsers E S ctx sz tok) w) = Inr r"
  obtains actor w1 where "run_state (authorizeServiceAccount E S ctx [ScopeUsersRead, ScopeUsersManage]) w = (Inr actor, w1)"
  using assms unfolding ListUsers_def run_andthen by (auto split: prod.splits sum.splits)

lemma ListAuditEvents_page:
  assumes auth: "run_state (authorizeServiceAccount E S ctx [ScopeAuditRead]) w = (Inr actor, w1)"
    and up: "db_up E" and sz: "uint sz \<le> 200" and off: "off < 2 ^ 63"
  shows "fst (run_state (ListAuditEvents E S ctx sz (token_of off)) w) =
    Inr (page_at (page_size (uint sz)) (map (auditEventProto \<circ> rowToEvent) (audit_newest_first (w_db w))) off)"
proof -
  have db: "w_db w1 = w_db w" using keepsD [OF authorize_keeps_db auth] .
  have token: "(let token = TrimSpace (token_of off) in
      if token = '''' then Some 0 else case Atoi token of None \<Rightarrow> None | Some v \<Rightarrow> if v < 0 then None else Some v) = Some (int off)"
    using off by (simp add: token_of_def TrimSpace_Itoa_nat Atoi_Itoa int64_range_def Let_def)
  show ?thesis
    using up sz token
    by (simp add: ListAuditEvents_def run_andthen auth Let_def run_on_error AuditStore_List_def
        run_db_Query db_up_def ListAudit_sql_def db page_at_def page_size_def reply_def page_of_map limit_offset_map
        map_prod_def split: prod.splits)
qed

lemma ListAuditEvents_authorized:
  assumes "fst (run_state (ListAuditEvents E S ctx sz tok) w) = Inr r"
  obtains actor w1 where "run_state (authorizeServiceAccount E S ctx [ScopeAuditRead]) w = (Inr actor, w1)"
  using assms unfolding ListAuditEvents_def run_andthen by (auto split: prod.splits sum.splits)

lemma only_answer:
  assumes "\<And>v r. w_db v = w_db w \<Longrightarrow> fst (run_state m v) = Inr r \<Longrightarrow> r = p" and "fst (run_state m w) = Inr p"
  shows "(\<exists>v. w_db v = w_db w \<and> fst (run_state m v) = Inr r) \<longleftrightarrow> r = p"
  using assms by blast

lemma user_page_iff:
  assumes "fst (run_state (authorizeServiceAccount E S ctx [ScopeUsersRead, ScopeUsersManage]) w) = Inr actor"
    and "db_up E" "0 \<le> sint sz" "sint sz \<le> 200" "off < 2 ^ 63"
  shows "user_page E S ctx sz (w_db w) (token_of off) r \<longleftrightarrow>
    r = page_at (page_size (sint sz)) (map (managedUserProto \<circ> userToDomain) (users_newest_first (w_db w))) off"
  unfolding user_page_def
proof (rule only_answer)
  fix v r assume v: "w_db v = w_db w" "fst (run_state (ListUsers E S ctx sz (token_of off)) v) = Inr r"
  from v(2) show "r = page_at (page_size (sint sz)) (map (managedUserProto \<circ> userToDomain) (users_newest_first (w_db w))) off"
    by (rule ListUsers_authorized) (use v ListUsers_page [OF _ assms(2-5)] in \<open>metis sum.inject(2)\<close>)
next
  obtain w1 where "run_state (authorizeServiceAccount E S ctx [ScopeUsersRead, ScopeUsersManage]) w = (Inr actor, w1)"
    using assms(1) by (metis prod.collapse)
  from ListUsers_page [OF this assms(2-5)] show "fst (run_state (ListUsers E S ctx sz (token_of off)) w) =
    Inr (page_at (page_size (sint sz)) (map (managedUserProto \<circ> userToDomain) (users_newest_first (w_db w))) off)" .
qed

lemma audit_page_iff:
  assumes "fst (run_state (authorizeServiceAccount E S ctx [ScopeAuditRead]) w) = Inr actor"
    and "db_up E" "uint sz \<le> 200" "off < 2 ^ 63"
  shows "audit_page E S ctx sz (w_db w) (token_of off) r \<longleftrightarrow>
    r = page_at (page_size (uint sz)) (map (auditEventProto \<circ> rowToEvent) (audit_newest_first (w_db w))) off"
  unfolding audit_page_def
proof (rule only_answer)
  fix v r assume v: "w_db v = w_db w" "fst (run_state (ListAuditEvents E S ctx sz (token_of off)) v) = Inr r"
  from v(2) show "r = page_at (page_size (uint sz)) (map (auditEventProto \<circ> rowToEvent) (audit_newest_first (w_db w))) off"
    by (rule ListAuditEvents_authorized) (use v ListAuditEvents_page [OF _ assms(2-4)] in \<open>metis sum.inject(2)\<close>)
next
  obtain w1 where "run_state (authorizeServiceAccount E S ctx [ScopeAuditRead]) w = (Inr actor, w1)"
    using assms(1) by (metis prod.collapse)
  from ListAuditEvents_page [OF this assms(2-4)] show "fst (run_state (ListAuditEvents E S ctx sz (token_of off)) w) =
    Inr (page_at (page_size (uint sz)) (map (auditEventProto \<circ> rowToEvent) (audit_newest_first (w_db w))) off)" .
qed

section \<open>Paging is the whole list\<close>

text \<open>
  (C13) For a caller that may read, on a database that does not change and whose statements succeed,
  starting without a token and following the returned tokens ends, and the pages put together are
  exactly the reference list: all live users from the newest to the oldest, and all audit events from
  the newest to the oldest; every entry once, whatever page size from 0 (the default, 50) to 200.
\<close>

theorem paging_complete:
  assumes "fst (run_state (authorizeServiceAccount E S ctx [ScopeUsersRead, ScopeUsersManage]) w) = Inr actor"
    and "fst (run_state (authorizeServiceAccount E S ctx [ScopeAuditRead]) w) = Inr actor'"
    and "db_up E" and "0 \<le> sint sz" and "sint sz \<le> 200"
    and "length (db_users (w_db w)) < 2 ^ 62" and "length (db_audit (w_db w)) < 2 ^ 62"
  shows "(follow (user_page E S ctx sz (w_db w)) '''' us \<longleftrightarrow>
            us = map (managedUserProto \<circ> userToDomain) (users_newest_first (w_db w))) \<and>
         (follow (audit_page E S ctx sz (w_db w)) '''' evs \<longleftrightarrow>
            evs = map (auditEventProto \<circ> rowToEvent) (audit_newest_first (w_db w)))"
proof -
  let ?us = "map (managedUserProto \<circ> userToDomain) (users_newest_first (w_db w))"
  let ?evs = "map (auditEventProto \<circ> rowToEvent) (audit_newest_first (w_db w))"
  have len: "length ?us < 2 ^ 62" "length ?evs < 2 ^ 62"
    using assms(6,7) length_filter_le [of "\<lambda>u. ur_deleted_at u = None" "db_users (w_db w)"]
    by (simp_all add: users_newest_first_def audit_newest_first_def del: length_filter_le)
  have u: "uint sz = sint sz" using assms(4,5) by (simp add: uint_sint take_bit_int_eq_self)
  have sz: "1 \<le> page_size (sint sz)" "page_size (sint sz) \<le> 200" using assms(4,5) by (simp_all add: page_size_def)
  have small: "off < 2 ^ 63" if "off < 2 ^ 62 \<or> off \<le> length ?us \<or> off \<le> length ?evs" for off :: nat
    using that len by auto
  have t: "token_of 0 = ''''" by (simp add: token_of_def)
  have "follow (user_page E S ctx sz (w_db w)) '''' us \<longleftrightarrow> us = ?us"
    using follow_whole [OF sz len(1), where off = 0 and us = us and P = "user_page E S ctx sz (w_db w)"]
      user_page_iff [OF assms(1,3,4,5)] small t by (metis drop0 le0)
  moreover have "follow (audit_page E S ctx sz (w_db w)) '''' evs \<longleftrightarrow> evs = ?evs"
    using follow_whole [OF sz len(2), where off = 0 and us = evs and P = "audit_page E S ctx sz (w_db w)"]
      audit_page_iff [OF assms(2,3), of sz] assms(5) small t by (metis drop0 le0 u)
  ultimately show ?thesis ..
qed

theorem paging_complete_witness:
  "follow (user_page sample_env sample_service sample_ctx 1 sample_db) '''' [managedUserProto (userToDomain sample_user)] \<and>
   follow (audit_page sample_env sample_service sample_ctx 1 sample_db) '''' []"
proof -
  have "fst (run_state (authorizeServiceAccount sample_env sample_service sample_ctx scs) sample_db_world) = Inr (rowToAccount sample_account)"
    if "scs \<noteq> []" for scs
    using sample_authorize [of sample_db_world scs] that by (simp add: sample_db_def)
  then show ?thesis
    using paging_complete [of sample_env sample_service sample_ctx sample_db_world "rowToAccount sample_account"
        "rowToAccount sample_account" 1 "[managedUserProto (userToDomain sample_user)]" "[]"]
    by (simp add: db_up_def sample_db_def db_empty_def users_newest_first_def audit_newest_first_def sample_user_def)
qed

end
