(* ===== verification/Account_Access.thy ===== *)
theory Account_Access
  imports Stored_Values Service_Authorization
begin

text \<open>
  From registration to login: what \<^verbatim>\<open>RegisterWithPassword\<close> stores is what \<^verbatim>\<open>LoginWithPassword\<close> accepts.
  The proof runs through the user store, the password format and the token functions.
\<close>

section \<open>A user that can log in by password\<close>

definition has_password :: "string \<Rightarrow> string \<Rightarrow> db \<Rightarrow> bool" where
  "has_password e h d \<longleftrightarrow> (\<exists>u \<in> set (db_users d). ur_email u = e \<and> ur_hashed_password u = Some h \<and> ur_deleted_at u = None)"

lemma has_password_Exec: "maintains (\<lambda>w. has_password e h (w_db w)) (db_Exec E (UpdateUser i e (Some h) vh l t))"
proof (rule maintains_db_Exec)
  fix d d' n assume "has_password e h d" and "UpdateUser i e (Some h) vh l t d = Inr (d', n)"
  then obtain u where u: "u \<in> set (db_users d)" "ur_email u = e" "ur_hashed_password u = Some h" "ur_deleted_at u = None"
    and d': "db_users d' = map (\<lambda>u. if live_user i u then u\<lparr>ur_email := e, ur_hashed_password := Some h, ur_hash := vh,
                         ur_last_login_at := l, ur_updated_at := t\<rparr> else u) (db_users d)"
    by (auto simp: has_password_def UpdateUser_def update_users_def split: if_splits)
  show "has_password e h d'" unfolding has_password_def d' set_map bex_simps by (rule bexI [of _ u]) (use u in auto)
qed

lemma has_password_update:
  assumes "has_password e h d" and "um_Email usr = e" "um_HashedPassword usr = Some h"
    and "run_state (UserStore_Update E usr) w = (r, w')" and "w_db w = d"
  shows "has_password e h (w_db w')"
proof -
  have "maintains (\<lambda>w. has_password e h (w_db w)) (UserStore_Update E usr)"
    unfolding UserStore_Update_def assms(2,3) by (intro frame maintains_effects(1) [where I = "has_password e h"] has_password_Exec)
  from maintainsD [OF this assms(4)] assms(1,5) show ?thesis by simp
qed

lemma has_password_found:
  assumes "has_password e h d" and "db_ok d"
  shows "\<exists>u. GetUserByEmail e d = Inr u \<and> ur_hashed_password u = Some h"
proof -
  obtain u where u: "u \<in> set (db_users d)" "ur_email u = e" "ur_hashed_password u = Some h" "ur_deleted_at u = None"
    using assms(1) by (auto simp: has_password_def)
  have "distinct (map ur_email (db_users d))" using assms(2) by (simp add: db_ok_def users_ok_def)
  from find_unique_and [OF this u(1), of "\<lambda>u. ur_deleted_at u = None"] u
  show ?thesis by (simp add: GetUserByEmail_def)
qed

lemma keeps_issue_pair: "keeps w_db (issue_pair E S u)"
  unfolding issue_pair_def NewTokenPair_def NewStandardClaims_def by (intro frame) simp_all

lemma has_password_registered:
  assumes "run_state (RegisterWithPassword E S req pw) w = (Inr p, w')" and "db_ok (w_db w)"
  shows "\<exists>salt digest. e_argon2 E pw salt 1 65536 4 32 = Some digest \<and>
    has_password (TrimSpace req) (encode_hash defaultConfig salt digest) (w_db w') \<and> db_ok (w_db w') \<and>
    TrimSpace req \<noteq> '''' \<and> pw \<noteq> ''''"
  using assms(1)
proof (rule RegisterWithPassword_success)
  fix w1 hash w2 usr w3 usr' w4
  assume hash: "run_state (HashPassword E pw) w1 = (Inr hash, w2)"
    and create: "run_state (UserStore_Create E (new_user (TrimSpace req) (Some hash))) w2 = (Inr usr, w3)"
    and login: "run_state (recordLogin E usr) w3 = (usr', w4)" and pair: "run_state (issue_pair E S (um_ID usr')) w4 = (Inr p, w')"
    and args: "TrimSpace req \<noteq> ''''" "pw \<noteq> ''''"
  obtain salt digest where sd: "e_argon2 E pw salt 1 65536 4 32 = Some digest" "hash = encode_hash defaultConfig salt digest"
    using hash by (auto simp: HashPassword_def defaultConfig_def split: option.splits)
  obtain row where row: "CreateUser row (w_db w2) = Inr (w_db w3)" "ur_email row = TrimSpace req" "ur_hashed_password row = Some hash"
    using UserStore_Create_success(1) [OF create] by (auto simp: new_user_def)
  have "w_db w3 = (w_db w2)\<lparr>db_users := db_users (w_db w2) @ [row\<lparr>ur_deleted_at := None\<rparr>]\<rparr>"
    using row(1) by (simp add: CreateUser_def split: if_splits)
  then have 3: "has_password (TrimSpace req) hash (w_db w3)"
    using row(2,3) by (simp add: has_password_def)
  have usr: "um_Email usr = TrimSpace req" "um_HashedPassword usr = Some hash"
    using UserStore_Create_success(2) [OF create] by (metis UserModel.select_convs UserModel.surjective UserModel.update_convs(1-3) new_user_def)+
  obtain t r where upd: "run_state (UserStore_Update E (usr\<lparr>um_LastLoginAt := t\<rparr>)) (w3\<lparr>w_tick := Suc (w_tick w3)\<rparr>) = (r, w4)"
    using login unfolding recordLogin_def by (auto split: prod.splits)
  have "has_password (TrimSpace req) hash (w_db w4)"
    using has_password_update [OF 3 _ _ upd] usr by simp
  moreover have "w_db w' = w_db w4"
    using keepsD [OF _ pair, of w_db] by (simp add: keeps_issue_pair)
  moreover have "db_ok (w_db w')"
    using evolvesD [OF _ assms(1)] assms(2) by (simp add: forward)
  ultimately show ?thesis using sd args by (intro exI [of _ salt] exI [of _ digest]) simp
qed

section \<open>Logging in\<close>

lemma issue_pair_succeeds:
  assumes "jwt_ok (e_jwt E)" "jwt_signs (e_jwt E) priv" "rand_up E" "tc_PrivateKey (sv_tokenCfg S) = Some priv"
  shows "\<exists>p. fst (run_state (issue_pair E S u) w) = Inr p"
proof -
  obtain b1 b2 where b: "e_rand E (Suc (w_tick w)) 16 = Some b1" "e_rand E (Suc (Suc (Suc (w_tick w)))) 16 = Some b2"
    using assms(3) unfolding rand_up_def by blast
  have "\<exists>t. jwt_SignedString (e_jwt E) ''RS256'' kid c (Some priv) = Some t" for kid c
    using assms(2) unfolding jwt_signs_def by blast
  then show ?thesis
    using b assms(4)
    by (auto simp: issue_pair_def run_on_error NewTokenPair_def run_NewStandardClaims [OF assms(1)] GenerateToken_def
        split: option.splits) (metis option.distinct(1))+
qed

lemma LoginWithPassword_run:
  assumes "run_state (limited E (sv_loginRateLimiter S) (rateLimitKeys E ctx ''login'' (TrimSpace req))) w = (False, w1)"
    and "GetUserByEmail (TrimSpace req) (w_db w) = Inr u" "ur_hashed_password u = Some h" "VerifyPassword E pw h = Inr valid"
    and "db_up E" "TrimSpace req \<noteq> ''''" "pw \<noteq> ''''"
  shows "fst (run_state (LoginWithPassword E S ctx req pw) w) =
    (if valid then fst (run_state (finish_login E S (TrimSpace req) (userToDomain u)) (w1\<lparr>w_tick := Suc (w_tick w1)\<rparr>))
     else Inl (Status Unauthenticated ''invalid credentials''))"
proof -
  have "w_db w1 = w_db w" using keepsD [OF keeps_limited assms(1)] .
  then show ?thesis
    using assms unfolding LoginWithPassword_def finish_login_def [symmetric]
    by (simp add: Let_def run_andthen run_on_error UserStore_GetByEmail_def run_db_Query db_up_def userToDomain_def fail_def
        split: prod.splits)
qed

lemma finish_login_succeeds:
  assumes "jwt_ok (e_jwt E)" "jwt_signs (e_jwt E) priv" "rand_up E" "tc_PrivateKey (sv_tokenCfg S) = Some priv"
  shows "\<exists>p. fst (run_state (finish_login E S e usr) w) = Inr p"
  using issue_pair_succeeds [OF assms] by (simp add: finish_login_def split: prod.splits)

text \<open>
  (C9) Registering and logging in fit together: after a successful registration, as long as the
  database is as the registration left it, the same address and password log in with a fresh token
  pair whenever the limiter lets the attempt through and the database answers; and a password with
  another Argon2id digest under the stored salt is refused.
\<close>

theorem registered_can_log_in:
  assumes "run_state (RegisterWithPassword E S req pw) w = (Inr p, w')" and "db_ok (w_db w)"
    and "w_db v = w_db w'"
    and "fst (run_state (limited E (sv_loginRateLimiter S) (rateLimitKeys E ctx ''login'' (TrimSpace req))) v) = False"
    and "db_up E" "argon2_len E" "jwt_ok (e_jwt E)" "jwt_signs (e_jwt E) priv" "rand_up E" "tc_PrivateKey (sv_tokenCfg S) = Some priv"
  shows "(\<exists>pair. fst (run_state (LoginWithPassword E S ctx req pw) v) = Inr pair) \<and>
    (\<exists>salt digest. e_argon2 E pw salt 1 65536 4 32 = Some digest \<and>
       (\<forall>other d. other \<noteq> '''' \<and> e_argon2 E other salt 1 65536 4 32 = Some d \<and> d \<noteq> digest \<longrightarrow>
          fst (run_state (LoginWithPassword E S ctx req other) v) = Inl (Status Unauthenticated ''invalid credentials'')))"
proof -
  obtain salt digest where sd: "e_argon2 E pw salt 1 65536 4 32 = Some digest"
    and has: "has_password (TrimSpace req) (encode_hash defaultConfig salt digest) (w_db w')" and ok: "db_ok (w_db w')"
    and args: "TrimSpace req \<noteq> ''''" "pw \<noteq> ''''"
    using has_password_registered [OF assms(1,2)] by blast
  obtain u where u: "GetUserByEmail (TrimSpace req) (w_db v) = Inr u" "ur_hashed_password u = Some (encode_hash defaultConfig salt digest)"
    using has_password_found [OF has ok] assms(3) by auto
  obtain v1 where lim: "run_state (limited E (sv_loginRateLimiter S) (rateLimitKeys E ctx ''login'' (TrimSpace req))) v = (False, v1)"
    using assms(4) by (metis prod.collapse)
  note verify = VerifyPassword_encoded [OF assms(6) sd]
  have "\<exists>pair. fst (run_state (LoginWithPassword E S ctx req pw) v) = Inr pair"
    using LoginWithPassword_run [OF lim u _ assms(5) args, of True] verify [of pw] sd finish_login_succeeds [OF assms(7-10)] by simp
  moreover have "fst (run_state (LoginWithPassword E S ctx req other) v) = Inl (Status Unauthenticated ''invalid credentials'')"
    if "other \<noteq> ''''" "e_argon2 E other salt 1 65536 4 32 = Some d" "d \<noteq> digest" for other d
    using LoginWithPassword_run [OF lim u _ assms(5) args(1) that(1), of False] verify [of other] that by simp
  ultimately show ?thesis using sd by blast
qed

definition unlimited_service :: Service where
  "unlimited_service = sample_service\<lparr>sv_loginRateLimiter := None\<rparr>"

lemma unlimited_service_sel [simp]: "sv_tokenCfg unlimited_service = sample_cfg" "sv_loginRateLimiter unlimited_service = None"
  by (simp_all add: unlimited_service_def)


lemma sample_register:
  "\<exists>p. fst (run_state (RegisterWithPassword sample_env unlimited_service ''a@b.c'' ''hunter2'') sample_world) = Inr p"
proof -
  have "TrimSpace ''a@b.c'' = ''a@b.c''" by (simp add: TrimSpace_plain)
  moreover have "\<exists>p. fst (run_state (issue_pair sample_env unlimited_service u) w) = Inr p" for u w
    by (rule issue_pair_succeeds [where priv = sample_key]) simp_all
  moreover obtain hash where "run_state (HashPassword sample_env ''hunter2'') w = (Inr (hash w), w\<lparr>w_tick := Suc (w_tick w)\<rparr>)" for w
  proof
    show "run_state (HashPassword sample_env ''hunter2'') w = (Inr (encode_hash defaultConfig (sample_bytes (w_tick w) 16)
        (take 32 (''hunter2'' @ sample_bytes (w_tick w) 16 @ replicate 32 CHR ''0''))), w\<lparr>w_tick := Suc (w_tick w)\<rparr>)" for w
      using sample_argon2(2) by (simp add: HashPassword_def defaultConfig_def)
  qed
  moreover have "run_state (UserStore_GetByEmail sample_env e) sample_world = (Inl ErrNotFound, sample_world\<lparr>w_tick := 1\<rparr>)" for e
    by (simp add: UserStore_GetByEmail_def run_db_Query GetUserByEmail_def db_empty_def)
  moreover have "\<exists>usr w'. run_state (UserStore_Create sample_env u) w = (Inr usr, w')" if "db_users (w_db w) = []" for u w
    using that by (auto simp: UserStore_Create_def db_Exec_def CreateUser_def Let_def)
  then have "\<exists>usr w'. run_state (UserStore_Create sample_env u) (sample_world\<lparr>w_tick := n\<rparr>) = (Inr usr, w')" for u n
    by (simp add: db_empty_def)
  then obtain usr w' where "run_state (UserStore_Create sample_env u) (sample_world\<lparr>w_tick := n\<rparr>) = (Inr (usr u n), w' u n)" for u n
    by metis
  ultimately show ?thesis
    by (simp add: RegisterWithPassword_def run_andthen run_on_error Let_def case_prod_beta)
qed

theorem registered_can_log_in_witness:
  "\<exists>p w'. run_state (RegisterWithPassword sample_env unlimited_service ''a@b.c'' ''hunter2'') sample_world = (Inr p, w') \<and>
     (\<exists>pair. fst (run_state (LoginWithPassword sample_env unlimited_service (\<lambda>_. []) ''a@b.c'' ''hunter2'') w') = Inr pair)"
proof -
  obtain p w' where r: "run_state (RegisterWithPassword sample_env unlimited_service ''a@b.c'' ''hunter2'') sample_world = (Inr p, w')"
    using sample_register by (metis prod.collapse)
  have "\<exists>pair. fst (run_state (LoginWithPassword sample_env unlimited_service (\<lambda>_. []) ''a@b.c'' ''hunter2'') w') = Inr pair"
    using registered_can_log_in [OF r _ refl, of "\<lambda>_. []" sample_key] sample_argon2(1)
    by (simp add: db_ok_empty limited_def db_up_def)
  with r show ?thesis by blast
qed

end
