(* ===== verification/Restart.thy ===== *)
theory Restart
  imports App_Wiring Service_Authorization
begin

text \<open>
  Restarting with a configured bootstrap account (\<^verbatim>\<open>bootstrapServiceAccount\<close> of \<^verbatim>\<open>internal/app/identra.go\<close>): the
  account of the first start is found by every later one.
\<close>

lemma newRecord_name:
  assumes "run_state (newRecord E n scs) w = (Inr (r, s), w')"
  shows "ac_Name (br_Account r) = TrimSpace n" and "w_db w' = w_db w"
  using assms by (auto simp: newRecord_def randomValue_def Let_def new_account_def split: option.splits sum.splits)

lemma newBootstrapRecord_name:
  assumes "run_state (newBootstrapRecord E req) w = (Inr (r, s), w')"
  shows "ac_Name (br_Account r) = TrimSpace (bq_Name req)" and "w_db w' = w_db w"
  using assms newRecord_name [of E "bq_Name req" "bq_Scopes req" w r s w']
  by (auto simp: newBootstrapRecord_def randomValue_def Let_def new_account_def split: if_splits option.splits sum.splits)

lemma newRecord_again:
  assumes "rand_up E" and "fst (run_state (newRecord E n scs) w) = Inr x"
  shows "\<exists>r s. fst (run_state (newRecord E n scs) v) = Inr (r, s)"
proof -
  have "\<exists>b. e_rand E i k = Some b" for i k using assms(1) unfolding rand_up_def by blast
  then obtain f where "e_rand E i k = Some (f i k)" for i k by metis
  then show ?thesis using assms(2) by (auto simp: newRecord_def randomValue_def Let_def split: option.splits sum.splits)
qed

lemma newBootstrapRecord_again:
  assumes "rand_up E" and "fst (run_state (newBootstrapRecord E req) w) = Inr x"
  shows "\<exists>r s. fst (run_state (newBootstrapRecord E req) v) = Inr (r, s)"
proof -
  have "\<exists>b. e_rand E i k = Some b" for i k using assms(1) unfolding rand_up_def by blast
  then obtain f where "e_rand E i k = Some (f i k)" for i k by metis
  then show ?thesis using assms(2) newRecord_again [OF assms(1), of "bq_Name req" "bq_Scopes req" w x v]
    by (auto simp: newBootstrapRecord_def randomValue_def Let_def split: option.splits sum.splits if_splits)
qed

text \<open>The account of that name is there, with that identifier.\<close>

definition has_account :: "string \<Rightarrow> string \<Rightarrow> db \<Rightarrow> bool" where
  "has_account i n d \<longleftrightarrow> (\<exists>a \<in> set (db_accounts d). ar_id a = i \<and> ar_name a = n)"

lemma has_account_evolves: "db_evolves d d' \<Longrightarrow> has_account i n d \<Longrightarrow> has_account i n d'"
  unfolding has_account_def db_evolves_def by (auto dest!: grows_mem simp: account_succ_def)

lemma has_account_found:
  assumes "has_account i n d" and "db_ok d"
  shows "\<exists>a. SelectAccountBy (\<lambda>row. ar_name row = n) d = Inr a \<and> ar_id a = i"
proof -
  obtain a where a: "a \<in> set (db_accounts d)" "ar_id a = i" "ar_name a = n" using assms(1) by (auto simp: has_account_def)
  have "distinct (map ar_name (db_accounts d))" using assms(2) by (simp add: db_ok_def accounts_ok_def)
  from find_unique [OF this a(1)] a show ?thesis by (simp add: SelectAccountBy_def)
qed

lemma insertServiceAccount_has:
  assumes "run_state (insertServiceAccount E r) w = (Inr u, w')"
  shows "has_account (ac_ID (br_Account r)) (ac_Name (br_Account r)) (w_db w')"
proof -
  obtain w1 x where i: "run_state (db_Exec E (InsertServiceAccount (br_Account r))) w = (Inr (), w1)"
    and c: "run_state (db_Exec E (InsertCredential (br_CredentialID r) (ac_ID (br_Account r)) (br_SecretHash r)
        (ac_CreatedAt (br_Account r)))) w1 = (x, w')"
    using assms unfolding insertServiceAccount_def
    by (auto elim!: bind_runE split: sum.splits simp del: State_Monad.run_state_bind)
  have "db_accounts (w_db w1) = db_accounts (w_db w) @ [\<lparr>ar_id = ac_ID (br_Account r), ar_name = ac_Name (br_Account r),
      ar_scopes = ac_Scopes (br_Account r), ar_created_at = ac_CreatedAt (br_Account r),
      ar_updated_at = ac_CreatedAt (br_Account r), ar_disabled_at = None\<rparr>]"
    using db_Exec_success(1) [OF i] by (auto simp: InsertServiceAccount_def split: if_splits dest!: arg_cong [where f = db_accounts])
  then have "has_account (ac_ID (br_Account r)) (ac_Name (br_Account r)) (w_db w1)" by (simp add: has_account_def)
  then show ?thesis by (rule has_account_evolves [OF conjunct1 [OF evolvesD [OF _ c]], rotated]) (rule forward)
qed

lemma bootstrap_write_has:
  assumes "run_state (bootstrap_write E r) w = (Commit (acc, created), w')"
  shows "has_account (ac_ID acc) (ac_Name (br_Account r)) (w_db w')"
proof -
  define rest where "rest = (do {
         r2 \<leftarrow> db_Exec E (UpsertSystemState bootstrapCompletedKey (ac_ID (br_Account r)) (ac_CreatedAt (br_Account r)));
         case r2 of
           Inl e \<Rightarrow> State_Monad.return (Rollback (Inl (sa_wrap ''write bootstrap state'' e)))
         | Inr _ \<Rightarrow> do {
             i \<leftarrow> uuid_NewString E;
             r3 \<leftarrow> db_Exec E (InsertAuditEvent
                    \<lparr>ae_ID = i, ae_OccurredAt = ac_CreatedAt (br_Account r), ae_ActorType = AuditActorSystem,
                     ae_ActorID = ''bootstrap'', ae_Action = ''service_account.bootstrap'',
                     ae_ResourceType = ''service_account'', ae_ResourceID = ac_ID (br_Account r),
                     ae_Metadata = [(''name'', ac_Name (br_Account r))]\<rparr>);
             State_Monad.return
               (case r3 of
                  Inl e \<Rightarrow> Rollback (Inl (sa_wrap ''record bootstrap audit event'' e))
                | Inr _ \<Rightarrow> Commit (br_Account r, True))
           }
       } :: ('a world, (sa_error, Account \<times> bool) tx_end) state)"
  obtain w1 where i: "run_state (insertServiceAccount E r) w = (Inr (), w1)" and c: "run_state rest w1 = (Commit (acc, created), w')"
    using assms unfolding bootstrap_write_def Let_def rest_def [symmetric]
    by (auto elim!: bind_runE split: sum.splits simp del: State_Monad.run_state_bind)
  have "evolves rest" unfolding rest_def by (intro forward)
  then have "db_evolves (w_db w1) (w_db w')" using evolvesD [OF _ c] by blast
  moreover have "acc = br_Account r"
    using c unfolding rest_def by (auto elim!: bind_runE split: sum.splits simp del: State_Monad.run_state_bind)
  ultimately show ?thesis using insertServiceAccount_has [OF i] has_account_evolves by blast
qed

lemma store_Bootstrap_has:
  assumes "run_state (ServiceAccountStore_Bootstrap E r b f) w = (Inr (acc, created), w')"
  shows "has_account (ac_ID acc) (ac_Name (br_Account r)) (w_db w')"
  using assms unfolding ServiceAccountStore_Bootstrap_def
proof (cases rule: db_Transact_success)
  case (committed w1)
  then show ?thesis
    by (auto elim!: bind_runE split: sum.splits option.splits if_splits dest!: bootstrap_write_has
        simp del: State_Monad.run_state_bind)
next
  case (rolled_back w1)
  have no: "run_state (bootstrap_write E r) v \<noteq> (Rollback (Inr x), v')" for v v' x
    unfolding bootstrap_write_def Let_def
    by (auto elim!: bind_runE split: sum.splits simp del: State_Monad.run_state_bind)
  obtain v where "run_state (findServiceAccountByName E (ac_Name (br_Account r))) (w\<lparr>w_tick := Suc (w_tick w)\<rparr>) = (Inr (Some acc), v)"
    using rolled_back(1) no
    by (auto elim!: bind_runE split: sum.splits option.splits if_splits simp del: State_Monad.run_state_bind)
  then show ?thesis using rolled_back(2)
    by (auto simp: findServiceAccountByName_def run_db_Query SelectAccountBy_def has_account_def rowToAccount_def
        split: option.splits sum.splits if_splits dest!: find_Some_iff_mem)
qed

lemma store_Bootstrap_again:
  assumes "has_account i (ac_Name (br_Account r)) (w_db v)" and "db_ok (w_db v)" and "db_up E"
  shows "\<exists>acc v'. run_state (ServiceAccountStore_Bootstrap E r True f) v = (Inr (acc, False), v') \<and> ac_ID acc = i \<and> w_db v' = w_db v"
proof -
  obtain a where a: "SelectAccountBy (\<lambda>row. ar_name row = ac_Name (br_Account r)) (w_db v) = Inr a" "ar_id a = i"
    using has_account_found [OF assms(1,2)] by blast
  show ?thesis using assms(3) a
    by (auto simp: ServiceAccountStore_Bootstrap_def db_Transact_def db_get_def db_restore_def db_Exec_def
        findServiceAccountByName_def run_db_Query db_up_def rowToAccount_def Let_def)
qed

definition restart_request :: "BootstrapConfig \<Rightarrow> BootstrapRequest" where
  "restart_request cfg = \<lparr>bq_Name = cb_Name cfg, bq_Scopes = cb_Scopes cfg, bq_ClientID = cb_ClientID cfg,
     bq_ClientSecret = cb_ClientSecret cfg, bq_IfNotExists = True, bq_Force = False\<rparr>"

lemma bootstrapServiceAccount_has:
  assumes "run_state (bootstrapServiceAccount E cfg) w = (Inr (), w1)" and "cb_Enabled cfg"
  obtains i x where "has_account i (TrimSpace (cb_Name cfg)) (w_db w1)" "EqualFold_ascii i (TrimSpace (cb_ClientID cfg))"
    "fst (run_state (newBootstrapRecord E (restart_request cfg)) w) = Inr x"
proof -
  obtain res where b: "run_state (Bootstrap E (restart_request cfg)) w = (Inr res, w1)"
    and id: "EqualFold_ascii (ac_ID (bs_Account res)) (TrimSpace (cb_ClientID cfg))"
    using assms unfolding bootstrapServiceAccount_def restart_request_def [symmetric]
    by (auto elim!: bind_runE split: sum.splits if_splits simp del: State_Monad.run_state_bind)
  obtain r s w2 acc c where n: "run_state (newBootstrapRecord E (restart_request cfg)) w = (Inr (r, s), w2)"
    and st: "run_state (ServiceAccountStore_Bootstrap E r True False) w2 = (Inr (acc, c), w1)" and acc: "acc = bs_Account res"
    using b unfolding Bootstrap_def
    by (auto elim!: bind_runE split: sum.splits simp: restart_request_def simp del: State_Monad.run_state_bind)
  have "ac_Name (br_Account r) = TrimSpace (cb_Name cfg)"
    using newBootstrapRecord_name(1) [OF n] by (simp add: restart_request_def)
  with store_Bootstrap_has [OF st] id n acc that show ?thesis by simp
qed

text \<open>
  (C26) A configured account survives restarts. Once a start has bootstrapped the account of the
  configuration, then after any sequence of calls every later start with that configuration, when no
  statement and no random source fails, finds it again: the bootstrap step succeeds and changes nothing
  in the database, whether the account is still enabled, disabled, or has a new secret.
\<close>

theorem bootstrap_survives_restart:
  assumes "run_state (bootstrapServiceAccount E cfg) w = (Inr (), w1)" and "db_ok (w_db w)"
    and "served E S w1 v" and "db_up E" and "rand_up E"
  shows "fst (run_state (bootstrapServiceAccount E cfg) v) = Inr () \<and>
    w_db (snd (run_state (bootstrapServiceAccount E cfg) v)) = w_db v"
proof (cases "cb_Enabled cfg")
  case False
  then show ?thesis by (simp add: bootstrapServiceAccount_def)
next
  case True
  obtain i x where has: "has_account i (TrimSpace (cb_Name cfg)) (w_db w1)" and id: "EqualFold_ascii i (TrimSpace (cb_ClientID cfg))"
    and n: "fst (run_state (newBootstrapRecord E (restart_request cfg)) w) = Inr x"
    using assms(1) True by (rule bootstrapServiceAccount_has)
  have "evolves (bootstrapServiceAccount E cfg)" unfolding bootstrapServiceAccount_def by (intro forward)
  then have "db_ok (w_db w1)" using evolvesD [OF _ assms(1)] assms(2) by blast
  then have ok: "db_ok (w_db v)" and ev: "db_evolves (w_db w1) (w_db v)" using served_evolves [OF assms(3)] by auto
  obtain r s v1 where r: "run_state (newBootstrapRecord E (restart_request cfg)) v = (Inr (r, s), v1)"
    using newBootstrapRecord_again [OF assms(5) n, of v] by (metis prod.collapse)
  have name: "ac_Name (br_Account r) = TrimSpace (cb_Name cfg)" and db: "w_db v1 = w_db v"
    using newBootstrapRecord_name [OF r] by (simp_all add: restart_request_def)
  obtain acc v2 where st: "run_state (ServiceAccountStore_Bootstrap E r True False) v1 = (Inr (acc, False), v2)"
    and acc: "ac_ID acc = i" "w_db v2 = w_db v1"
    using store_Bootstrap_again [of i r v1 E False] has_account_evolves [OF ev has] ok assms(4) by (auto simp: name db)
  have "run_state (Bootstrap E (restart_request cfg)) v = (Inr \<lparr>bs_Account = acc, bs_ClientSecret = '''', bs_Created = False\<rparr>, v2)"
    by (simp add: Bootstrap_def r st) (simp add: restart_request_def st)
  then show ?thesis using True id acc db
    unfolding bootstrapServiceAccount_def restart_request_def [symmetric] by simp
qed

definition sample_bootstrap :: BootstrapConfig where
  "sample_bootstrap = \<lparr>cb_Enabled = True, cb_Name = ''ops'', cb_ClientID = ''isa_1'',
     cb_ClientSecret = ''0123456789abcdef0123456789abcdef'', cb_Scopes = [''identra.admin'']\<rparr>"

lemma sample_record: "\<exists>r s v. run_state (newBootstrapRecord sample_env (restart_request sample_bootstrap)) w = (Inr (r, s), v)"
proof -
  have t: "TrimSpace ''ops'' = ''ops''" "TrimSpace ''isa_1'' = ''isa_1''" "TrimSpace ''identra.admin'' = ''identra.admin''"
    "TrimSpace ''0123456789abcdef0123456789abcdef'' = ''0123456789abcdef0123456789abcdef''"
    by (simp_all add: TrimSpace_plain)
  have p: "scopePattern ''isa_1''" "scopePattern ''identra.admin''" by (simp_all add: alnum_def scope_char_def)
  show ?thesis
    by (simp add: newBootstrapRecord_def restart_request_def sample_bootstrap_def Let_def t p check_name_def normalizeScopes_def
        randomValue_def del: scopePattern.simps)
qed

theorem bootstrap_survives_restart_witness:
  "\<exists>w1. run_state (bootstrapServiceAccount sample_env sample_bootstrap) sample_db_world = (Inr (), w1) \<and>
     fst (run_state (bootstrapServiceAccount sample_env sample_bootstrap)
       (serve sample_env sample_service (CallDisableAccount sample_ctx ''isa_1'') w1)) = Inr ()"
proof -
  have t: "TrimSpace ''ops'' = ''ops''" "TrimSpace ''isa_1'' = ''isa_1''" by (simp_all add: TrimSpace_plain)
  have up: "db_up sample_env" by (simp add: db_up_def)
  obtain r s w where r: "run_state (newBootstrapRecord sample_env (restart_request sample_bootstrap)) sample_db_world = (Inr (r, s), w)"
    using sample_record by blast
  have n: "ac_Name (br_Account r) = ''ops''" "w_db w = sample_db"
    using newBootstrapRecord_name [OF r] by (simp_all add: restart_request_def sample_bootstrap_def t)
  have "has_account ''isa_1'' ''ops'' sample_db" by (simp add: has_account_def sample_db_def sample_account_def)
  then obtain acc w2 where "run_state (ServiceAccountStore_Bootstrap sample_env r True False) w = (Inr (acc, False), w2)" "ac_ID acc = ''isa_1''"
    using store_Bootstrap_again [of "''isa_1''" r w sample_env False] n sample_db_ok up by auto
  then have first: "run_state (bootstrapServiceAccount sample_env sample_bootstrap) sample_db_world = (Inr (), w2)"
    using r t by (simp add: bootstrapServiceAccount_def Bootstrap_def restart_request_def sample_bootstrap_def EqualFold_ascii_def)
  show ?thesis
    using first bootstrap_survives_restart [OF first _ call [OF start, of sample_env sample_service w2 "CallDisableAccount sample_ctx ''isa_1''"] up]
      sample_db_ok by simp
qed

end
