(* ===== verification/Spec2Isabelle.thy ===== *)
theory Spec2Isabelle
  imports
    Key_Manager Tokens Password Cache_Stores OAuth_State Sqlite_Store Sqlite_Service_Accounts
    Service_Account Db_History Service_Base Service_Auth Service_OAuth Service_Management
    Sample_Service Service_History Service_Authorization
    Session_Replay Go_Path Migrations Configuration Key_File Mail App_Wiring Process_Startup Go_Flag Command_Line Tracking_Cache
    Stored_Values Paging Account_Access Restart
begin

text \<open>
  \<^bold>\<open>identra\<close> is a gRPC identity service: it registers users, logs them in by password, email code or
  GitHub OAuth, issues and refreshes signed tokens, and offers a management API to service accounts.
  This library models its Go code and proves what makes it correct.

  \<^bold>\<open>How the program is put together.\<close> The command line (\<^verbatim>\<open>cmd/identra\<close>) reads the configuration
  (\<^verbatim>\<open>internal/bootstrap\<close>, \<^verbatim>\<open>internal/config\<close>), opens and migrates a SQLite database, loads or generates the
  signing key and builds a \<^verbatim>\<open>Service\<close> (\<^verbatim>\<open>internal/app\<close>). The service (\<^verbatim>\<open>internal/identra\<close>) holds its
  collaborators: the stores of \<^verbatim>\<open>internal/store/sqlite\<close>, Redis behind the stores of \<^verbatim>\<open>internal/cache\<close>, the key
  ring and token functions of \<^verbatim>\<open>internal/security\<close>, the credential functions of \<^verbatim>\<open>internal/serviceaccount\<close>, and
  a mailer. Each RPC handler is a sequence of calls to them with early returns for errors.

  \<^bold>\<open>The surrounding.\<close> Code outside the repository is a parameter. Most of it is the record \<open>env\<close> of \<open>World\<close>: the
  clock, the random sources, UUIDs, the outcome of every database and Redis call, the Redis commands, the
  JWT library, SHA-256, Argon2id, the SMTP server and the GitHub endpoints. Further records hold what only
  one part needs: \<open>x509_lib\<close> (PEM and PKCS), \<open>mig_env\<close> (executing SQL scripts), \<open>disk_env\<close> (system calls on
  the key file), \<open>viper_lib\<close> (configuration), \<open>smtp_server\<close>, \<open>cache_lib\<close> (\<^verbatim>\<open>go-redis/cache\<close>) and \<open>cli_env\<close> (a
  process's arguments, files and connections). What the proofs rely on are named hypotheses (\<open>redis_laws\<close>,
  \<open>jwt_ok\<close>, \<open>jwt_signs\<close>, \<open>argon2_len\<close>, \<open>clock_mono\<close>, \<open>db_up\<close>, \<open>uuids_fresh\<close>, \<open>cache_laws\<close>); \<open>Sample_Env\<close> and
  \<open>Sample_Service\<close> have one concrete surrounding in which they hold, where the witnesses run. The mutable
  state is the record \<open>world\<close> (database, Redis, sent mail, and the number of effects so far, which indexes
  the clock and the faults), extended to \<open>host\<close> (disk, database file, open handle) and \<open>proc\<close> for a whole
  process. Code that acts on it is a state-monad program; an error return is \<open>Inl\<close>. A database fault may hit
  any statement; a Redis request may be lost, or only its reply.

  \<^bold>\<open>Theories.\<close>
  \<^item> \<open>Identra_Prelude\<close>: durations, the collections \<open>run_simps\<close> and \<open>frame\<close>, and the reasoning about monadic
    programs (\<open>wp\<close>, \<open>keeps\<close>, \<open>maintains\<close>) the others share.
  \<^item> \<open>Go_Strings\<close>, \<open>Go_Encoding\<close>, \<open>Go_Path\<close>, \<open>Go_Flag\<close>: what the code uses of Go's \<^verbatim>\<open>strings\<close>, \<^verbatim>\<open>strconv\<close>, \<^verbatim>\<open>hex\<close>,
    \<^verbatim>\<open>base64\<close>, \<^verbatim>\<open>math/big\<close>, \<^verbatim>\<open>path/filepath\<close> and \<^verbatim>\<open>flag\<close>, with their round trips.
  \<^item> \<open>Key_Manager\<close>: \<^verbatim>\<open>security/jwks.go\<close>. The ring is an association list (a Go map; its order is shown not to
    matter), every method a function on it; \<open>km_reachable\<close> is its state machine. \<open>Key_File\<close>: the key file of
    \<^verbatim>\<open>app/tokens.go\<close> on a disk whose every call may fail.
  \<^item> \<open>Token_Types\<close>, \<open>Tokens\<close>: \<^verbatim>\<open>security/tokens.go\<close>. \<open>Password\<close>: \<^verbatim>\<open>security/password.go\<close> with the scanner of
    \<^verbatim>\<open>fmt.Sscanf\<close> for its two formats.
  \<^item> \<open>Redis_Api\<close>, \<open>Cache_Stores\<close>, \<open>OAuth_State\<close>: the Redis commands as an interface with laws, and the stores of
    \<^verbatim>\<open>internal/cache\<close> and \<^verbatim>\<open>internal/oauth\<close> with their Lua scripts. The locales \<open>attempt_limiter\<close>, \<open>one_time\<close>
    and \<open>oauth_state_store\<close> state what their clients rely on; they are interpreted on the model's own
    operations (both state stores implement the third). \<open>Tracking_Cache\<close>: \<^verbatim>\<open>internal/cache/redis/cache.go\<close>
    as a configuration of processes with refresh events in flight; \<open>cache_run\<close> is its step relation and
    \<open>coherent\<close> its invariant.
  \<^item> \<open>Sqlite_Schema\<close>: tables, constraints and generated statements (\<^verbatim>\<open>sqlitedb\<close>); \<open>Sqlite_Store\<close>,
    \<open>Sqlite_Service_Accounts\<close>: the stores of \<^verbatim>\<open>internal/store/sqlite\<close>, with transactions; \<open>Migrations\<close>: opening
    the database and its migrations (\<^verbatim>\<open>database.go\<close>).
  \<^item> \<open>Service_Account\<close>: \<^verbatim>\<open>serviceaccount/bootstrap.go\<close>. \<open>Db_History\<close>: the order \<open>db_evolves\<close> on databases and
    that every statement and store operation moves forward in it.
  \<^item> \<open>Service_Base\<close>, \<open>Service_Auth\<close>, \<open>Service_OAuth\<close>, \<open>Service_Management\<close>: the handlers of \<^verbatim>\<open>internal/identra\<close>,
    one definition per handler and helper, each with the way a success must have gone.
  \<^item> \<open>Service_History\<close>: a step is one call of any handler; the properties that hold along every sequence
    of calls. \<open>Service_Authorization\<close>: scopes, the guard of the management API and its audit trail.
    \<open>Session_Replay\<close>: which Redis keys a handler can touch, and that a used refresh token stays used.
    \<open>Stored_Values\<close>: a type discipline for what is stored. \<open>Paging\<close>: following page tokens. \<open>Account_Access\<close>:
    from registration to login.
  \<^item> \<open>Configuration\<close>: defaults, loading and validation (\<^verbatim>\<open>internal/config\<close>, \<^verbatim>\<open>internal/bootstrap/config.go\<close>).
    \<open>Mail\<close>: \<^verbatim>\<open>mail/smtp/mailer.go\<close> over the client of \<^verbatim>\<open>net/smtp\<close> and a server with arbitrary replies; the
    locales \<open>greeting_invariant\<close> and \<open>dialogue_invariant\<close> carry its proofs.
  \<^item> \<open>App_Wiring\<close>: \<^verbatim>\<open>internal/app\<close>. \<open>Restart\<close>: starting again with a configured account. \<open>Process_Startup\<close>: \<^verbatim>\<open>internal/bootstrap\<close>, with log attributes as slices
    over shared arrays. \<open>Command_Line\<close>: \<^verbatim>\<open>cmd/identra\<close>, every command up to the exit status.

  \<^bold>\<open>Integers, time, bounds.\<close> Times and durations are nanoseconds as integers; page sizes are 32-bit words and
  page offsets wrap at 64 bits (\<open>int64_add\<close>); \<^verbatim>\<open>Atoi\<close> and \<^verbatim>\<open>ParseUint\<close> refuse what does not fit. No definition
  uses fuel; the upward search for the configuration file has a termination proof.

  \<^bold>\<open>Interleaving.\<close> Calls interleave as whole handlers in \<open>Service_History\<close> and as whole library calls in
  \<open>Tracking_Cache\<close>; within a handler, Redis scripts and database statements are atomic.

  \<^bold>\<open>Not modelled.\<close> Where log lines go (what is logged at start-up is); JSON text of scope lists and audit metadata
  (stored as values); the gRPC transport and generated protocol code; \<^verbatim>\<open>time.ParseDuration\<close>, which computes with
  floating-point numbers and is a parameter; operating-system signals, which are an input of \<open>serve_command\<close>; the adapter
  \<^verbatim>\<open>oauthStateStoreAdapter\<close>, which only renames a type; \<^verbatim>\<open>Init\<close> and \<^verbatim>\<open>InitWithConfigPath\<close>, which turn an error
  into \<^verbatim>\<open>log.Fatalf\<close>; interface declarations and constructors that only store a handle.
\<close>

end
